(* ===== verification/Prelude.thy ===== *)
theory Prelude
  imports Main "HOL-Library.Word"
begin

text \<open>
  Shared vocabulary of the development: the result type of fallible Rust code and its
  combinators (the \<^verbatim>\<open>?\<close> operator, \<^verbatim>\<open>map_err\<close>, \<^verbatim>\<open>ok_or\<close>), computations that
  read and change the outside world (operating-system randomness, the clock, files),
  checked and saturating \<^verbatim>\<open>usize\<close> arithmetic, big-endian \<^verbatim>\<open>u64\<close> encoding, and the
  interface of prefix-free byte encodings with the lemmas every framed format shares.

  \<^verbatim>\<open>usize\<close> is a natural number with the bound of a 64-bit target written out in each
  operation that can overflow; a slice or vector is a list, and its length is read as a
  natural number. Fixed-width values that are serialised are words.
\<close>

section \<open>Types\<close>

type_synonym byte = "8 word"
type_synonym bytes = "byte list"
type_synonym u64 = "64 word"
type_synonym u32 = "32 word"
type_synonym usize = nat

text \<open>The value of a fallible call: \<open>Inl\<close> the error, \<open>Inr\<close> the value.\<close>

type_synonym ('a, 'e) result = "'e + 'a"

text \<open>A call that may fail and that changes the outside world.\<close>

type_synonym ('w, 'a, 'e) effect = "'w \<Rightarrow> ('e + 'a) \<times> 'w"

named_theorems result_simps \<open>equations and equivalences of the result combinators\<close>
named_theorems effect_simps \<open>equations and equivalences of the effect combinators\<close>

section \<open>Results\<close>

definition bindR :: "('a, 'e) result \<Rightarrow> ('a \<Rightarrow> ('b, 'e) result) \<Rightarrow> ('b, 'e) result" where
  "bindR r f = (case r of Inl e \<Rightarrow> Inl e | Inr a \<Rightarrow> f a)"

definition map_err :: "('e \<Rightarrow> 'f) \<Rightarrow> ('a, 'e) result \<Rightarrow> ('a, 'f) result" where
  "map_err g r = (case r of Inl e \<Rightarrow> Inl (g e) | Inr a \<Rightarrow> Inr a)"

definition ok_or :: "'e \<Rightarrow> 'a option \<Rightarrow> ('a, 'e) result" where
  "ok_or e x = (case x of None \<Rightarrow> Inl e | Some a \<Rightarrow> Inr a)"

definition is_ok :: "('a, 'e) result \<Rightarrow> bool" where
  "is_ok r = (case r of Inl _ \<Rightarrow> False | Inr _ \<Rightarrow> True)"

definition ensure :: "bool \<Rightarrow> 'e \<Rightarrow> (unit, 'e) result" where
  "ensure b e = (if b then Inr () else Inl e)"

lemma bindR_simps [simp, result_simps]:
  "bindR (Inl e) f = Inl e"
  "bindR (Inr a) f = f a"
  by (simp_all add: bindR_def)

lemma bindR_eq_Inr [result_simps]:
  "bindR r f = Inr b \<longleftrightarrow> (\<exists>a. r = Inr a \<and> f a = Inr b)"
  by (auto simp: bindR_def split: sum.splits)

lemma bindR_eq_Inl [result_simps]:
  "bindR r f = Inl e \<longleftrightarrow> r = Inl e \<or> (\<exists>a. r = Inr a \<and> f a = Inl e)"
  by (auto simp: bindR_def split: sum.splits)

lemma bindR_assoc: "bindR (bindR r f) g = bindR r (\<lambda>a. bindR (f a) g)"
  by (simp add: bindR_def split: sum.splits)

lemma map_err_simps [simp, result_simps]:
  "map_err g (Inl e) = Inl (g e)"
  "map_err g (Inr a) = Inr a"
  by (simp_all add: map_err_def)

lemma map_err_eq_Inr [simp, result_simps]: "map_err g r = Inr a \<longleftrightarrow> r = Inr a"
  by (auto simp: map_err_def split: sum.splits)

lemma map_err_eq_Inl [result_simps]: "map_err g r = Inl e \<longleftrightarrow> (\<exists>d. r = Inl d \<and> e = g d)"
  by (auto simp: map_err_def split: sum.splits)

lemma ok_or_simps [simp, result_simps]:
  "ok_or e None = Inl e"
  "ok_or e (Some a) = Inr a"
  by (simp_all add: ok_or_def)

lemma ok_or_eq_Inr [simp, result_simps]: "ok_or e x = Inr a \<longleftrightarrow> x = Some a"
  by (auto simp: ok_or_def split: option.splits)

lemma ok_or_eq_Inl [result_simps]: "ok_or e x = Inl d \<longleftrightarrow> x = None \<and> d = e"
  by (auto simp: ok_or_def split: option.splits)

lemma ensure_eq_Inr [simp, result_simps]: "ensure b e = Inr u \<longleftrightarrow> b"
  by (simp add: ensure_def)

lemma ensure_eq_Inl [simp, result_simps]: "ensure b e = Inl d \<longleftrightarrow> \<not> b \<and> d = e"
  by (auto simp: ensure_def)

lemma is_ok_simps [simp, result_simps]:
  "is_ok (Inl e) = False"
  "is_ok (Inr a) = True"
  by (simp_all add: is_ok_def)

lemma is_ok_iff: "is_ok r \<longleftrightarrow> (\<exists>a. r = Inr a)"
  by (cases r) simp_all

lemma bind_ensure:
  "bindR (ensure b e) f = (if b then f () else Inl e)"
  by (simp add: ensure_def)

subsection \<open>Code that may panic\<close>

text \<open>
  The outcome of code that may panic: \<open>None\<close> when it does, otherwise its result. A theorem
  that such code does not panic says that its outcome is \<open>Some\<close>.
\<close>

type_synonym ('a, 'e) outcome = "('e + 'a) option"

definition bindP :: "('a, 'e) outcome \<Rightarrow> ('a \<Rightarrow> ('b, 'e) outcome) \<Rightarrow> ('b, 'e) outcome" where
  "bindP m f = (case m of None \<Rightarrow> None | Some (Inl e) \<Rightarrow> Some (Inl e) | Some (Inr a) \<Rightarrow> f a)"

lemma bindP_simps [simp, result_simps]:
  "bindP None f = None"
  "bindP (Some (Inl e)) f = Some (Inl e)"
  "bindP (Some (Inr a)) f = f a"
  by (simp_all add: bindP_def)

lemma bindP_eq_Inr [result_simps]:
  "bindP m f = Some (Inr b) \<longleftrightarrow> (\<exists>a. m = Some (Inr a) \<and> f a = Some (Inr b))"
  by (auto simp: bindP_def split: option.splits sum.splits)

lemma bindP_eq_Inl [result_simps]:
  "bindP m f = Some (Inl e) \<longleftrightarrow>
     m = Some (Inl e) \<or> (\<exists>a. m = Some (Inr a) \<and> f a = Some (Inl e))"
  by (auto simp: bindP_def split: option.splits sum.splits)

lemma bindP_eq_None [result_simps]:
  "bindP m f = None \<longleftrightarrow> m = None \<or> (\<exists>a. m = Some (Inr a) \<and> f a = None)"
  by (auto simp: bindP_def split: option.splits sum.splits)

lemma if_returns:
  assumes "c \<Longrightarrow> \<exists>r. x = Some r" "\<not> c \<Longrightarrow> \<exists>r. y = Some r"
  shows "\<exists>r. (if c then x else y) = Some r"
  using assms by simp

lemma bindP_returns:
  assumes "\<exists>r. m = Some r" "\<And>a. m = Some (Inr a) \<Longrightarrow> \<exists>r. f a = Some r"
  shows "\<exists>r. bindP m f = Some r"
  using assms by (auto simp: bindP_def split: sum.split)

text \<open>\<^verbatim>\<open>Result::expect\<close> and \<^verbatim>\<open>assert!\<close> in test code: \<open>None\<close> is the panic.\<close>

definition expect :: "'e + 'a \<Rightarrow> 'a option" where
  "expect r = (case r of Inr a \<Rightarrow> Some a | Inl _ \<Rightarrow> None)"

definition assert_that :: "bool \<Rightarrow> unit option" where
  "assert_that b = (if b then Some () else None)"

lemma expect_eq_Some [simp, result_simps]: "expect r = Some a \<longleftrightarrow> r = Inr a"
  by (auto simp: expect_def split: sum.splits)

lemma expect_Inr [simp, result_simps]: "expect (Inr a) = Some a"
  by simp

lemma assert_that_eq_Some [simp, result_simps]: "assert_that b = Some u \<longleftrightarrow> b"
  by (simp add: assert_that_def)

subsection \<open>Collecting a list of results\<close>

text \<open>
  \<^verbatim>\<open>iter.map(f).collect::<Result<Vec<_>, _>>()\<close>: the first error, or every value in order.
\<close>

fun collectR :: "('a \<Rightarrow> ('b, 'e) result) \<Rightarrow> 'a list \<Rightarrow> ('b list, 'e) result" where
  "collectR f [] = Inr []"
| "collectR f (x # xs) = bindR (f x) (\<lambda>y. bindR (collectR f xs) (\<lambda>ys. Inr (y # ys)))"

lemma collectR_eq_Inr:
  "collectR f xs = Inr ys \<longleftrightarrow> list_all2 (\<lambda>x y. f x = Inr y) xs ys"
proof (induction xs arbitrary: ys)
  case Nil
  then show ?case by auto
next
  case (Cons x xs)
  then show ?case by (cases ys) (auto simp: bindR_eq_Inr)
qed

lemma collectR_eq_Inl:
  "collectR f xs = Inl e \<Longrightarrow> \<exists>x \<in> set xs. f x = Inl e"
  by (induction xs) (auto simp: bindR_eq_Inl)

lemma find_append:
  "List.find P (xs @ ys) = (case List.find P xs of None \<Rightarrow> List.find P ys | Some x \<Rightarrow> Some x)"
  by (induction xs) simp_all

section \<open>Effects\<close>

definition bindW ::
  "('w, 'a, 'e) effect \<Rightarrow> ('a \<Rightarrow> ('w, 'b, 'e) effect) \<Rightarrow> ('w, 'b, 'e) effect" where
  "bindW m f = (\<lambda>w. case m w of (Inl e, w') \<Rightarrow> (Inl e, w') | (Inr a, w') \<Rightarrow> f a w')"

definition liftW :: "('a, 'e) result \<Rightarrow> ('w, 'a, 'e) effect" where
  "liftW r = (\<lambda>w. (r, w))"

text \<open>A call of an external function that reports failure without detail.\<close>

definition callW :: "'e \<Rightarrow> ('w \<Rightarrow> 'a option \<times> 'w) \<Rightarrow> ('w, 'a, 'e) effect" where
  "callW e m = (\<lambda>w. case m w of (None, w') \<Rightarrow> (Inl e, w') | (Some a, w') \<Rightarrow> (Inr a, w'))"

lemma liftW_apply [simp, effect_simps]: "liftW r w = (r, w)"
  by (simp add: liftW_def)

lemma bindW_eq_Inr [effect_simps]:
  "bindW m f w = (Inr b, w'') \<longleftrightarrow> (\<exists>a w'. m w = (Inr a, w') \<and> f a w' = (Inr b, w''))"
  by (auto simp: bindW_def split: prod.splits sum.splits)

lemma bindW_eq_Inl [effect_simps]:
  "bindW m f w = (Inl e, w'') \<longleftrightarrow>
     m w = (Inl e, w'') \<or> (\<exists>a w'. m w = (Inr a, w') \<and> f a w' = (Inl e, w''))"
  by (auto simp: bindW_def split: prod.splits sum.splits)

lemma bindW_lift [simp, effect_simps]:
  "bindW (liftW (Inl e)) f = liftW (Inl e)"
  "bindW (liftW (Inr a)) f = f a"
  by (simp_all add: bindW_def liftW_def fun_eq_iff)

lemma bindW_step [effect_simps]:
  "m w = (Inr a, w') \<Longrightarrow> bindW m f w = f a w'"
  "m w = (Inl e, w') \<Longrightarrow> bindW m f w = (Inl e, w')"
  by (simp_all add: bindW_def)

lemma callW_eq_Inr [effect_simps]: "callW e m w = (Inr a, w') \<longleftrightarrow> m w = (Some a, w')"
  by (auto simp: callW_def split: prod.splits option.splits)

lemma callW_eq_Inl [effect_simps]:
  "callW e m w = (Inl d, w') \<longleftrightarrow> m w = (None, w') \<and> d = e"
  by (auto simp: callW_def split: prod.splits option.splits)

text \<open>A \<^verbatim>\<open>for\<close> loop whose body may leave the function with an error.\<close>

fun for_eachW :: "('a \<Rightarrow> ('w, unit, 'e) effect) \<Rightarrow> 'a list \<Rightarrow> ('w, unit, 'e) effect" where
  "for_eachW f [] = liftW (Inr ())"
| "for_eachW f (x # xs) = bindW (f x) (\<lambda>_. for_eachW f xs)"

lemma for_eachW_append:
  "for_eachW f (xs @ ys) = bindW (for_eachW f xs) (\<lambda>_. for_eachW f ys)"
  by (induction xs) (auto simp: bindW_def liftW_def fun_eq_iff split: prod.splits sum.splits)

lemma for_eachW_eq_Inl:
  "for_eachW f xs w = (Inl e, w') \<longleftrightarrow>
     (\<exists>us x vs v. xs = us @ x # vs \<and> for_eachW f us w = (Inr (), v) \<and> f x v = (Inl e, w'))"
proof (induction xs arbitrary: w)
  case Nil
  then show ?case by simp
next
  case (Cons y ys)
  have "for_eachW f (y # ys) w = (Inl e, w') \<longleftrightarrow> f y w = (Inl e, w') \<or>
      (\<exists>v us x vs u. f y w = (Inr (), v) \<and> ys = us @ x # vs \<and> for_eachW f us v = (Inr (), u) \<and>
        f x u = (Inl e, w'))"
    by (simp add: bindW_eq_Inl Cons.IH)
  also have "\<dots> \<longleftrightarrow> (\<exists>us x vs v. y # ys = us @ x # vs \<and> for_eachW f us w = (Inr (), v) \<and>
      f x v = (Inl e, w'))"
  proof (intro iffI)
    assume "\<exists>us x vs v. y # ys = us @ x # vs \<and> for_eachW f us w = (Inr (), v) \<and> f x v = (Inl e, w')"
    then obtain us x vs v where
      *: "y # ys = us @ x # vs" "for_eachW f us w = (Inr (), v)" "f x v = (Inl e, w')" by blast
    then show "f y w = (Inl e, w') \<or>
      (\<exists>v us x vs u. f y w = (Inr (), v) \<and> ys = us @ x # vs \<and> for_eachW f us v = (Inr (), u) \<and>
        f x u = (Inl e, w'))"
      by (cases us) (auto simp: bindW_eq_Inr)
  next
    assume "f y w = (Inl e, w') \<or>
      (\<exists>v us x vs u. f y w = (Inr (), v) \<and> ys = us @ x # vs \<and> for_eachW f us v = (Inr (), u) \<and>
        f x u = (Inl e, w'))"
    then show "\<exists>us x vs v. y # ys = us @ x # vs \<and> for_eachW f us w = (Inr (), v) \<and> f x v = (Inl e, w')"
    proof
      assume "f y w = (Inl e, w')"
      then have "y # ys = [] @ y # ys \<and> for_eachW f [] w = (Inr (), w) \<and> f y w = (Inl e, w')" by simp
      then show ?thesis by blast
    next
      assume "\<exists>v us x vs u. f y w = (Inr (), v) \<and> ys = us @ x # vs \<and>
        for_eachW f us v = (Inr (), u) \<and> f x u = (Inl e, w')"
      then obtain v us x vs u where "f y w = (Inr (), v)" "ys = us @ x # vs"
        "for_eachW f us v = (Inr (), u)" "f x u = (Inl e, w')" by blast
      then have "y # ys = (y # us) @ x # vs \<and> for_eachW f (y # us) w = (Inr (), u) \<and> f x u = (Inl e, w')"
        by (simp add: bindW_step)
      then show ?thesis by blast
    qed
  qed
  finally show ?case .
qed

lemma for_eachW_single: "for_eachW f [x] = f x"
proof
  fix w
  obtain r w' where "f x w = (r, w')" by force
  then show "for_eachW f [x] w = f x w" by (cases r) (simp_all add: bindW_step)
qed

text \<open>The value a block returns when its state is a fresh local variable.\<close>

definition run_local :: "('w, unit, 'e) effect \<Rightarrow> 'w \<Rightarrow> ('w, 'e) result" where
  "run_local m w = (case m w of (Inl e, _) \<Rightarrow> Inl e | (Inr _, w') \<Rightarrow> Inr w')"

lemma run_local_eq_Inr [effect_simps]: "run_local m w = Inr w' \<longleftrightarrow> m w = (Inr (), w')"
  by (auto simp: run_local_def split: prod.splits sum.splits)

lemma run_local_eq_Inl [effect_simps]: "run_local m w = Inl e \<longleftrightarrow> (\<exists>w'. m w = (Inl e, w'))"
  by (auto simp: run_local_def split: prod.splits sum.splits)

section \<open>usize arithmetic\<close>

definition usize_MAX :: usize where
  "usize_MAX = 18446744073709551615"

definition checked_add :: "usize \<Rightarrow> usize \<Rightarrow> usize option" where
  "checked_add a b = (if a + b \<le> usize_MAX then Some (a + b) else None)"

definition checked_mul :: "usize \<Rightarrow> usize \<Rightarrow> usize option" where
  "checked_mul a b = (if a * b \<le> usize_MAX then Some (a * b) else None)"

definition checked_div :: "usize \<Rightarrow> usize \<Rightarrow> usize option" where
  "checked_div a b = (if b = 0 then None else Some (a div b))"

definition saturating_add :: "usize \<Rightarrow> usize \<Rightarrow> usize" where
  "saturating_add a b = min (a + b) usize_MAX"

lemma usize_MAX_eq: "usize_MAX = 2 ^ 64 - 1"
  by (simp add: usize_MAX_def)

lemma checked_add_Some: "checked_add a b = Some c \<longleftrightarrow> c = a + b \<and> a + b \<le> usize_MAX"
  by (auto simp: checked_add_def)

lemma checked_mul_Some: "checked_mul a b = Some c \<longleftrightarrow> c = a * b \<and> a * b \<le> usize_MAX"
  by (auto simp: checked_mul_def)

section \<open>Big-endian u64\<close>

lemma unat_byte_less: "unat (b :: byte) < 256"
proof -
  have "unat b < 2 ^ LENGTH(8)" by (rule unsigned_less)
  then show ?thesis by simp
qed

text \<open>\<^verbatim>\<open>u64::to_be_bytes\<close>, and \<^verbatim>\<open>u64::try_from(usize)\<close>.\<close>

definition u64_to_be_bytes :: "u64 \<Rightarrow> bytes" where
  "u64_to_be_bytes w = map (\<lambda>i. ucast (drop_bit (8 * i) w)) [7, 6, 5, 4, 3, 2, 1, 0]"

definition u64_try_from :: "usize \<Rightarrow> u64 option" where
  "u64_try_from n = (if n < 2 ^ 64 then Some (word_of_nat n) else None)"

lemma length_u64_to_be_bytes [simp]: "length (u64_to_be_bytes w) = 8"
  by (simp add: u64_to_be_bytes_def)

lemma u64_to_be_bytes_inject [simp]: "u64_to_be_bytes v = u64_to_be_bytes w \<longleftrightarrow> v = w"
proof
  assume eq: "u64_to_be_bytes v = u64_to_be_bytes w"
  then have digit: "\<forall>i<8. (ucast (drop_bit (8 * i) v) :: byte) = ucast (drop_bit (8 * i) w)"
    by (simp add: u64_to_be_bytes_def less_Suc_eq numeral_eq_Suc)
  show "v = w"
  proof (rule bit_word_eqI)
    fix n assume n: "n < LENGTH(64)"
    then have "n div 8 < 8" by simp
    with digit have "(ucast (drop_bit (8 * (n div 8)) v) :: byte) = ucast (drop_bit (8 * (n div 8)) w)"
      by blast
    then have "bit (ucast (drop_bit (8 * (n div 8)) v) :: byte) (n mod 8) =
        bit (ucast (drop_bit (8 * (n div 8)) w) :: byte) (n mod 8)"
      by simp
    then show "bit v n = bit w n" using n by (simp add: bit_simps)
  qed
qed simp

lemma u64_try_from_inject:
  "u64_try_from m = Some v \<Longrightarrow> u64_try_from n = Some v \<Longrightarrow> m = n"
proof -
  assume "u64_try_from m = Some v" "u64_try_from n = Some v"
  then have "m < 2 ^ 64" "n < 2 ^ 64" "unat (word_of_nat m :: u64) = unat (word_of_nat n :: u64)"
    by (auto simp: u64_try_from_def split: if_splits)
  then show "m = n"
    by (simp add: unat_of_nat take_bit_nat_eq_self)
qed

section \<open>Prefix-free encodings\<close>

text \<open>
  An encoder of fields is prefix free when a field is determined by any byte string that
  starts with its encoding, together with what follows it. Encodings of several fields
  one after the other are then injective without separators.
\<close>

locale prefix_free =
  fixes enc :: "'a \<Rightarrow> bytes option"
  assumes enc_split:
    "enc a = Some x \<Longrightarrow> enc b = Some y \<Longrightarrow> x @ r = y @ s \<Longrightarrow> a = b \<and> r = s"
begin

lemma enc_inject: "enc a = Some x \<Longrightarrow> enc b = Some x \<Longrightarrow> a = b"
  using enc_split [of a x b x "[]" "[]"] by simp

lemma enc_list_split:
  assumes "list_all2 (\<lambda>a x. enc a = Some x) as xs"
    and "list_all2 (\<lambda>b y. enc b = Some y) bs ys"
    and "length as = length bs"
    and "concat xs @ r = concat ys @ s"
  shows "as = bs \<and> r = s"
  using assms(3,1,2,4)
proof (induction as bs arbitrary: xs ys rule: list_induct2)
  case Nil
  then show ?case by simp
next
  case (Cons a as b bs)
  then obtain x xs' y ys' where
    xs: "xs = x # xs'" "enc a = Some x" "list_all2 (\<lambda>a x. enc a = Some x) as xs'" and
    ys: "ys = y # ys'" "enc b = Some y" "list_all2 (\<lambda>b y. enc b = Some y) bs ys'"
    by (auto simp: list_all2_Cons1)
  with Cons.prems(3) have "x @ (concat xs' @ r) = y @ (concat ys' @ s)" by simp
  with enc_split [OF xs(2) ys(2)] have "a = b" and "concat xs' @ r = concat ys' @ s"
    by blast+
  with Cons.IH [OF xs(3) ys(3)] show ?case by simp
qed

end

text \<open>The length-prefixed field: its length as a big-endian \<^verbatim>\<open>u64\<close>, then its bytes.\<close>

definition len_prefixed :: "bytes \<Rightarrow> bytes option" where
  "len_prefixed v = map_option (\<lambda>n. u64_to_be_bytes n @ v) (u64_try_from (length v))"

lemma len_prefixed_Some:
  "len_prefixed v = Some x \<longleftrightarrow>
     (\<exists>n. u64_try_from (length v) = Some n \<and> x = u64_to_be_bytes n @ v)"
  by (auto simp: len_prefixed_def)

lemma length_len_prefixed: "len_prefixed v = Some x \<Longrightarrow> length x = 8 + length v"
  by (auto simp: len_prefixed_Some)

interpretation lp: prefix_free len_prefixed
proof unfold_locales
  fix a b x y r s
  assume "len_prefixed a = Some x" "len_prefixed b = Some y" "x @ r = y @ s"
  then obtain m n where
    m: "u64_try_from (length a) = Some m" "x = u64_to_be_bytes m @ a" and
    n: "u64_try_from (length b) = Some n" "y = u64_to_be_bytes n @ b"
    by (auto simp: len_prefixed_Some)
  with \<open>x @ r = y @ s\<close> have "m = n" "a @ r = b @ s"
    by (auto simp: append_eq_append_conv)
  moreover from this m n have "length a = length b"
    by (auto dest: u64_try_from_inject)
  ultimately show "a = b \<and> r = s" by simp
qed

end
