(* ===== verification/Rust_Str.thy ===== *)
theory Rust_Str
  imports Prelude "HOL-Library.List_Lexorder"
begin

text \<open>
  The part of Rust's \<^verbatim>\<open>str\<close> and \<^verbatim>\<open>char\<close> the crate uses. A string is the list of its
  characters, each the number of a Unicode scalar value; \<open>as_bytes\<close> is its UTF-8 form,
  and \<^verbatim>\<open>str::len\<close> counts the bytes of that form. \<open>str_ok\<close> is the invariant of the Rust
  type (every character is a scalar value). The lemmas show that UTF-8 is injective and
  that decoding inverts it, that trimming and ASCII lower-casing are idempotent, and how
  they interact with the character tests of the header and context validators.
\<close>

section \<open>Characters and strings\<close>

type_synonym rchar = nat
type_synonym str = "rchar list"

definition is_scalar :: "rchar \<Rightarrow> bool" where
  "is_scalar c \<longleftrightarrow> c < 0xD800 \<or> (0xE000 \<le> c \<and> c < 0x110000)"

definition str_ok :: "str \<Rightarrow> bool" where
  "str_ok s = list_all is_scalar s"

text \<open>A literal of the source: ASCII text, as characters and as bytes.\<close>

definition lit :: "string \<Rightarrow> str" where
  "lit s = map of_char s"

definition blit :: "string \<Rightarrow> bytes" where
  "blit s = map (\<lambda>c. word_of_nat (of_char c)) s"

text \<open>\<^verbatim>\<open>char::is_whitespace\<close>: the Unicode \<^verbatim>\<open>White_Space\<close> property.\<close>

definition is_whitespace :: "rchar \<Rightarrow> bool" where
  "is_whitespace c \<longleftrightarrow>
     (0x9 \<le> c \<and> c \<le> 0xD) \<or> c = 0x20 \<or> c = 0x85 \<or> c = 0xA0 \<or> c = 0x1680 \<or>
     (0x2000 \<le> c \<and> c \<le> 0x200A) \<or> c = 0x2028 \<or> c = 0x2029 \<or> c = 0x202F \<or>
     c = 0x205F \<or> c = 0x3000"

definition trim_start :: "str \<Rightarrow> str" where
  "trim_start s = dropWhile is_whitespace s"

definition trim_end :: "str \<Rightarrow> str" where
  "trim_end s = rev (dropWhile is_whitespace (rev s))"

definition trim :: "str \<Rightarrow> str" where
  "trim s = trim_end (trim_start s)"

definition ascii_lower :: "rchar \<Rightarrow> rchar" where
  "ascii_lower c = (if 65 \<le> c \<and> c \<le> 90 then c + 32 else c)"

definition to_ascii_lowercase :: "str \<Rightarrow> str" where
  "to_ascii_lowercase s = map ascii_lower s"

definition eq_ignore_ascii_case :: "str \<Rightarrow> str \<Rightarrow> bool" where
  "eq_ignore_ascii_case s t \<longleftrightarrow> to_ascii_lowercase s = to_ascii_lowercase t"

text \<open>\<^verbatim>\<open>str::contains\<close> with an array of characters.\<close>

definition contains_any :: "rchar list \<Rightarrow> str \<Rightarrow> bool" where
  "contains_any cs s = list_ex (\<lambda>c. List.member cs c) s"

section \<open>UTF-8\<close>

fun utf8_nats :: "rchar \<Rightarrow> nat list" where
  "utf8_nats c =
     (if c < 0x80 then [c]
      else if c < 0x800 then [0xC0 + c div 64, 0x80 + c mod 64]
      else if c < 0x10000 then [0xE0 + c div 4096, 0x80 + c div 64 mod 64, 0x80 + c mod 64]
      else [0xF0 + c div 262144, 0x80 + c div 4096 mod 64, 0x80 + c div 64 mod 64,
            0x80 + c mod 64])"

declare utf8_nats.simps [simp del]

definition as_bytes :: "str \<Rightarrow> bytes" where
  "as_bytes s = map word_of_nat (concat (map utf8_nats s))"

definition str_len :: "str \<Rightarrow> usize" where
  "str_len s = length (as_bytes s)"

text \<open>
  One step of \<^verbatim>\<open>std::str::from_utf8\<close>: the first character and what follows it, \<open>None\<close> for
  a stray or missing continuation byte, an overlong form, a surrogate or a value past
  U+10FFFF.
\<close>

definition is_cont :: "nat \<Rightarrow> bool" where
  "is_cont b \<longleftrightarrow> 0x80 \<le> b \<and> b < 0xC0"

fun utf8_step :: "nat list \<Rightarrow> (rchar \<times> nat list) option" where
  "utf8_step [] = None"
| "utf8_step (a # r) =
     (if a < 0x80 then Some (a, r)
      else if 0xC0 \<le> a \<and> a < 0xE0 then
        (case r of b # r' \<Rightarrow>
           (let c = (a - 0xC0) * 64 + (b - 0x80)
            in if is_cont b \<and> 0x80 \<le> c then Some (c, r') else None)
         | _ \<Rightarrow> None)
      else if 0xE0 \<le> a \<and> a < 0xF0 then
        (case r of b # d # r' \<Rightarrow>
           (let c = (a - 0xE0) * 4096 + (b - 0x80) * 64 + (d - 0x80)
            in if is_cont b \<and> is_cont d \<and> 0x800 \<le> c \<and> is_scalar c then Some (c, r') else None)
         | _ \<Rightarrow> None)
      else if 0xF0 \<le> a \<and> a < 0xF8 then
        (case r of b # d # e # r' \<Rightarrow>
           (let c = (a - 0xF0) * 262144 + (b - 0x80) * 4096 + (d - 0x80) * 64 + (e - 0x80)
            in if is_cont b \<and> is_cont d \<and> is_cont e \<and> 0x10000 \<le> c \<and> is_scalar c
               then Some (c, r') else None)
         | _ \<Rightarrow> None)
      else None)"

lemma utf8_step_shorter: "utf8_step bs = Some (c, r) \<Longrightarrow> length r < length bs"
  by (cases bs) (auto simp: Let_def split: if_splits list.splits)

function utf8_decode :: "nat list \<Rightarrow> str option" where
  "utf8_decode bs =
     (if bs = [] then Some []
      else case utf8_step bs of
        None \<Rightarrow> None
      | Some (c, r) \<Rightarrow> map_option (Cons c) (utf8_decode r))"
  by pat_completeness auto
termination
  by (relation "measure length") (auto dest: utf8_step_shorter)

declare utf8_decode.simps [simp del]

definition from_utf8 :: "bytes \<Rightarrow> str option" where
  "from_utf8 bs = utf8_decode (map unat bs)"

subsection \<open>UTF-8 is prefix free\<close>

lemma utf8_nats_cases:
  obtains (one) "c < 0x80" "utf8_nats c = [c]"
  | (two) "0x80 \<le> c" "c < 0x800" "utf8_nats c = [0xC0 + c div 64, 0x80 + c mod 64]"
  | (three) "0x800 \<le> c" "c < 0x10000"
      "utf8_nats c = [0xE0 + c div 4096, 0x80 + c div 64 mod 64, 0x80 + c mod 64]"
  | (four) "0x10000 \<le> c"
      "utf8_nats c = [0xF0 + c div 262144, 0x80 + c div 4096 mod 64, 0x80 + c div 64 mod 64,
         0x80 + c mod 64]"
  by (simp add: utf8_nats.simps) (metis not_less)

lemma digits64_2: "(c::nat) = c div 64 * 64 + c mod 64"
  by (simp only: div_mult_mod_eq)

lemma digits64_3: "(c::nat) = c div 4096 * 4096 + c div 64 mod 64 * 64 + c mod 64"
proof -
  have "c div 64 = c div 64 div 64 * 64 + c div 64 mod 64"
    by (rule digits64_2)
  moreover have "c div 64 div 64 = c div 4096"
    by (simp flip: div_mult2_eq)
  ultimately show ?thesis using digits64_2 [of c] by linarith
qed

lemma digits64_4:
  "(c::nat) = c div 262144 * 262144 + c div 4096 mod 64 * 4096 + c div 64 mod 64 * 64 + c mod 64"
proof -
  have "c div 4096 = c div 4096 div 64 * 64 + c div 4096 mod 64"
    by (rule digits64_2)
  moreover have "c div 4096 div 64 = c div 262144"
    by (simp flip: div_mult2_eq)
  ultimately show ?thesis using digits64_3 [of c] by linarith
qed

lemma utf8_step_encode:
  assumes "is_scalar c"
  shows "utf8_step (utf8_nats c @ r) = Some (c, r)"
proof (cases c rule: utf8_nats_cases)
  case one
  then show ?thesis by simp
next
  case two
  have "c div 64 < 32" using two by simp
  with two show ?thesis
    using digits64_2 [of c] by (simp add: is_cont_def Let_def)
next
  case three
  have "c div 4096 < 16" using three by simp
  with three assms show ?thesis
    using digits64_3 [of c] by (simp add: is_cont_def Let_def)
next
  case four
  have "c div 262144 < 8" using assms by (simp add: is_scalar_def) arith
  with four assms show ?thesis
    using digits64_4 [of c] by (simp add: is_cont_def Let_def)
qed

lemma utf8_nats_bound: "is_scalar c \<Longrightarrow> b \<in> set (utf8_nats c) \<Longrightarrow> b < 256"
  by (cases c rule: utf8_nats_cases) (auto simp: is_scalar_def)

lemma utf8_decode_encode:
  "str_ok s \<Longrightarrow> utf8_decode (concat (map utf8_nats s)) = Some s"
proof (induction s)
  case Nil
  then show ?case by (simp add: utf8_decode.simps)
next
  case (Cons c s)
  have "utf8_nats c \<noteq> []" by (simp add: utf8_nats.simps)
  with Cons show ?case
    by (simp add: utf8_decode.simps [of "utf8_nats c @ _"] str_ok_def utf8_step_encode)
qed

theorem from_utf8_as_bytes [simp]: "str_ok s \<Longrightarrow> from_utf8 (as_bytes s) = Some s"
proof -
  assume ok: "str_ok s"
  have "\<And>b. b \<in> set (concat (map utf8_nats s)) \<Longrightarrow> b < 256"
    using ok utf8_nats_bound by (auto simp: str_ok_def list_all_iff)
  then have "map (unat \<circ> (word_of_nat :: nat \<Rightarrow> byte)) (concat (map utf8_nats s)) = concat (map utf8_nats s)"
    by (intro map_idI) (simp add: unat_of_nat take_bit_nat_eq_self)
  with ok show ?thesis
    by (simp add: from_utf8_def as_bytes_def utf8_decode_encode)
qed

lemma as_bytes_inject: "str_ok s \<Longrightarrow> str_ok t \<Longrightarrow> as_bytes s = as_bytes t \<longleftrightarrow> s = t"
  by (metis from_utf8_as_bytes option.inject)

lemma as_bytes_simps [simp]:
  "as_bytes [] = []"
  "as_bytes (s @ t) = as_bytes s @ as_bytes t"
  by (simp_all add: as_bytes_def)

lemma as_bytes_eq_Nil [simp]: "as_bytes s = [] \<longleftrightarrow> s = []"
  by (cases s) (auto simp: as_bytes_def utf8_nats.simps)

lemma as_bytes_ascii:
  "list_all (\<lambda>c. c < 0x80) s \<Longrightarrow> as_bytes s = map word_of_nat s"
  by (induction s) (simp_all add: as_bytes_def utf8_nats.simps)

lemma str_len_ascii: "list_all (\<lambda>c. c < 0x80) s \<Longrightarrow> str_len s = length s"
  by (simp add: str_len_def as_bytes_ascii)

section \<open>Trimming\<close>

lemma trim_Nil [simp]: "trim [] = []"
  by (simp add: trim_def trim_start_def trim_end_def)

lemma set_trim: "set (trim s) \<subseteq> set s"
proof -
  have "set (trim s) \<subseteq> set (dropWhile is_whitespace s)"
    using set_dropWhileD [of _ is_whitespace "rev (dropWhile is_whitespace s)"]
    by (auto simp: trim_def trim_end_def trim_start_def)
  then show ?thesis using set_dropWhileD by fastforce
qed

lemma trim_eq_Nil: "trim s = [] \<longleftrightarrow> list_all is_whitespace s"
proof
  assume "trim s = []"
  then have "dropWhile is_whitespace (rev (dropWhile is_whitespace s)) = []"
    by (simp only: trim_def trim_end_def trim_start_def rev_is_Nil_conv)
  then have "\<forall>c \<in> set (dropWhile is_whitespace s). is_whitespace c"
    by (metis dropWhile_eq_Nil_conv set_rev)
  then have "dropWhile is_whitespace s = []"
    by (metis hd_dropWhile list.set_sel(1))
  then show "list_all is_whitespace s"
    by (simp only: dropWhile_eq_Nil_conv list_all_iff)
next
  assume "list_all is_whitespace s"
  then have "dropWhile is_whitespace s = []" by (simp add: dropWhile_eq_Nil_conv list_all_iff)
  then show "trim s = []" by (simp only: trim_def trim_end_def trim_start_def list.map rev.simps dropWhile.simps)
qed

text \<open>A string is its own trimming exactly when neither end is whitespace.\<close>

lemma trim_id:
  assumes "s \<noteq> []" "\<not> is_whitespace (hd s)" "\<not> is_whitespace (last s)"
  shows "trim s = s"
proof -
  have "dropWhile is_whitespace s = s" using assms by (cases s) auto
  moreover have "dropWhile is_whitespace (rev s) = rev s"
    using assms by (cases "rev s") (auto simp: last_rev hd_rev [symmetric])
  ultimately show ?thesis by (simp add: trim_def trim_end_def trim_start_def)
qed

lemma trim_ends:
  assumes "trim s \<noteq> []"
  shows "\<not> is_whitespace (hd (trim s)) \<and> \<not> is_whitespace (last (trim s))"
proof -
  define t where "t = dropWhile is_whitespace s"
  define u where "u = dropWhile is_whitespace (rev t)"
  have trim: "trim s = rev u" by (simp add: trim_def trim_end_def trim_start_def t_def u_def)
  with assms have u: "u \<noteq> []" by simp
  then have last: "\<not> is_whitespace (hd u)" unfolding u_def using hd_dropWhile by blast
  have t: "t \<noteq> []" using u by (auto simp: u_def)
  then have head: "\<not> is_whitespace (hd t)" unfolding t_def using hd_dropWhile by blast
  have "rev t = takeWhile is_whitespace (rev t) @ u" by (simp add: u_def)
  then have "last (rev t) = last u" using u by (metis last_appendR)
  then have "hd t = last u" using t by (simp add: last_rev)
  with trim u last head show ?thesis by (simp add: hd_rev last_rev)
qed

lemma trim_idem [simp]: "trim (trim s) = trim s"
proof (cases "trim s = []")
  case True
  then show ?thesis by simp
next
  case False
  then show ?thesis using trim_ends [OF False] by (intro trim_id) auto
qed

lemma trim_no_whitespace:
  "list_all (\<lambda>c. \<not> is_whitespace c) s \<Longrightarrow> trim s = s"
  by (cases "s = []") (simp_all add: list_all_iff trim_id)

lemma str_ok_trim: "str_ok s \<Longrightarrow> str_ok (trim s)"
  using set_trim by (fastforce simp: str_ok_def list_all_iff)

section \<open>ASCII case\<close>

lemma ascii_lower_idem [simp]: "ascii_lower (ascii_lower c) = ascii_lower c"
  by (simp add: ascii_lower_def)

lemma to_ascii_lowercase_idem [simp]:
  "to_ascii_lowercase (to_ascii_lowercase s) = to_ascii_lowercase s"
  by (simp add: to_ascii_lowercase_def)

lemma to_ascii_lowercase_Nil [simp]: "to_ascii_lowercase s = [] \<longleftrightarrow> s = []"
  by (simp add: to_ascii_lowercase_def)

lemma eq_ignore_ascii_case_refl [simp]: "eq_ignore_ascii_case s s"
  by (simp add: eq_ignore_ascii_case_def)

lemma eq_ignore_ascii_case_sym: "eq_ignore_ascii_case s t = eq_ignore_ascii_case t s"
  by (auto simp: eq_ignore_ascii_case_def)

lemma eq_ignore_ascii_case_trans:
  "eq_ignore_ascii_case s t \<Longrightarrow> eq_ignore_ascii_case t u \<Longrightarrow> eq_ignore_ascii_case s u"
  by (simp add: eq_ignore_ascii_case_def)

lemma contains_any_iff: "contains_any cs s \<longleftrightarrow> (\<exists>c \<in> set s. c \<in> set cs)"
  by (auto simp: contains_any_def list_ex_iff)

lemma str_ok_lowercase: "str_ok s \<Longrightarrow> str_ok (to_ascii_lowercase s)"
  by (auto simp: str_ok_def to_ascii_lowercase_def list_all_iff is_scalar_def ascii_lower_def)

lemmas str_eval =
  lit_def blit_def as_bytes_def utf8_nats.simps to_ascii_lowercase_def ascii_lower_def
  eq_ignore_ascii_case_def str_ok_def is_scalar_def

end
