(* ===== verification/Rust_Fmt.thy ===== *)
theory Rust_Fmt
  imports Rust_Str
begin

text \<open>
  Number formatting as \<^verbatim>\<open>format!\<close> does it: decimal digits, minimum widths filled with
  zeros after the sign (\<^verbatim>\<open>{:04}\<close>), and two-digit lower-case hexadecimal (\<^verbatim>\<open>{:02x}\<close>).
  The lemmas give the characters and lengths of formatted numbers and show that a
  decimal or hexadecimal rendering determines its number.
\<close>

section \<open>Decimal\<close>

fun dec_digits :: "nat \<Rightarrow> nat list" where
  "dec_digits n = (if n < 10 then [n] else dec_digits (n div 10) @ [n mod 10])"

declare dec_digits.simps [simp del]

definition fmt_nat :: "nat \<Rightarrow> str" where
  "fmt_nat n = map (\<lambda>d. 48 + d) (dec_digits n)"

text \<open>\<^verbatim>\<open>{:0w}\<close> for a signed integer.\<close>

definition fmt_int_pad :: "nat \<Rightarrow> int \<Rightarrow> str" where
  "fmt_int_pad w i =
     (let digits = fmt_nat (nat \<bar>i\<bar>);
          sign = (if i < 0 then [45] else [])
      in sign @ replicate (w - (length sign + length digits)) 48 @ digits)"

definition dec_value :: "str \<Rightarrow> nat" where
  "dec_value s = foldl (\<lambda>a c. a * 10 + (c - 48)) 0 s"

lemma dec_digits_small: "n < 10 \<Longrightarrow> dec_digits n = [n]"
  by (simp add: dec_digits.simps)

lemma dec_digits_step: "10 \<le> n \<Longrightarrow> dec_digits n = dec_digits (n div 10) @ [n mod 10]"
  by (subst dec_digits.simps) simp

lemma dec_digits_bound: "d \<in> set (dec_digits n) \<Longrightarrow> d < 10"
proof (induction n rule: dec_digits.induct)
  case (1 n)
  then show ?case by (cases "n < 10") (auto simp: dec_digits_small dec_digits_step)
qed

lemma dec_digits_nonempty [simp]: "dec_digits n \<noteq> []"
  by (subst dec_digits.simps) simp

lemma length_dec_digits: "n < 10 ^ k \<Longrightarrow> 0 < k \<Longrightarrow> length (dec_digits n) \<le> k"
proof (induction n arbitrary: k rule: dec_digits.induct)
  case (1 n)
  show ?case
  proof (cases "n < 10")
    case True
    with 1 show ?thesis by (simp add: dec_digits_small)
  next
    case False
    with 1 obtain j where k: "k = Suc j" and "0 < j" by (cases k; cases "k - 1") auto
    have "n div 10 < 10 ^ j" using 1(2) k by (simp add: less_mult_imp_div_less mult.commute)
    with 1(1) [of j] False \<open>0 < j\<close> show ?thesis by (simp add: dec_digits_step k)
  qed
qed

lemma dec_value_fmt_nat [simp]: "dec_value (fmt_nat n) = n"
proof -
  have "foldl (\<lambda>a c. a * 10 + (c - 48)) 0 (map (\<lambda>d. 48 + d) (dec_digits n)) = n"
  proof (induction n rule: dec_digits.induct)
    case (1 n)
    then show ?case by (cases "n < 10") (simp_all add: dec_digits_small dec_digits_step)
  qed
  then show ?thesis by (simp add: dec_value_def fmt_nat_def)
qed

lemma set_fmt_nat: "c \<in> set (fmt_nat n) \<Longrightarrow> 48 \<le> c \<and> c \<le> 57"
  using dec_digits_bound by (fastforce simp: fmt_nat_def)

lemma fmt_nat_nonempty [simp]: "fmt_nat n \<noteq> []"
  by (simp add: fmt_nat_def)

lemma length_fmt_int_pad:
  assumes "0 \<le> i" "i < 10 ^ w" "0 < w"
  shows "length (fmt_int_pad w i) = w"
proof -
  have "nat i < 10 ^ w" using assms by (simp add: nat_less_iff)
  then have "length (dec_digits (nat i)) \<le> w" using assms by (intro length_dec_digits)
  with assms show ?thesis by (simp add: fmt_int_pad_def fmt_nat_def Let_def)
qed

lemma set_fmt_int_pad: "0 \<le> i \<Longrightarrow> c \<in> set (fmt_int_pad w i) \<Longrightarrow> 48 \<le> c \<and> c \<le> 57"
  by (auto simp: fmt_int_pad_def Let_def dest: set_fmt_nat)

lemma dec_value_zeros: "dec_value (replicate k 48 @ s) = dec_value s"
proof -
  have "foldl (\<lambda>a c. a * 10 + (c - 48)) 0 (replicate k (48::nat)) = 0"
    by (induction k) simp_all
  then show ?thesis by (simp add: dec_value_def)
qed

lemma dec_value_fmt_int_pad: "0 \<le> i \<Longrightarrow> dec_value (fmt_int_pad w i) = nat i"
  by (simp add: fmt_int_pad_def Let_def dec_value_zeros)

section \<open>Hexadecimal\<close>

definition hex_digit :: "nat \<Rightarrow> rchar" where
  "hex_digit d = (if d < 10 then 48 + d else 87 + d)"

definition fmt_hex2 :: "byte \<Rightarrow> str" where
  "fmt_hex2 b = [hex_digit (unat b div 16), hex_digit (unat b mod 16)]"

lemma hex_digit_inject: "d < 16 \<Longrightarrow> e < 16 \<Longrightarrow> hex_digit d = hex_digit e \<longleftrightarrow> d = e"
  by (auto simp: hex_digit_def split: if_splits)

lemma fmt_hex2_inject: "fmt_hex2 a = fmt_hex2 b \<longleftrightarrow> a = b"
proof
  assume "fmt_hex2 a = fmt_hex2 b"
  moreover have "unat a div 16 < 16" "unat b div 16 < 16"
    using unat_byte_less [of a] unat_byte_less [of b] by simp_all
  ultimately have "unat a div 16 = unat b div 16" "unat a mod 16 = unat b mod 16"
    by (simp_all add: fmt_hex2_def hex_digit_inject)
  then have "unat a = unat b" by (metis div_mult_mod_eq)
  then show "a = b" by (rule unsigned_word_eqI)
qed simp

lemma hex_digit_range:
  "d < 16 \<Longrightarrow> (48 \<le> hex_digit d \<and> hex_digit d \<le> 57) \<or> (97 \<le> hex_digit d \<and> hex_digit d \<le> 102)"
  by (auto simp: hex_digit_def)

lemma set_fmt_hex2:
  "c \<in> set (fmt_hex2 b) \<Longrightarrow> (48 \<le> c \<and> c \<le> 57) \<or> (97 \<le> c \<and> c \<le> 102)"
proof -
  have "unat b div 16 < 16" using unat_byte_less [of b] by simp
  then show "c \<in> set (fmt_hex2 b) \<Longrightarrow> ?thesis"
    using hex_digit_range [of "unat b div 16"] hex_digit_range [of "unat b mod 16"]
    by (auto simp: fmt_hex2_def)
qed

end
