(* ===== verification/Errors.thy ===== *)
theory Errors
  imports Rust_Fmt
begin

text \<open>
  \<^verbatim>\<open>src/error.rs\<close>: the error categories of the crate and of protocol adapters, with the
  text each prints. A field name is the \<^verbatim>\<open>&'static str\<close> of the source. An operating-system
  error is its raw code.
\<close>

datatype AdapterErrorKind = InvalidMapping | MissingField | DuplicateField | InvalidField

datatype AdapterError = AdapterError (adapter_error_kind: AdapterErrorKind)

type_synonym 'a AdapterResult = "('a, AdapterError) result"

datatype KeyKind = LocalPrivate | PeerPublic

type_synonym io_error = nat

datatype Error =
    Configuration string
  | KeyMaterialError KeyKind
  | MessageTooLarge usize
  | Serialization
  | Encryption
  | AuthenticationContextError
  | InvalidHeader
  | HeaderConflict
  | ProtocolAdapterError
  | InvalidEnvelope
  | Io string str io_error

type_synonym 'a Result = "('a, Error) result"

text \<open>\<^verbatim>\<open>AdapterError::new\<close>, \<^verbatim>\<open>AdapterError::kind\<close>.\<close>

definition AdapterError_new :: "AdapterErrorKind \<Rightarrow> AdapterError" where
  "AdapterError_new k = AdapterError k"

definition AdapterError_kind :: "AdapterError \<Rightarrow> AdapterErrorKind" where
  "AdapterError_kind e = adapter_error_kind e"

text \<open>The derived \<^verbatim>\<open>Debug\<close> of the two kinds, and the \<^verbatim>\<open>#[error(...)]\<close> texts.\<close>

fun AdapterErrorKind_debug :: "AdapterErrorKind \<Rightarrow> str" where
  "AdapterErrorKind_debug InvalidMapping = lit ''InvalidMapping''"
| "AdapterErrorKind_debug MissingField = lit ''MissingField''"
| "AdapterErrorKind_debug DuplicateField = lit ''DuplicateField''"
| "AdapterErrorKind_debug InvalidField = lit ''InvalidField''"

fun KeyKind_debug :: "KeyKind \<Rightarrow> str" where
  "KeyKind_debug LocalPrivate = lit ''LocalPrivate''"
| "KeyKind_debug PeerPublic = lit ''PeerPublic''"

definition AdapterError_display :: "AdapterError \<Rightarrow> str" where
  "AdapterError_display e =
     lit ''protocol adapter failed: '' @ AdapterErrorKind_debug (adapter_error_kind e)"

fun Error_display :: "Error \<Rightarrow> str" where
  "Error_display (Configuration field) = lit ''invalid configuration field: '' @ lit field"
| "Error_display (KeyMaterialError kind) =
     lit ''invalid '' @ KeyKind_debug kind @ lit '' key material''"
| "Error_display (MessageTooLarge limit) =
     lit ''message exceeds the configured '' @ fmt_nat limit @ lit ''-byte limit''"
| "Error_display Serialization = lit ''serialization failed''"
| "Error_display Encryption = lit ''encryption failed''"
| "Error_display AuthenticationContextError =
     lit ''authentication context is invalid for the configured mode''"
| "Error_display InvalidHeader = lit ''invalid header''"
| "Error_display HeaderConflict = lit ''header conflict''"
| "Error_display ProtocolAdapterError = lit ''protocol adapter failed''"
| "Error_display InvalidEnvelope = lit ''invalid secure envelope''"
| "Error_display (Io operation path source) =
     lit ''I/O operation '' @ lit operation @ lit '' failed for '' @ path"

end
