(* ===== verification/Auth.thy ===== *)
theory Auth
  imports Errors
begin

text \<open>
  \<^verbatim>\<open>src/auth.rs\<close>: authentication modes, per-operation contexts, the signed transcript and
  the additional authenticated data of an AEAD envelope. The lemmas give both byte
  layouts exactly, show that a transcript determines domain, context and plaintext, that
  the AAD determines frame header, domain and context, and that the two formats never
  coincide.
\<close>

section \<open>Modes, contexts and their encodings\<close>

definition TRANSCRIPT_VERSION :: byte where
  "TRANSCRIPT_VERSION = 1"

definition TRANSCRIPT_LENGTH_BYTES :: usize where
  "TRANSCRIPT_LENGTH_BYTES = 3 * 8"

definition AEAD_AAD_LABEL :: bytes where
  "AEAD_AAD_LABEL = blit ''gmcrypto-envelope-lite/aead-aad/v1''"

datatype AuthenticationMode = LegacyPlaintext | ContextBound (domain_separator: bytes)

datatype ContextKind = Legacy | Bound bytes

datatype AuthenticationContext = AuthenticationContext (context_kind: ContextKind)

definition AuthenticationMode_context_bound :: "bytes \<Rightarrow> AuthenticationMode Result" where
  "AuthenticationMode_context_bound d =
     (if d = [] then Inl (Configuration ''domain_separator'') else Inr (ContextBound d))"

fun AuthenticationMode_validate :: "AuthenticationMode \<Rightarrow> unit Result" where
  "AuthenticationMode_validate (ContextBound d) =
     (if d = [] then Inl (Configuration ''domain_separator'') else Inr ())"
| "AuthenticationMode_validate LegacyPlaintext = Inr ()"

definition AuthenticationContext_legacy :: AuthenticationContext where
  "AuthenticationContext_legacy = AuthenticationContext Legacy"

definition AuthenticationContext_context_bound :: "bytes \<Rightarrow> AuthenticationContext Result" where
  "AuthenticationContext_context_bound bs =
     (if bs = [] then Inl AuthenticationContextError else Inr (AuthenticationContext (Bound bs)))"

text \<open>\<^verbatim>\<open>Vec::push\<close> and \<^verbatim>\<open>push_field\<close> on a growing byte vector.\<close>

definition vec_push :: "byte \<Rightarrow> (bytes, unit, 'e) effect" where
  "vec_push b = (\<lambda>target. (Inr (), target @ [b]))"

definition push_field :: "bytes \<Rightarrow> (bytes, unit, Error) effect" where
  "push_field value = (\<lambda>target.
     (case u64_try_from (length value) of
        None \<Rightarrow> (Inl AuthenticationContextError, target)
      | Some len \<Rightarrow> (Inr (), (target @ u64_to_be_bytes len) @ value)))"

definition authentication_input ::
  "AuthenticationMode \<Rightarrow> AuthenticationContext \<Rightarrow> bytes \<Rightarrow> bytes Result" where
  "authentication_input self context plaintext =
     bindR (AuthenticationMode_validate self) (\<lambda>_.
     (case (self, context_kind context) of
        (LegacyPlaintext, Legacy) \<Rightarrow> Inr plaintext
      | (ContextBound domain, Bound ctx) \<Rightarrow>
          bindR (ok_or AuthenticationContextError
             (Option.bind (checked_add 1 TRANSCRIPT_LENGTH_BYTES) (\<lambda>n.
              Option.bind (checked_add n (length domain)) (\<lambda>n.
              Option.bind (checked_add n (length ctx)) (\<lambda>n.
              checked_add n (length plaintext)))))) (\<lambda>capacity.
          run_local
            (bindW (vec_push TRANSCRIPT_VERSION) (\<lambda>_.
             bindW (push_field domain) (\<lambda>_.
             bindW (push_field ctx) (\<lambda>_.
             push_field plaintext)))) [])
      | _ \<Rightarrow> Inl AuthenticationContextError))"

definition aead_aad ::
  "AuthenticationMode \<Rightarrow> AuthenticationContext \<Rightarrow> bytes \<Rightarrow> bytes Result" where
  "aead_aad self context frame_header =
     bindR (AuthenticationMode_validate self) (\<lambda>_.
     bindR (case (self, context_kind context) of
              (LegacyPlaintext, Legacy) \<Rightarrow> Inr ([], [])
            | (ContextBound domain, Bound bound) \<Rightarrow> Inr (domain, bound)
            | _ \<Rightarrow> Inl AuthenticationContextError) (\<lambda>(domain, protocol_context).
     bindR (ok_or AuthenticationContextError
        (Option.bind (checked_add (4 * 8) (length AEAD_AAD_LABEL)) (\<lambda>n.
         Option.bind (checked_add n (length frame_header)) (\<lambda>n.
         Option.bind (checked_add n (length domain)) (\<lambda>n.
         checked_add n (length protocol_context)))))) (\<lambda>capacity.
     run_local
       (bindW (push_field AEAD_AAD_LABEL) (\<lambda>_.
        bindW (push_field frame_header) (\<lambda>_.
        bindW (push_field domain) (\<lambda>_.
        push_field protocol_context)))) [])))"

section \<open>Layout\<close>

text \<open>A mode accepts a context when the kinds agree; a bound mode needs a domain.\<close>

fun context_matches :: "AuthenticationMode \<Rightarrow> AuthenticationContext \<Rightarrow> bool" where
  "context_matches LegacyPlaintext (AuthenticationContext Legacy) = True"
| "context_matches (ContextBound d) (AuthenticationContext (Bound c)) = True"
| "context_matches _ _ = False"

definition mode_ok :: "AuthenticationMode \<Rightarrow> bool" where
  "mode_ok m \<longleftrightarrow> m \<noteq> ContextBound []"

fun mode_domain :: "AuthenticationMode \<Rightarrow> bytes" where
  "mode_domain LegacyPlaintext = []"
| "mode_domain (ContextBound d) = d"

fun context_bytes :: "AuthenticationContext \<Rightarrow> bytes" where
  "context_bytes (AuthenticationContext Legacy) = []"
| "context_bytes (AuthenticationContext (Bound c)) = c"

lemma context_matches_cases:
  assumes "context_matches m x"
  obtains (legacy) "m = LegacyPlaintext" "x = AuthenticationContext Legacy"
  | (bound) d c where "m = ContextBound d" "x = AuthenticationContext (Bound c)"
  using assms by (cases "(m, x)" rule: context_matches.cases) auto

lemma validate_iff: "AuthenticationMode_validate m = Inr u \<longleftrightarrow> mode_ok m"
  by (cases m) (auto simp: mode_ok_def)

lemma validate_err:
  "AuthenticationMode_validate m = Inl e \<longleftrightarrow> \<not> mode_ok m \<and> e = Configuration ''domain_separator''"
  by (cases m) (auto simp: mode_ok_def)

lemma push_field_iff:
  "push_field v t = (Inr (), t') \<longleftrightarrow> (\<exists>x. len_prefixed v = Some x \<and> t' = t @ x)"
  by (auto simp: push_field_def len_prefixed_def split: option.splits)

lemma push_field_err:
  "push_field v t = (Inl e, t') \<longleftrightarrow>
     len_prefixed v = None \<and> e = AuthenticationContextError \<and> t' = t"
  by (auto simp: push_field_def len_prefixed_def split: option.splits)

text \<open>The concatenated fields, when every one of them has a 64-bit length.\<close>

definition lp_fields :: "bytes list \<Rightarrow> bytes option" where
  "lp_fields vs = (if list_all (\<lambda>v. length v < 2 ^ 64) vs
     then Some (concat (map (\<lambda>v. u64_to_be_bytes (word_of_nat (length v)) @ v) vs)) else None)"

lemma len_prefixed_eq:
  "len_prefixed v = (if length v < 2 ^ 64
     then Some (u64_to_be_bytes (word_of_nat (length v)) @ v) else None)"
  by (simp add: len_prefixed_def u64_try_from_def)

lemma lp_fields_Some:
  "lp_fields vs = Some t \<longleftrightarrow> (\<exists>xs. list_all2 (\<lambda>v x. len_prefixed v = Some x) vs xs \<and> t = concat xs)"
proof (induction vs arbitrary: t)
  case Nil
  then show ?case by (auto simp: lp_fields_def)
next
  case (Cons v vs)
  have "lp_fields (v # vs) = Some t \<longleftrightarrow>
      (\<exists>x r. len_prefixed v = Some x \<and> lp_fields vs = Some r \<and> t = x @ r)"
    by (auto simp: lp_fields_def len_prefixed_eq)
  also have "\<dots> \<longleftrightarrow> (\<exists>xs. list_all2 (\<lambda>v x. len_prefixed v = Some x) (v # vs) xs \<and> t = concat xs)"
    by (auto simp: Cons.IH list_all2_Cons1) force
  finally show ?case .
qed

lemma lp_fields_inject:
  assumes "lp_fields vs = Some t" "lp_fields us = Some t" "length vs = length us"
  shows "vs = us"
proof -
  obtain xs ys where
    "list_all2 (\<lambda>v x. len_prefixed v = Some x) vs xs" "t = concat xs"
    "list_all2 (\<lambda>v x. len_prefixed v = Some x) us ys" "t = concat ys"
    using assms by (auto simp: lp_fields_Some)
  with lp.enc_list_split [of vs xs us ys "[]" "[]"] assms(3) show ?thesis by simp
qed

lemma length_fields: "lp_fields vs = Some t \<Longrightarrow> length t = sum_list (map (\<lambda>v. 8 + length v) vs)"
  by (auto simp: lp_fields_def length_concat comp_def split: if_splits)

lemma small_length: "n \<le> usize_MAX \<Longrightarrow> n < 2 ^ 64"
  by (simp add: usize_MAX_def)

lemma authentication_input_legacy [simp]:
  "authentication_input LegacyPlaintext (AuthenticationContext Legacy) p = Inr p"
  by (simp add: authentication_input_def)

lemma authentication_input_bound:
  "authentication_input (ContextBound d) (AuthenticationContext (Bound c)) p =
     (if d = [] then Inl (Configuration ''domain_separator'')
      else if 25 + length d + length c + length p \<le> usize_MAX
      then Inr (TRANSCRIPT_VERSION # the (lp_fields [d, c, p]))
      else Inl AuthenticationContextError)"
  by (auto simp: authentication_input_def TRANSCRIPT_LENGTH_BYTES_def checked_add_def
      run_local_def bindW_def vec_push_def push_field_def u64_try_from_def lp_fields_def
      usize_MAX_def)

lemma authentication_input_mismatch:
  "\<not> context_matches m x \<Longrightarrow> mode_ok m \<Longrightarrow>
     authentication_input m x p = Inl AuthenticationContextError"
  by (cases "(m, x)" rule: context_matches.cases)
    (auto simp: authentication_input_def mode_ok_def)

lemma authentication_input_okD:
  assumes "authentication_input m x p = Inr t"
  shows "mode_ok m \<and> context_matches m x"
proof -
  have "mode_ok m" using assms by (auto simp: authentication_input_def bindR_eq_Inr validate_iff)
  with assms authentication_input_mismatch [of m x p] show ?thesis by auto
qed

lemma aead_aad_eq:
  "aead_aad m x h =
     (if \<not> mode_ok m then Inl (Configuration ''domain_separator'')
      else if context_matches m x \<and>
         66 + length h + length (mode_domain m) + length (context_bytes x) \<le> usize_MAX
      then Inr (the (lp_fields [AEAD_AAD_LABEL, h, mode_domain m, context_bytes x]))
      else Inl AuthenticationContextError)"
  by (cases "(m, x)" rule: context_matches.cases)
    (auto simp: aead_aad_def mode_ok_def checked_add_def AEAD_AAD_LABEL_def blit_def
      run_local_def bindW_def push_field_def u64_try_from_def lp_fields_def usize_MAX_def)

section \<open>What the encodings bind\<close>

lemma authentication_input_boundD:
  assumes "authentication_input (ContextBound d) x p = Inr t"
  obtains c where "x = AuthenticationContext (Bound c)" "d \<noteq> []" "lp_fields [d, c, p] = Some (tl t)"
    "t = TRANSCRIPT_VERSION # tl t"
proof (cases "context_kind x")
  case Legacy
  then have "x = AuthenticationContext Legacy" by (cases x) simp
  with assms show ?thesis by (simp add: authentication_input_def bindR_eq_Inr)
next
  case (Bound c)
  then have x: "x = AuthenticationContext (Bound c)" by (cases x) simp
  with assms have "d \<noteq> []" and size: "25 + length d + length c + length p \<le> usize_MAX"
    and t: "t = TRANSCRIPT_VERSION # the (lp_fields [d, c, p])"
    by (auto simp: authentication_input_bound split: if_splits)
  moreover have "lp_fields [d, c, p] = Some (the (lp_fields [d, c, p]))"
    using size by (simp add: lp_fields_def usize_MAX_def)
  ultimately show ?thesis using that x by simp
qed

lemma authentication_input_inject:
  assumes "authentication_input m x p = Inr t" "authentication_input m y q = Inr t"
  shows "x = y \<and> p = q"
proof (cases m)
  case LegacyPlaintext
  then have "x = AuthenticationContext Legacy \<and> y = AuthenticationContext Legacy"
    using assms authentication_input_okD by (auto elim!: context_matches_cases)
  with assms LegacyPlaintext show ?thesis by (simp add: authentication_input_def)
next
  case (ContextBound d)
  obtain c where x: "x = AuthenticationContext (Bound c)" "lp_fields [d, c, p] = Some (tl t)"
    using assms(1) unfolding ContextBound by (rule authentication_input_boundD) blast
  obtain c' where y: "y = AuthenticationContext (Bound c')" "lp_fields [d, c', q] = Some (tl t)"
    using assms(2) unfolding ContextBound by (rule authentication_input_boundD) blast
  show ?thesis using lp_fields_inject [OF x(2) y(2)] x(1) y(1) by simp
qed

lemma aead_aadD:
  assumes "aead_aad m x h = Inr a"
  shows "mode_ok m \<and> context_matches m x \<and>
    lp_fields [AEAD_AAD_LABEL, h, mode_domain m, context_bytes x] = Some a"
  using assms
  by (auto simp: aead_aad_eq lp_fields_def AEAD_AAD_LABEL_def blit_def usize_MAX_def split: if_splits)

lemma aead_aad_starts_zero:
  assumes "aead_aad m x h = Inr a"
  shows "\<exists>r. a = 0 # r"
  using aead_aadD [OF assms]
  by (auto simp: lp_fields_def u64_to_be_bytes_def AEAD_AAD_LABEL_def blit_def split: if_splits)

lemma mode_domain_inject: "mode_ok m \<Longrightarrow> mode_ok n \<Longrightarrow> mode_domain m = mode_domain n \<longleftrightarrow> m = n"
  by (cases m; cases n) (auto simp: mode_ok_def)

lemma context_matches_inject:
  "context_matches m x \<Longrightarrow> context_matches m y \<Longrightarrow> context_bytes x = context_bytes y \<Longrightarrow> x = y"
  by (auto elim!: context_matches_cases)

text \<open>
  Property C18: the transcript that is signed is exactly the documented one. A bound mode
  with an empty domain is a configuration error; a context of the other kind is refused;
  legacy mode signs the plaintext itself; a bound mode signs version byte 1 and the
  length-prefixed domain, context and plaintext, unless the total length overflows.
\<close>

theorem authentication_input_layout:
  "authentication_input m x p =
     (if \<not> mode_ok m then Inl (Configuration ''domain_separator'')
      else if \<not> context_matches m x then Inl AuthenticationContextError
      else if m = LegacyPlaintext then Inr p
      else if 25 + length (mode_domain m) + length (context_bytes x) + length p \<le> usize_MAX
      then Inr ([1] @
        u64_to_be_bytes (word_of_nat (length (mode_domain m))) @ mode_domain m @
        u64_to_be_bytes (word_of_nat (length (context_bytes x))) @ context_bytes x @
        u64_to_be_bytes (word_of_nat (length p)) @ p)
      else Inl AuthenticationContextError)"
proof (cases "context_matches m x")
  case True
  then show ?thesis
    by (cases rule: context_matches_cases)
      (auto simp: authentication_input_bound mode_ok_def lp_fields_def usize_MAX_def
        TRANSCRIPT_VERSION_def)
next
  case False
  then show ?thesis
    using authentication_input_mismatch [OF False]
    by (cases m) (auto simp: mode_ok_def authentication_input_def)
qed

text \<open>
  A context-bound transcript determines the domain separator, the context
  and the plaintext, so a signature over it covers all three without ambiguity.
\<close>

lemma transcript_binds_all_fields:
  assumes "authentication_input (ContextBound d) x p = Inr t"
    and "authentication_input (ContextBound d') x' p' = Inr t"
  shows "d = d' \<and> x = x' \<and> p = p'"
proof -
  obtain c where c: "x = AuthenticationContext (Bound c)" "lp_fields [d, c, p] = Some (tl t)"
    using assms(1) by (rule authentication_input_boundD) blast
  obtain c' where c': "x' = AuthenticationContext (Bound c')" "lp_fields [d', c', p'] = Some (tl t)"
    using assms(2) by (rule authentication_input_boundD) blast
  from lp_fields_inject [OF c(2) c'(2)] show ?thesis by (simp add: c(1) c'(1))
qed

text \<open>
  Property C19: the additional authenticated data determines the frame header, the
  authentication mode with its domain, and the protocol context.
\<close>

theorem aad_binds_header_mode_and_context:
  assumes "aead_aad m x h = Inr a" and "aead_aad m' x' h' = Inr a"
  shows "h = h' \<and> m = m' \<and> x = x'"
proof -
  note l = aead_aadD [OF assms(1)] and r = aead_aadD [OF assms(2)]
  then have eq: "[AEAD_AAD_LABEL, h, mode_domain m, context_bytes x] =
      [AEAD_AAD_LABEL, h', mode_domain m', context_bytes x']"
    by (intro lp_fields_inject) auto
  with l r have "m = m'" by (simp add: mode_domain_inject)
  moreover with eq l r have "x = x'" by (auto intro: context_matches_inject)
  ultimately show ?thesis using eq by simp
qed

theorem aad_binds_header_mode_and_context_witness:
  "(\<exists>a. aead_aad (ContextBound [9]) (AuthenticationContext (Bound [3])) (replicate 14 7) = Inr a) \<and>
   (ContextBound [9] = ContextBound [9])"
proof -
  have "is_ok (aead_aad (ContextBound [9]) (AuthenticationContext (Bound [3])) (replicate 14 7))"
    by (simp add: aead_aad_eq mode_ok_def usize_MAX_def)
  then obtain a where
    a: "aead_aad (ContextBound [9]) (AuthenticationContext (Bound [3])) (replicate 14 7) = Inr a"
    by (auto simp: is_ok_iff)
  show ?thesis using a aad_binds_header_mode_and_context [OF a a] by blast
qed

text \<open>
  Additional authenticated data is never a context-bound transcript, so a
  value computed for one purpose cannot be taken for the other.
\<close>

lemma aad_is_no_transcript:
  assumes "aead_aad m x h = Inr a" and "authentication_input (ContextBound d) y p = Inr t"
  shows "a \<noteq> t"
proof -
  obtain r where "a = 0 # r" using aead_aad_starts_zero [OF assms(1)] by blast
  moreover have "t = TRANSCRIPT_VERSION # tl t"
    using assms(2) by (rule authentication_input_boundD)
  ultimately show ?thesis by (metis TRANSCRIPT_VERSION_def list.inject zero_neq_one)
qed

end
