(* ===== verification/Header.thy ===== *)
theory Header
  imports Errors
begin

text \<open>
  \<^verbatim>\<open>src/header.rs\<close>: case-insensitive header names, single-line header values, and the
  ordered collection that refuses a second name under any casing. A method that takes
  \<^verbatim>\<open>&mut self\<close> is an effect on the collection, so what a failed call leaves behind is
  part of the model. The lemmas characterise construction, insertion, revalidation and
  checked appending on every branch; the interface \<open>header_store\<close> is what the builders
  and the request assembly rely on.
\<close>

section \<open>Names\<close>

datatype HeaderName = HeaderName (original: str) (canonical: str)

definition is_ascii_alphanumeric :: "byte \<Rightarrow> bool" where
  "is_ascii_alphanumeric b \<longleftrightarrow> (48 \<le> b \<and> b \<le> 57) \<or> (65 \<le> b \<and> b \<le> 90) \<or> (97 \<le> b \<and> b \<le> 122)"

definition is_token_byte :: "byte \<Rightarrow> bool" where
  "is_token_byte b \<longleftrightarrow>
     is_ascii_alphanumeric b \<or> List.member (blit ''!#$%&'' @ [39] @ blit ''*+-.^_`|~'') b"

definition HeaderName_new :: "str \<Rightarrow> HeaderName Result" where
  "HeaderName_new name =
     (if name = [] \<or> \<not> list_all is_token_byte (as_bytes name) then Inl InvalidHeader
      else Inr (HeaderName name (to_ascii_lowercase name)))"

definition HeaderName_as_str :: "HeaderName \<Rightarrow> str" where
  "HeaderName_as_str n = original n"

text \<open>\<^verbatim>\<open>PartialEq\<close>, \<^verbatim>\<open>Ord\<close> and what \<^verbatim>\<open>Hash\<close> feeds to the hasher, all on the canonical form.\<close>

definition HeaderName_eq :: "HeaderName \<Rightarrow> HeaderName \<Rightarrow> bool" where
  "HeaderName_eq a b \<longleftrightarrow> canonical a = canonical b"

datatype Ordering = Less | Equal | Greater

definition str_cmp :: "str \<Rightarrow> str \<Rightarrow> Ordering" where
  "str_cmp s t = (if as_bytes s < as_bytes t then Less
                  else if as_bytes s = as_bytes t then Equal else Greater)"

definition HeaderName_cmp :: "HeaderName \<Rightarrow> HeaderName \<Rightarrow> Ordering" where
  "HeaderName_cmp a b = str_cmp (canonical a) (canonical b)"

definition HeaderName_partial_cmp :: "HeaderName \<Rightarrow> HeaderName \<Rightarrow> Ordering option" where
  "HeaderName_partial_cmp a b = Some (HeaderName_cmp a b)"

definition HeaderName_hash :: "HeaderName \<Rightarrow> str" where
  "HeaderName_hash a = canonical a"

instantiation HeaderName :: preorder
begin

definition less_eq_HeaderName :: "HeaderName \<Rightarrow> HeaderName \<Rightarrow> bool" where
  "a \<le> b \<longleftrightarrow> as_bytes (canonical a) \<le> as_bytes (canonical b)"

definition less_HeaderName :: "HeaderName \<Rightarrow> HeaderName \<Rightarrow> bool" where
  "a < b \<longleftrightarrow> as_bytes (canonical a) < as_bytes (canonical b)"

instance
  by standard (auto simp: less_eq_HeaderName_def less_HeaderName_def)

end

section \<open>Values\<close>

datatype HeaderValue = HeaderValue (value_str: str)

definition is_disallowed_value_character :: "rchar \<Rightarrow> bool" where
  "is_disallowed_value_character c \<longleftrightarrow> (c \<le> 0x1f \<and> c \<noteq> 9) \<or> c = 0x7f"

definition HeaderValue_new :: "str \<Rightarrow> HeaderValue Result" where
  "HeaderValue_new value =
     (if list_ex is_disallowed_value_character value then Inl InvalidHeader
      else Inr (HeaderValue value))"

definition HeaderValue_as_str :: "HeaderValue \<Rightarrow> str" where
  "HeaderValue_as_str v = value_str v"

section \<open>Collections\<close>

record HeaderCollection =
  entries :: "(HeaderName \<times> HeaderValue) list"

definition HeaderCollection_default :: HeaderCollection where
  "HeaderCollection_default = \<lparr>entries = []\<rparr>"

definition HeaderCollection_insert_typed ::
  "HeaderName \<Rightarrow> HeaderValue \<Rightarrow> (HeaderCollection, unit, Error) effect" where
  "HeaderCollection_insert_typed name value = (\<lambda>self.
     if list_ex (\<lambda>(candidate, _). HeaderName_eq candidate name) (entries self)
     then (Inl HeaderConflict, self)
     else (Inr (), self\<lparr>entries := entries self @ [(name, value)]\<rparr>))"

definition HeaderCollection_insert ::
  "str \<Rightarrow> str \<Rightarrow> (HeaderCollection, unit, Error) effect" where
  "HeaderCollection_insert name value =
     bindW (liftW (HeaderName_new name)) (\<lambda>n.
     bindW (liftW (HeaderValue_new value)) (\<lambda>v.
     HeaderCollection_insert_typed n v))"

definition HeaderCollection_from_pairs :: "(str \<times> str) list \<Rightarrow> HeaderCollection Result" where
  "HeaderCollection_from_pairs headers =
     run_local (for_eachW (\<lambda>(name, value). HeaderCollection_insert name value) headers)
       HeaderCollection_default"

definition HeaderCollection_revalidate :: "HeaderCollection \<Rightarrow> unit Result" where
  "HeaderCollection_revalidate self =
     bindR (run_local
         (for_eachW (\<lambda>(name, value).
            HeaderCollection_insert (HeaderName_as_str name) (HeaderValue_as_str value))
            (entries self))
         HeaderCollection_default)
       (\<lambda>_. Inr ())"

definition HeaderCollection_from_typed_pairs ::
  "(HeaderName \<times> HeaderValue) list \<Rightarrow> HeaderCollection Result" where
  "HeaderCollection_from_typed_pairs headers =
     bindR (run_local
         (for_eachW (\<lambda>(name, value). HeaderCollection_insert_typed name value) headers)
         HeaderCollection_default)
       (\<lambda>collection. bindR (HeaderCollection_revalidate collection) (\<lambda>_. Inr collection))"

definition HeaderCollection_append_checked ::
  "HeaderCollection \<Rightarrow> (HeaderCollection, unit, Error) effect" where
  "HeaderCollection_append_checked other = (\<lambda>self.
     (case HeaderCollection_revalidate self of
        Inl e \<Rightarrow> (Inl e, self)
      | Inr _ \<Rightarrow>
     (case HeaderCollection_revalidate other of
        Inl e \<Rightarrow> (Inl e, self)
      | Inr _ \<Rightarrow>
        if list_ex (\<lambda>(candidate, _). list_ex (\<lambda>(name, _). HeaderName_eq name candidate) (entries self))
             (entries other)
        then (Inl HeaderConflict, self)
        else (Inr (), self\<lparr>entries := entries self @ entries other\<rparr>))))"

definition HeaderCollection_get :: "HeaderCollection \<Rightarrow> str \<Rightarrow> HeaderValue option" where
  "HeaderCollection_get self name =
     map_option snd
       (List.find (\<lambda>(candidate, _). eq_ignore_ascii_case (HeaderName_as_str candidate) name)
         (entries self))"

definition HeaderCollection_len :: "HeaderCollection \<Rightarrow> usize" where
  "HeaderCollection_len self = length (entries self)"

definition HeaderCollection_is_empty :: "HeaderCollection \<Rightarrow> bool" where
  "HeaderCollection_is_empty self \<longleftrightarrow> entries self = []"

definition HeaderCollection_into_pairs :: "HeaderCollection \<Rightarrow> (HeaderName \<times> HeaderValue) list" where
  "HeaderCollection_into_pairs self = entries self"

section \<open>Validity\<close>

text \<open>The names and values the constructors accept, and the entry they build.\<close>

definition valid_name :: "str \<Rightarrow> bool" where
  "valid_name s \<longleftrightarrow> s \<noteq> [] \<and> list_all is_token_byte (as_bytes s)"

definition valid_value :: "str \<Rightarrow> bool" where
  "valid_value s \<longleftrightarrow> (\<forall>c \<in> set s. \<not> is_disallowed_value_character c)"

definition entry_of :: "str \<times> str \<Rightarrow> HeaderName \<times> HeaderValue" where
  "entry_of p = (HeaderName (fst p) (to_ascii_lowercase (fst p)), HeaderValue (snd p))"

definition pair_of :: "HeaderName \<times> HeaderValue \<Rightarrow> str \<times> str" where
  "pair_of e = (original (fst e), value_str (snd e))"

abbreviation header_key :: "HeaderName \<times> HeaderValue \<Rightarrow> str" where
  "header_key e \<equiv> canonical (fst e)"

text \<open>
  The invariant: every entry is one the constructors could have built, and no two names
  agree up to ASCII case.
\<close>

definition entry_ok :: "HeaderName \<times> HeaderValue \<Rightarrow> bool" where
  "entry_ok e \<longleftrightarrow> valid_name (original (fst e)) \<and> valid_value (value_str (snd e)) \<and>
     canonical (fst e) = to_ascii_lowercase (original (fst e))"

definition hc_ok :: "HeaderCollection \<Rightarrow> bool" where
  "hc_ok c \<longleftrightarrow> list_all entry_ok (entries c) \<and> distinct (map header_key (entries c))"

text \<open>Letters and hyphens make a header name.\<close>

lemma letters_valid_name:
  assumes "s \<noteq> []" "list_all (\<lambda>n. (97 \<le> n \<and> n \<le> 122) \<or> (65 \<le> n \<and> n \<le> 90) \<or> n = 45) (lit s)"
  shows "valid_name (lit s)"
proof -
  have "is_token_byte (word_of_nat n)"
    if "(97 \<le> n \<and> n \<le> 122) \<or> (65 \<le> n \<and> n \<le> 90) \<or> n = 45" for n
    using that
    by (auto simp: is_token_byte_def is_ascii_alphanumeric_def word_le_nat_alt unat_of_nat
        take_bit_nat_eq_self blit_def)
  moreover have "list_all (\<lambda>n. n < 0x80) (lit s)" using assms(2) by (fastforce simp: list_all_iff)
  ultimately have "list_all is_token_byte (as_bytes (lit s))"
    using assms(2) by (simp add: as_bytes_ascii list_all_iff)
  with assms(1) show ?thesis by (simp add: valid_name_def lit_def)
qed

lemma HeaderName_new_iff:
  "HeaderName_new s = Inr n \<longleftrightarrow> valid_name s \<and> n = HeaderName s (to_ascii_lowercase s)"
  by (auto simp: HeaderName_new_def valid_name_def)

lemma HeaderName_new_err: "HeaderName_new s = Inl e \<longleftrightarrow> \<not> valid_name s \<and> e = InvalidHeader"
  by (auto simp: HeaderName_new_def valid_name_def)

lemma HeaderValue_new_iff: "HeaderValue_new s = Inr v \<longleftrightarrow> valid_value s \<and> v = HeaderValue s"
  by (auto simp: HeaderValue_new_def valid_value_def list_ex_iff)

lemma HeaderValue_new_err: "HeaderValue_new s = Inl e \<longleftrightarrow> \<not> valid_value s \<and> e = InvalidHeader"
  by (auto simp: HeaderValue_new_def valid_value_def list_ex_iff)

lemmas header_new_iffs =
  HeaderName_new_iff HeaderName_new_err HeaderValue_new_iff HeaderValue_new_err

lemmas header_eval =
  str_eval valid_name_def valid_value_def is_token_byte_def is_ascii_alphanumeric_def
  is_disallowed_value_character_def

lemma entry_of_pair_of: "entry_ok e \<Longrightarrow> entry_of (pair_of e) = e"
  by (cases "fst e"; cases "snd e") (simp add: entry_of_def pair_of_def entry_ok_def prod_eq_iff)

lemma pair_of_entry_of [simp]: "pair_of (entry_of p) = p"
  by (simp add: entry_of_def pair_of_def)

lemma entry_ok_entry_of: "entry_ok (entry_of p) \<longleftrightarrow> valid_name (fst p) \<and> valid_value (snd p)"
  by (simp add: entry_ok_def entry_of_def)

lemma key_entry_of [simp]: "header_key (entry_of p) = to_ascii_lowercase (fst p)"
  by (simp add: entry_of_def)

section \<open>Insertion and revalidation\<close>

lemma insert_typed_iff:
  "HeaderCollection_insert_typed n v c = (Inr (), c') \<longleftrightarrow>
     canonical n \<notin> header_key ` set (entries c) \<and> c' = c\<lparr>entries := entries c @ [(n, v)]\<rparr>"
  by (force simp: HeaderCollection_insert_typed_def list_ex_iff HeaderName_eq_def)

lemma insert_typed_err:
  "HeaderCollection_insert_typed n v c = (Inl e, c') \<longleftrightarrow>
     canonical n \<in> header_key ` set (entries c) \<and> c' = c \<and> e = HeaderConflict"
  by (force simp: HeaderCollection_insert_typed_def list_ex_iff HeaderName_eq_def)

lemma insert_iff:
  "HeaderCollection_insert n v c = (Inr (), c') \<longleftrightarrow>
     valid_name n \<and> valid_value v \<and> to_ascii_lowercase n \<notin> header_key ` set (entries c) \<and>
     c' = c\<lparr>entries := entries c @ [entry_of (n, v)]\<rparr>"
  by (auto simp: HeaderCollection_insert_def bindW_eq_Inr header_new_iffs insert_typed_iff
      entry_of_def)

lemma insert_err:
  "HeaderCollection_insert n v c = (Inl e, c') \<longleftrightarrow>
     c' = c \<and>
     (if valid_name n \<and> valid_value v
      then e = HeaderConflict \<and> to_ascii_lowercase n \<in> header_key ` set (entries c)
      else e = InvalidHeader)"
  by (cases "valid_name n"; cases "valid_value v")
    (auto simp: HeaderCollection_insert_def bindW_eq_Inl header_new_iffs insert_typed_err)

text \<open>The loop of \<^verbatim>\<open>from_pairs\<close> and \<^verbatim>\<open>revalidate\<close>.\<close>

lemma insert_all_iff:
  "for_eachW (\<lambda>(n, v). HeaderCollection_insert n v) ps c = (Inr (), c') \<longleftrightarrow>
     list_all (\<lambda>p. valid_name (fst p) \<and> valid_value (snd p)) ps \<and>
     distinct (map (\<lambda>p. to_ascii_lowercase (fst p)) ps) \<and>
     (\<forall>p \<in> set ps. to_ascii_lowercase (fst p) \<notin> header_key ` set (entries c)) \<and>
     c' = c\<lparr>entries := entries c @ map entry_of ps\<rparr>"
proof (induction ps arbitrary: c)
  case Nil
  then show ?case by auto
next
  case (Cons p ps)
  obtain n v where p: "p = (n, v)" by force
  show ?case
    by (simp add: p bindW_eq_Inr insert_iff Cons.IH) (auto simp: rev_image_eqI)
qed

lemma insert_all_err:
  "for_eachW (\<lambda>(n, v). HeaderCollection_insert n v) ps c = (Inl e, c') \<Longrightarrow>
     e = InvalidHeader \<or> e = HeaderConflict"
proof (induction ps arbitrary: c)
  case (Cons p ps)
  then show ?case
    by (cases p) (auto simp: bindW_eq_Inl insert_err split: if_splits)
qed simp

lemma for_each_pair_of:
  "for_eachW (\<lambda>(n, v). HeaderCollection_insert (HeaderName_as_str n) (HeaderValue_as_str v)) es =
   for_eachW (\<lambda>(n, v). HeaderCollection_insert n v) (map pair_of es)"
  by (induction es) (auto simp: pair_of_def HeaderName_as_str_def HeaderValue_as_str_def)

lemma from_pairs_iff:
  "HeaderCollection_from_pairs ps = Inr c \<longleftrightarrow>
     list_all (\<lambda>p. valid_name (fst p) \<and> valid_value (snd p)) ps \<and>
     distinct (map (\<lambda>p. to_ascii_lowercase (fst p)) ps) \<and>
     c = \<lparr>entries = map entry_of ps\<rparr>"
  by (auto simp: HeaderCollection_from_pairs_def run_local_eq_Inr insert_all_iff
      HeaderCollection_default_def)

lemma from_pairs_err:
  "HeaderCollection_from_pairs ps = Inl e \<Longrightarrow> e = InvalidHeader \<or> e = HeaderConflict"
  by (auto simp: HeaderCollection_from_pairs_def run_local_eq_Inl dest: insert_all_err)

lemma from_pairs_err_iff:
  "HeaderCollection_from_pairs ps = Inl e \<longleftrightarrow>
     (\<exists>xs p ys. ps = xs @ p # ys \<and> is_ok (HeaderCollection_from_pairs xs) \<and>
        (if valid_name (fst p) \<and> valid_value (snd p)
         then e = HeaderConflict \<and> to_ascii_lowercase (fst p) \<in> (to_ascii_lowercase \<circ> fst) ` set xs
         else e = InvalidHeader))"
proof -
  have step: "(\<exists>d c. for_eachW (\<lambda>(n, v). HeaderCollection_insert n v) xs HeaderCollection_default = (Inr (), d) \<and>
       (case p of (n, v) \<Rightarrow> HeaderCollection_insert n v) d = (Inl e, c)) \<longleftrightarrow>
     is_ok (HeaderCollection_from_pairs xs) \<and>
     (if valid_name (fst p) \<and> valid_value (snd p)
         then e = HeaderConflict \<and> to_ascii_lowercase (fst p) \<in> (to_ascii_lowercase \<circ> fst) ` set xs
         else e = InvalidHeader)" for xs p
  proof -
    obtain n v where p: "p = (n, v)" by force
    have "header_key ` set (entries d) = (to_ascii_lowercase \<circ> fst) ` set xs"
      if "HeaderCollection_from_pairs xs = Inr d" for d
      using that by (auto simp: from_pairs_iff image_image)
    then show ?thesis
      by (simp add: p is_ok_iff HeaderCollection_from_pairs_def run_local_eq_Inr insert_err) metis
  qed
  have "HeaderCollection_from_pairs ps = Inl e \<longleftrightarrow>
    (\<exists>xs p ys. ps = xs @ p # ys \<and>
       (\<exists>d c. for_eachW (\<lambda>(n, v). HeaderCollection_insert n v) xs HeaderCollection_default = (Inr (), d) \<and>
       (case p of (n, v) \<Rightarrow> HeaderCollection_insert n v) d = (Inl e, c)))"
    by (simp add: HeaderCollection_from_pairs_def run_local_eq_Inl for_eachW_eq_Inl) blast
  then show ?thesis by (simp only: step)
qed

lemma from_pairs_ok: "HeaderCollection_from_pairs ps = Inr c \<Longrightarrow> hc_ok c"
  by (auto simp: from_pairs_iff hc_ok_def list_all_iff entry_ok_entry_of comp_def)

lemma revalidate_iff:
  "HeaderCollection_revalidate c = Inr u \<longleftrightarrow>
     list_all (\<lambda>e. valid_name (original (fst e)) \<and> valid_value (value_str (snd e))) (entries c) \<and>
     distinct (map (\<lambda>e. to_ascii_lowercase (original (fst e))) (entries c))"
  unfolding HeaderCollection_revalidate_def for_each_pair_of
  by (auto simp: bindR_eq_Inr run_local_eq_Inr insert_all_iff HeaderCollection_default_def
      list_all_iff pair_of_def comp_def)

lemma revalidate_err:
  "HeaderCollection_revalidate c = Inl e \<Longrightarrow> e = InvalidHeader \<or> e = HeaderConflict"
  unfolding HeaderCollection_revalidate_def for_each_pair_of
  by (auto simp: bindR_eq_Inl run_local_eq_Inl dest: insert_all_err)

lemma hc_ok_canonical:
  "list_all entry_ok es \<Longrightarrow>
     map (\<lambda>e. to_ascii_lowercase (original (fst e))) es = map header_key es"
  by (auto simp: list_all_iff entry_ok_def)

lemma revalidate_hc_ok: "hc_ok c \<Longrightarrow> HeaderCollection_revalidate c = Inr ()"
  by (simp add: revalidate_iff hc_ok_def hc_ok_canonical) (auto simp: list_all_iff entry_ok_def)

lemma hc_ok_default [simp]: "hc_ok HeaderCollection_default"
  by (simp add: hc_ok_def HeaderCollection_default_def)

lemma hc_ok_insert: "hc_ok c \<Longrightarrow> HeaderCollection_insert n v c = (Inr (), c') \<Longrightarrow> hc_ok c'"
  by (auto simp: insert_iff hc_ok_def entry_ok_entry_of)

section \<open>Checked appending\<close>

lemma append_checked_iff:
  assumes "hc_ok c" "hc_ok d"
  shows "HeaderCollection_append_checked d c = (Inr (), c') \<longleftrightarrow>
     header_key ` set (entries c) \<inter> header_key ` set (entries d) = {} \<and>
     c' = c\<lparr>entries := entries c @ entries d\<rparr>"
  using assms
  by (force simp: HeaderCollection_append_checked_def revalidate_hc_ok list_ex_iff HeaderName_eq_def)

lemma append_checked_err:
  "HeaderCollection_append_checked d c = (Inl e, c') \<Longrightarrow>
     c' = c \<and> (e = InvalidHeader \<or> e = HeaderConflict)"
  by (auto simp: HeaderCollection_append_checked_def split: sum.splits if_splits
      dest: revalidate_err)

lemma append_checked_conflict:
  assumes "hc_ok c" "hc_ok d"
  shows "HeaderCollection_append_checked d c = (Inl e, c') \<longleftrightarrow>
     header_key ` set (entries c) \<inter> header_key ` set (entries d) \<noteq> {} \<and> e = HeaderConflict \<and> c' = c"
  using assms
  by (force simp: HeaderCollection_append_checked_def revalidate_hc_ok list_ex_iff HeaderName_eq_def)

lemma hc_ok_append:
  assumes "hc_ok c" "hc_ok d" "HeaderCollection_append_checked d c = (Inr (), c')"
  shows "hc_ok c'"
  using assms by (auto simp: append_checked_iff hc_ok_def)

section \<open>Lookup\<close>

lemma get_iff:
  assumes "hc_ok c"
  shows "HeaderCollection_get c m = Some v \<longleftrightarrow>
     (\<exists>n. (n, v) \<in> set (entries c) \<and> canonical n = to_ascii_lowercase m)"
proof -
  have "entries c = es \<Longrightarrow> list_all entry_ok es \<Longrightarrow> distinct (map header_key es) \<Longrightarrow>
     map_option snd (List.find (\<lambda>(n, _). eq_ignore_ascii_case (HeaderName_as_str n) m) es) = Some v
       \<longleftrightarrow> (\<exists>n. (n, v) \<in> set es \<and> canonical n = to_ascii_lowercase m)" for es
  proof (induction es arbitrary: c)
    case (Cons e es)
    obtain n u where e: "e = (n, u)" by force
    have "entries \<lparr>entries = es\<rparr> = es" by simp
    note IH = Cons.IH [OF this]
    have "canonical n = to_ascii_lowercase (original n)"
      using Cons.prems e by (simp add: entry_ok_def)
    then have "eq_ignore_ascii_case (HeaderName_as_str n) m \<longleftrightarrow> canonical n = to_ascii_lowercase m"
      by (simp add: eq_ignore_ascii_case_def HeaderName_as_str_def)
    with Cons.prems IH show ?case by (force simp: e)
  qed simp
  with assms show ?thesis by (simp add: HeaderCollection_get_def hc_ok_def)
qed

lemma get_None_iff:
  assumes "hc_ok c"
  shows "HeaderCollection_get c m = None \<longleftrightarrow> to_ascii_lowercase m \<notin> header_key ` set (entries c)"
proof -
  have "HeaderCollection_get c m \<noteq> None \<longleftrightarrow> (\<exists>v. HeaderCollection_get c m = Some v)" by simp
  also have "\<dots> \<longleftrightarrow> to_ascii_lowercase m \<in> header_key ` set (entries c)"
    using assms by (force simp: get_iff)
  finally show ?thesis by blast
qed

section \<open>The interface of a header store\<close>

text \<open>
  What the request builders rely on: a successful insertion was fresh, is visible under
  every casing and changes nothing else; a failed one changes nothing. The lemmas lift
  this to a loop of insertions.
\<close>

locale header_store =
  fixes empty :: 'c
    and insert :: "str \<Rightarrow> str \<Rightarrow> ('c, unit, Error) effect"
    and get :: "'c \<Rightarrow> str \<Rightarrow> HeaderValue option"
    and invar :: "'c \<Rightarrow> bool"
  assumes invar_empty: "invar empty"
    and get_empty: "get empty m = None"
    and insert_done: "invar c \<Longrightarrow> insert n v c = (Inr (), c') \<Longrightarrow>
       invar c' \<and> get c n = None \<and>
       get c' m = (if eq_ignore_ascii_case n m then Some (HeaderValue v) else get c m)"
    and insert_failed: "insert n v c = (Inl e, c') \<Longrightarrow> c' = c"
    and get_cong: "eq_ignore_ascii_case n m \<Longrightarrow> get c n = get c m"
begin

lemma loop_keeps:
  "invar c \<Longrightarrow> for_eachW (\<lambda>(n, v). insert n v) ps c = (Inr (), c') \<Longrightarrow>
     invar c' \<and> (get c m = Some u \<longrightarrow> get c' m = Some u)"
proof (induction ps arbitrary: c)
  case (Cons p ps)
  obtain n v where p: "p = (n, v)" by force
  with Cons.prems obtain d where
    d: "insert n v c = (Inr (), d)" "for_eachW (\<lambda>(n, v). insert n v) ps d = (Inr (), c')"
    by (auto simp: bindW_eq_Inr)
  have "invar d" and "get c m = Some u \<longrightarrow> get d m = Some u"
    using insert_done [OF Cons.prems(1) d(1), of m] get_cong [of n m c] by auto
  with Cons.IH [OF _ d(2)] show ?case by blast
qed simp

lemma loop_get:
  "invar c \<Longrightarrow> for_eachW (\<lambda>(n, v). insert n v) ps c = (Inr (), c') \<Longrightarrow>
     (n, v) \<in> set ps \<Longrightarrow> eq_ignore_ascii_case n m \<Longrightarrow> get c' m = Some (HeaderValue v)"
proof (induction ps arbitrary: c)
  case (Cons p ps)
  obtain k u where p: "p = (k, u)" by force
  with Cons.prems obtain d where
    d: "insert k u c = (Inr (), d)" "for_eachW (\<lambda>(n, v). insert n v) ps d = (Inr (), c')"
    by (auto simp: bindW_eq_Inr)
  from insert_done [OF Cons.prems(1) d(1)] have inv: "invar d" by blast
  show ?case
  proof (cases "(n, v) = p")
    case True
    then have "get d m = Some (HeaderValue v)"
      using insert_done [OF Cons.prems(1) d(1), of m] p Cons.prems(4) by simp
    with loop_keeps [OF inv d(2)] show ?thesis by blast
  next
    case False
    with Cons.prems(3) have "(n, v) \<in> set ps" by simp
    from Cons.IH [OF inv d(2) this Cons.prems(4)] show ?thesis .
  qed
qed simp

lemma loop_other:
  "invar c \<Longrightarrow> for_eachW (\<lambda>(n, v). insert n v) ps c = (Inr (), c') \<Longrightarrow>
     (\<And>n v. (n, v) \<in> set ps \<Longrightarrow> \<not> eq_ignore_ascii_case n m) \<Longrightarrow> get c' m = get c m"
proof (induction ps arbitrary: c)
  case (Cons p ps)
  obtain k u where p: "p = (k, u)" by force
  with Cons.prems(2) obtain d where
    d: "insert k u c = (Inr (), d)" "for_eachW (\<lambda>(n, v). insert n v) ps d = (Inr (), c')"
    by (auto simp: bindW_eq_Inr)
  have "invar d" and "get d m = get c m"
    using insert_done [OF Cons.prems(1) d(1), of m] Cons.prems(3) [of k u] p by auto
  moreover have "\<And>n v. (n, v) \<in> set ps \<Longrightarrow> \<not> eq_ignore_ascii_case n m"
    using Cons.prems(3) by (meson list.set_intros(2))
  ultimately show ?case using Cons.IH [OF _ d(2)] by simp
qed simp

end

lemma get_after_insert:
  assumes ok: "hc_ok c" and ins: "HeaderCollection_insert n v c = (Inr (), c')"
  shows "HeaderCollection_get c' m =
    (if eq_ignore_ascii_case n m then Some (HeaderValue v) else HeaderCollection_get c m)"
proof -
  have c': "c' = c\<lparr>entries := entries c @ [entry_of (n, v)]\<rparr>"
    and fresh: "HeaderCollection_get c n = None"
    using ins by (simp_all add: insert_iff get_None_iff [OF ok])
  have "HeaderCollection_get c' m = (case HeaderCollection_get c m of
      None \<Rightarrow> (if eq_ignore_ascii_case n m then Some (HeaderValue v) else None) | Some u \<Rightarrow> Some u)"
    by (auto simp: c' HeaderCollection_get_def find_append entry_of_def HeaderName_as_str_def
        split: option.splits)
  moreover have "eq_ignore_ascii_case n m \<Longrightarrow> HeaderCollection_get c m = None"
    using fresh by (simp add: HeaderCollection_get_def eq_ignore_ascii_case_def)
  ultimately show ?thesis by (auto split: option.splits)
qed

interpretation hs: header_store
  HeaderCollection_default HeaderCollection_insert HeaderCollection_get hc_ok
proof unfold_locales
  show "HeaderCollection_get HeaderCollection_default m = None" for m
    by (simp add: HeaderCollection_get_def HeaderCollection_default_def)
  fix c c' n v m e
  show "HeaderCollection_insert n v c = (Inl e, c') \<Longrightarrow> c' = c"
    by (simp add: insert_err)
  show "eq_ignore_ascii_case n m \<Longrightarrow> HeaderCollection_get c n = HeaderCollection_get c m"
    by (simp add: HeaderCollection_get_def eq_ignore_ascii_case_def)
  assume "hc_ok c" "HeaderCollection_insert n v c = (Inr (), c')"
  then show "hc_ok c' \<and> HeaderCollection_get c n = None \<and> HeaderCollection_get c' m =
      (if eq_ignore_ascii_case n m then Some (HeaderValue v) else HeaderCollection_get c m)"
    using hc_ok_insert get_after_insert by (simp add: get_None_iff insert_iff)
qed simp

section \<open>Properties\<close>

text \<open>
  Property C28: a header collection is built from pairs exactly when every name is a
  nonempty token, every value is free of control characters other than tab, and no two
  names agree up to ASCII case; it then holds the given pairs in the given order.
  Otherwise the first offending pair decides the error: \<^verbatim>\<open>InvalidHeader\<close> for a bad name or
  value, \<^verbatim>\<open>HeaderConflict\<close> for a name that an earlier pair already used.
\<close>

theorem from_pairs_exact:
  "(HeaderCollection_from_pairs ps = Inr c \<longleftrightarrow>
     list_all (\<lambda>p. valid_name (fst p) \<and> valid_value (snd p)) ps \<and>
     distinct (map (to_ascii_lowercase \<circ> fst) ps) \<and> c = \<lparr>entries = map entry_of ps\<rparr>) \<and>
   (HeaderCollection_from_pairs ps = Inl e \<longleftrightarrow>
     (\<exists>xs p ys. ps = xs @ p # ys \<and> is_ok (HeaderCollection_from_pairs xs) \<and>
        (if valid_name (fst p) \<and> valid_value (snd p)
         then e = HeaderConflict \<and> to_ascii_lowercase (fst p) \<in> (to_ascii_lowercase \<circ> fst) ` set xs
         else e = InvalidHeader)))"
  by (simp only: from_pairs_iff from_pairs_err_iff comp_def)

text \<open>
  A header of a collection built from pairs is found under every casing of
  its name with exactly its value, and a name the pairs do not hold is not found.
\<close>

lemma from_pairs_lookup:
  assumes "HeaderCollection_from_pairs ps = Inr c"
  shows "HeaderCollection_get c m =
    (case List.find (\<lambda>p. eq_ignore_ascii_case (fst p) m) ps of
       None \<Rightarrow> None | Some p \<Rightarrow> Some (HeaderValue (snd p)))"
proof (cases "List.find (\<lambda>p. eq_ignore_ascii_case (fst p) m) ps")
  case None
  then have "\<And>n v. (n, v) \<in> set ps \<Longrightarrow> \<not> eq_ignore_ascii_case n m" by (force simp: find_None_iff)
  with assms hs.loop_other [OF hs.invar_empty, of ps c m] None hs.get_empty show ?thesis
    by (simp add: HeaderCollection_from_pairs_def run_local_eq_Inr)
next
  case (Some p)
  then have "(fst p, snd p) \<in> set ps" "eq_ignore_ascii_case (fst p) m"
    by (auto simp: find_Some_iff)
  with assms hs.loop_get [OF hs.invar_empty, of ps c "fst p" "snd p" m] Some show ?thesis
    by (simp add: HeaderCollection_from_pairs_def run_local_eq_Inr)
qed

text \<open>
  Appending a validated collection to another is atomic. It succeeds exactly
  when no name of one collides with a name of the other, and then keeps every header of
  both in order; on a collision it reports \<^verbatim>\<open>HeaderConflict\<close> and leaves the target as it was.
\<close>

lemma append_checked_atomic:
  assumes "hc_ok c" "hc_ok d"
  shows "HeaderCollection_append_checked d c =
    (if header_key ` set (entries c) \<inter> header_key ` set (entries d) = {}
     then (Inr (), c\<lparr>entries := entries c @ entries d\<rparr>)
     else (Inl HeaderConflict, c))"
  using append_checked_iff [OF assms] append_checked_conflict [OF assms] by simp

text \<open>
  Comparison, equality and hashing of header names agree. Two constructed
  names compare equal exactly when they are equal, exactly when their texts agree up to
  ASCII case, and equal names feed the hasher the same text.
\<close>

lemma header_name_order_consistent:
  assumes "str_ok s" "str_ok t" "HeaderName_new s = Inr a" "HeaderName_new t = Inr b"
  shows "(HeaderName_cmp a b = Equal \<longleftrightarrow> HeaderName_eq a b) \<and>
    (HeaderName_eq a b \<longleftrightarrow> eq_ignore_ascii_case s t) \<and>
    (HeaderName_eq a b \<longleftrightarrow> HeaderName_hash a = HeaderName_hash b) \<and>
    (HeaderName_cmp a b = Less \<longleftrightarrow> HeaderName_cmp b a = Greater) \<and>
    HeaderName_partial_cmp a b = Some (HeaderName_cmp a b)"
proof -
  have "as_bytes (canonical a) = as_bytes (canonical b) \<longleftrightarrow> canonical a = canonical b"
    using assms by (auto simp: HeaderName_new_iff as_bytes_inject str_ok_lowercase)
  then show ?thesis
    using assms
    by (auto simp: HeaderName_cmp_def str_cmp_def HeaderName_eq_def HeaderName_hash_def
        HeaderName_partial_cmp_def HeaderName_new_iff eq_ignore_ascii_case_def)
qed

end
