(* ===== verification/Timestamp.thy ===== *)
theory Timestamp
  imports Errors "HOL-Library.Signed_Division" "HOL-Library.Product_Lexorder"
begin

text \<open>
  The UTC timestamp of generated request metadata: \<^verbatim>\<open>civil_date_from_days\<close> and
  \<^verbatim>\<open>format_utc_timestamp\<close> of \<^verbatim>\<open>src/message.rs\<close>. Rust's \<^verbatim>\<open>i64\<close> division truncates, so it
  is \<open>sdiv\<close> here. The calendar arithmetic is compared with a calendar that advances one
  day at a time under the Gregorian leap-year rule.
\<close>

section \<open>The code\<close>

record Duration =
  secs :: u64
  nanos :: u32

definition subsec_micros :: "Duration \<Rightarrow> nat" where
  "subsec_micros d = unat (nanos d) div 1000"

definition civil_date_from_days :: "int \<Rightarrow> int \<times> int \<times> int" where
  "civil_date_from_days days_since_epoch =
     (let shifted = days_since_epoch + 719468;
          era = (if shifted \<ge> 0 then shifted else shifted - 146096) sdiv 146097;
          day_of_era = shifted - era * 146097;
          year_of_era =
            (day_of_era - day_of_era sdiv 1460 + day_of_era sdiv 36524 - day_of_era sdiv 146096)
              sdiv 365;
          year = year_of_era + era * 400;
          day_of_year = day_of_era - (365 * year_of_era + year_of_era sdiv 4 - year_of_era sdiv 100);
          month_prime = (5 * day_of_year + 2) sdiv 153;
          day = day_of_year - (153 * month_prime + 2) sdiv 5 + 1;
          month = month_prime + (if month_prime < 10 then 3 else -9);
          year = year + (if month \<le> 2 then 1 else 0)
      in (year, month, day))"

definition i64_try_from :: "nat \<Rightarrow> int option" where
  "i64_try_from n = (if n < 2 ^ 63 then Some (int n) else None)"

definition format_utc_timestamp :: "Duration \<Rightarrow> str Result" where
  "format_utc_timestamp since_epoch =
     (let seconds = unat (secs since_epoch) in
      bindR (ok_or Serialization (i64_try_from (seconds div 86400))) (\<lambda>days.
      (let seconds_of_day = seconds mod 86400;
           hour = seconds_of_day div 3600;
           minute = (seconds_of_day mod 3600) div 60;
           second = seconds_of_day mod 60;
           (year, month, day) = civil_date_from_days days
       in Inr (fmt_int_pad 4 year @ lit ''-'' @ fmt_int_pad 2 month @ lit ''-'' @
            fmt_int_pad 2 day @ lit ''-'' @ fmt_int_pad 2 (int hour) @ lit ''.'' @
            fmt_int_pad 2 (int minute) @ lit ''.'' @ fmt_int_pad 2 (int second) @ lit ''.'' @
            fmt_int_pad 6 (int (subsec_micros since_epoch))))))"

section \<open>The Gregorian calendar\<close>

definition leap :: "int \<Rightarrow> bool" where
  "leap y \<longleftrightarrow> (4 dvd y \<and> \<not> 100 dvd y) \<or> 400 dvd y"

definition days_in_month :: "int \<Rightarrow> int \<Rightarrow> int" where
  "days_in_month y m =
     (if m = 2 then (if leap y then 29 else 28)
      else if m = 4 \<or> m = 6 \<or> m = 9 \<or> m = 11 then 30 else 31)"

fun next_day :: "int \<times> int \<times> int \<Rightarrow> int \<times> int \<times> int" where
  "next_day (y, m, d) =
     (if d < days_in_month y m then (y, m, d + 1)
      else if m < 12 then (y, m + 1, 1)
      else (y + 1, 1, 1))"

fun valid_date :: "int \<times> int \<times> int \<Rightarrow> bool" where
  "valid_date (y, m, d) \<longleftrightarrow> 1 \<le> m \<and> m \<le> 12 \<and> 1 \<le> d \<and> d \<le> days_in_month y m"

lemma valid_next_day: "valid_date t \<Longrightarrow> valid_date (next_day t)"
proof -
  have "1 \<le> days_in_month y m" for y m by (simp add: days_in_month_def)
  then show "valid_date t \<Longrightarrow> valid_date (next_day t)" by (cases t) auto
qed

lemma leap_period: "leap (400 * e + y) = leap y"
proof -
  have "4 dvd 400 * e" "100 dvd 400 * e" "400 dvd 400 * e" for e :: int
    by (simp_all add: dvd_mult2)
  then show ?thesis by (simp add: leap_def dvd_add_right_iff)
qed

section \<open>Days within an era\<close>

text \<open>
  Years start in March here. \<open>year_start y\<close> is the first day of year \<open>y\<close> of a 400-year
  era, \<open>year_num k\<close> the numerator of the closed form for the year of day \<open>k\<close>.
\<close>

definition year_start :: "int \<Rightarrow> int" where
  "year_start y = 365 * y + y div 4 - y div 100 + y div 400"

definition year_num :: "int \<Rightarrow> int" where
  "year_num k = k - k div 1460 + k div 36524 - k div 146096"

definition year_points :: "int \<Rightarrow> bool" where
  "year_points y \<longleftrightarrow>
     0 \<le> year_start y \<and> year_start (y + 1) \<le> 146097 \<and>
     365 * y \<le> year_num (year_start y) \<and> year_num (year_start (y + 1) - 1) < 365 * (y + 1) \<and>
     year_start (y + 1) = year_start y + (if leap (y + 1) then 366 else 365)"

lemma year_points_era: "0 \<le> y \<Longrightarrow> y < 400 \<Longrightarrow> year_points y"
proof -
  have "list_all year_points [0..399]" by code_simp
  then show "0 \<le> y \<Longrightarrow> y < 400 \<Longrightarrow> year_points y" by (simp add: list_all_iff)
qed

lemma div_step:
  assumes "0 < n"
  shows "(k + 1) div n = (k::int) div n + (if n dvd k + 1 then 1 else 0)"
proof -
  have split: "k + 1 = n * (k div n) + (k mod n + 1)" by simp
  have low: "0 \<le> k mod n" and high: "k mod n < n" using assms by simp_all
  show ?thesis
  proof (cases "k mod n + 1 < n")
    case True
    from low have pos: "0 \<le> k mod n + 1" by linarith
    have "(k + 1) div n = k div n" by (rule int_div_pos_eq [OF split pos True])
    moreover have "(k + 1) mod n = k mod n + 1" by (rule int_mod_pos_eq [OF split pos True])
    ultimately show ?thesis using low by (simp add: dvd_eq_mod_eq_0)
  next
    case False
    with high have "k mod n + 1 = n" by linarith
    with split have "k + 1 = n * (k div n) + n" by (simp only:)
    then have eq: "k + 1 = n * (k div n + 1)" by (simp only: distrib_left mult_1_right)
    show ?thesis unfolding eq using assms by simp
  qed
qed

lemma year_num_step: "year_num k \<le> year_num (k + 1)"
proof -
  have "146096 dvd k + 1 \<Longrightarrow> 36524 dvd k + 1"
    by (rule dvd_trans [of _ 146096]) simp_all
  then show ?thesis
    by (auto simp: year_num_def div_step [of 1460] div_step [of 36524] div_step [of 146096])
qed

lemma year_num_mono: "j \<le> k \<Longrightarrow> year_num j \<le> year_num k"
proof (induction k rule: int_ge_induct)
  case (step i)
  then show ?case using year_num_step [of i] by linarith
qed simp

lemma year_start_400: "year_start 400 = 146097"
  by (simp add: year_start_def)

lemma year_of_day:
  assumes "0 \<le> k" "k < 146097"
  obtains y where "0 \<le> y" "y < 400" "year_start y \<le> k" "k < year_start (y + 1)"
proof -
  have "\<exists>y. 0 \<le> y \<and> y < int n \<and> year_start y \<le> k \<and> k < year_start (y + 1)"
    if "k < year_start (int n)" "n \<le> 400" for n
    using that
  proof (induction n)
    case 0
    with assms show ?case by (simp add: year_start_def)
  next
    case (Suc n)
    show ?case
    proof (cases "k < year_start (int n)")
      case True
      with Suc show ?thesis by force
    next
      case False
      with Suc.prems show ?thesis by (intro exI [of _ "int n"]) (auto simp: add.commute)
    qed
  qed
  from this [of 400] assms that show thesis by (auto simp: year_start_400)
qed

lemma year_of_era:
  assumes "0 \<le> y" "y < 400" "year_start y \<le> k" "k < year_start (y + 1)"
  shows "year_num k div 365 = y"
proof -
  have "365 * y \<le> year_num (year_start y)" "year_num (year_start (y + 1) - 1) < 365 * (y + 1)"
    using year_points_era [OF assms(1,2)] unfolding year_points_def by blast+
  moreover have "year_num (year_start y) \<le> year_num k" "year_num k \<le> year_num (year_start (y + 1) - 1)"
    using assms by (auto intro: year_num_mono)
  ultimately show ?thesis by (intro int_div_pos_eq [where r = "year_num k - 365 * y"]) auto
qed

section \<open>Days within a year\<close>

text \<open>Month (counted from March) and day of the month of day \<open>k\<close> of a year.\<close>

definition month_day :: "int \<Rightarrow> int \<times> int" where
  "month_day k =
     (let mp = (5 * k + 2) div 153
      in (mp + (if mp < 10 then 3 else -9), k - (153 * mp + 2) div 5 + 1))"

definition month_points :: "int \<Rightarrow> bool" where
  "month_points k \<longleftrightarrow>
     (let (m, d) = month_day k; (m', d') = month_day (k + 1); last = days_in_month 1 m
      in 1 \<le> m \<and> m \<le> 12 \<and> 1 \<le> d \<and>
         (m = 2 \<longleftrightarrow> 337 \<le> k) \<and> (m \<le> 2 \<longleftrightarrow> 306 \<le> k) \<and>
         (if 337 \<le> k then d = k - 336
          else d \<le> last \<and> (m', d') = (if d < last then (m, d + 1) else (m mod 12 + 1, 1))))"

lemma month_points_year: "0 \<le> k \<Longrightarrow> k < 366 \<Longrightarrow> month_points k"
proof -
  have "list_all month_points [0..365]" by code_simp
  then show "0 \<le> k \<Longrightarrow> k < 366 \<Longrightarrow> month_points k" by (simp add: list_all_iff)
qed

text \<open>The date of day \<open>j\<close> of year \<open>y\<close> of era \<open>e\<close>, and the day after it.\<close>

definition date_of :: "int \<Rightarrow> int \<Rightarrow> int \<Rightarrow> int \<times> int \<times> int" where
  "date_of e y j =
     (let (m, d) = month_day j in (y + e * 400 + (if m \<le> 2 then 1 else 0), m, d))"

definition year_len :: "int \<Rightarrow> int" where
  "year_len y = (if leap (y + 1) then 366 else 365)"

lemma days_in_month_common: "m \<noteq> 2 \<Longrightarrow> days_in_month y m = days_in_month 1 m"
  by (simp add: days_in_month_def)

lemma leap_in_era: "leap (y + e * 400 + 1) = leap (y + 1)"
  using leap_period [of e "y + 1"] by (simp add: algebra_simps)


lemma month_pointsD:
  assumes "month_points j" "month_day j = (m, d)" "month_day (j + 1) = (m', d')"
  shows "1 \<le> m" "m \<le> 12" "m = 2 \<longleftrightarrow> 337 \<le> j" "m \<le> 2 \<longleftrightarrow> 306 \<le> j" "337 \<le> j \<Longrightarrow> d = j - 336"
    and "\<not> 337 \<le> j \<Longrightarrow>
      (m', d') = (if d < days_in_month 1 m then (m, d + 1) else (m mod 12 + 1, 1))"
  using assms(1) unfolding month_points_def assms(2,3) Let_def prod.case by presburger+

lemma date_step_within:
  assumes "0 \<le> j" "j + 1 < year_len y"
  shows "date_of e y (j + 1) = next_day (date_of e y j)"
proof -
  obtain m d where md: "month_day j = (m, d)" by force
  obtain m' d' where md': "month_day (j + 1) = (m', d')" by force
  obtain m'' d'' where md'': "month_day (j + 1 + 1) = (m'', d'')" by force
  have j: "j < 366" "j + 1 < 366" using assms by (auto simp: year_len_def split: if_splits)
  have "0 \<le> j + 1" using assms(1) by simp
  note p = month_pointsD [OF month_points_year [OF assms(1) j(1)] md md']
    and p' = month_pointsD [OF month_points_year [OF this j(2)] md' md'']
  show ?thesis
  proof (cases "337 \<le> j")
    case True
    then have "m = 2" "d = j - 336" "m' = 2" "d' = j - 335" using p p' by simp_all
    moreover have "j - 336 < days_in_month (y + e * 400 + 1) 2"
      using assms by (auto simp: days_in_month_def leap_in_era year_len_def split: if_splits)
    ultimately show ?thesis by (simp add: date_of_def md md')
  next
    case False
    then have m2: "m \<noteq> 2"
      and step: "(m', d') = (if d < days_in_month 1 m then (m, d + 1) else (m mod 12 + 1, 1))"
      using p by simp_all
    have lt: "days_in_month (y + e * 400 + (if m \<le> 2 then 1 else 0)) m = days_in_month 1 m"
      by (rule days_in_month_common [OF m2])
    consider (same) "d < days_in_month 1 m" "m' = m" "d' = d + 1"
      | (year) "\<not> d < days_in_month 1 m" "m = 12" "m' = 1" "d' = 1"
      | (month) "\<not> d < days_in_month 1 m" "m < 12" "m' = m + 1" "d' = 1"
      using step p(1,2) by (cases "m = 12") (auto split: if_splits)
    then show ?thesis
    proof cases
      case same
      then show ?thesis by (simp only: date_of_def md md' prod.case next_day.simps Let_def lt) simp
    next
      case year
      then show ?thesis by (simp add: date_of_def md md' days_in_month_def)
    next
      case month
      then have "(m' \<le> 2) = (m \<le> 2)" using m2 p(1) by linarith
      with month show ?thesis by (simp only: date_of_def md md' prod.case next_day.simps Let_def lt) simp
    qed
  qed
qed
lemma date_step_end:
  assumes "j + 1 = year_len y"
  shows "date_of e (y + 1) 0 = next_day (date_of e y j)"
proof -
  obtain m d where md: "month_day j = (m, d)" by force
  have "month_points j" and j: "337 \<le> j"
    using assms by (auto simp: year_len_def intro!: month_points_year split: if_splits)
  with md have "m = 2" "d = j - 336" by (auto simp: month_points_def Let_def)
  with assms have "\<not> d < days_in_month (y + e * 400 + 1) m" "m = 2"
    by (auto simp: days_in_month_def leap_in_era year_len_def split: if_splits)
  moreover have "month_day 0 = (3, 1)" by (simp add: month_day_def)
  ultimately show ?thesis using md by (simp add: date_of_def)
qed

section \<open>The code against the calendar\<close>

lemma sdiv_nonneg: "0 \<le> a \<Longrightarrow> 0 < b \<Longrightarrow> a sdiv b = (a::int) div b"
  by (cases "a = 0") (auto simp: signed_divide_int_def)

lemma floor_by_sdiv:
  assumes "0 < b" and c: "c = b - 1"
  shows "(if a \<ge> 0 then a else a - c) sdiv b = (a::int) div b"
proof (cases "a \<ge> 0")
  case True
  with assms show ?thesis by (simp add: sdiv_nonneg)
next
  case False
  have "- a + (b - 1) = b * (- (a div b)) + (b - 1 - a mod b)"
    using mult_div_mod_eq [of b a] by (simp add: algebra_simps)
  moreover have "0 \<le> b - 1 - a mod b" "b - 1 - a mod b < b"
    using pos_mod_bound [OF assms(1), of a] pos_mod_sign [OF assms(1), of a] by linarith+
  ultimately have "(- a + (b - 1)) div b = - (a div b)" by (rule int_div_pos_eq)
  moreover have "(a - (b - 1)) sdiv b = - ((- a + (b - 1)) div b)"
    using False assms by (simp add: signed_divide_int_def algebra_simps)
  ultimately show ?thesis using False c by simp
qed

lemma civil_date_in_era:
  assumes n: "n + 719468 = e * 146097 + year_start y + j"
    and y: "0 \<le> y" "y < 400" and j: "0 \<le> j" "j < year_len y"
  shows "civil_date_from_days n = date_of e y j"
proof -
  define k where "k = year_start y + j"
  have points: "0 \<le> year_start y" "year_start (y + 1) \<le> 146097" "365 * y \<le> year_num (year_start y)"
    "year_start (y + 1) = year_start y + year_len y"
    using year_points_era [OF y] unfolding year_points_def year_len_def by blast+
  then have k: "0 \<le> k" "year_start y \<le> k" "k < year_start (y + 1)" "k < 146097"
    using j by (auto simp: k_def)
  have era: "(if n + 719468 \<ge> 0 then n + 719468 else n + 719468 - 146096) sdiv 146097 = e"
  proof -
    have "(n + 719468) div 146097 = e"
      using k n by (intro int_div_pos_eq [where r = k]) (auto simp: k_def)
    moreover have "(if n + 719468 \<ge> 0 then n + 719468 else n + 719468 - 146096) sdiv 146097 =
        (n + 719468) div 146097"
      by (rule floor_by_sdiv) simp_all
    ultimately show ?thesis by (rule trans [rotated])
  qed
  have doe: "n + 719468 - e * 146097 = k" using n by (simp add: k_def)
  have "0 \<le> year_num k" using year_num_mono [OF k(2)] points(3) y(1) by linarith
  then have yoe: "(k - k sdiv 1460 + k sdiv 36524 - k sdiv 146096) sdiv 365 = y"
    using year_of_era [OF y k(2,3)] k(1) by (simp add: sdiv_nonneg year_num_def)
  have doy: "k - (365 * y + y sdiv 4 - y sdiv 100) = j"
    using y by (simp add: k_def year_start_def sdiv_nonneg)
  have mp: "(5 * j + 2) sdiv 153 = (5 * j + 2) div 153"
    using j by (simp add: sdiv_nonneg)
  have "0 \<le> (5 * j + 2) div 153" using j by simp
  then have md: "(153 * ((5 * j + 2) div 153) + 2) sdiv 5 = (153 * ((5 * j + 2) div 153) + 2) div 5"
    by (simp add: sdiv_nonneg)
  show ?thesis
    unfolding civil_date_from_days_def Let_def era doe yoe doy mp md date_of_def month_day_def
    by simp
qed

lemma civil_date_next: "civil_date_from_days (n + 1) = next_day (civil_date_from_days n)"
proof -
  define e where "e = (n + 719468) div 146097"
  define k where "k = (n + 719468) mod 146097"
  have split: "n + 719468 = e * 146097 + k" by (simp add: e_def k_def)
  have "0 \<le> k" "k < 146097" by (simp_all add: k_def)
  then obtain y where y: "0 \<le> y" "y < 400" "year_start y \<le> k" "k < year_start (y + 1)"
    by (rule year_of_day)
  define j where "j = k - year_start y"
  have len: "year_start (y + 1) = year_start y + year_len y"
    using year_points_era [OF y(1,2)] unfolding year_points_def year_len_def by blast
  have j: "0 \<le> j" "j < year_len y" using y len by (auto simp: j_def)
  have n: "n + 719468 = e * 146097 + year_start y + j" using split by (simp add: j_def)
  note now = civil_date_in_era [OF n y(1,2) j]
  show ?thesis
  proof (cases "j + 1 < year_len y")
    case True
    have "n + 1 + 719468 = e * 146097 + year_start y + (j + 1)" using n by simp
    then have "civil_date_from_days (n + 1) = date_of e y (j + 1)"
      using True j y by (intro civil_date_in_era) auto
    then show ?thesis using now date_step_within [OF j(1) True] by simp
  next
    case False
    then have last: "j + 1 = year_len y" using j by simp
    have pos: "0 < year_len z" for z by (simp add: year_len_def)
    have "civil_date_from_days (n + 1) = date_of e (y + 1) 0"
    proof (cases "y + 1 < 400")
      case True
      have "n + 1 + 719468 = e * 146097 + year_start (y + 1) + 0" using n last len by simp
      with True y pos show ?thesis by (intro civil_date_in_era) auto
    next
      case False
      then have "y = 399" using y by simp
      with n last len have "n + 1 + 719468 = (e + 1) * 146097 + year_start 0 + 0"
        by (simp add: year_start_def)
      then have "civil_date_from_days (n + 1) = date_of (e + 1) 0 0"
        using pos by (intro civil_date_in_era) auto
      then show ?thesis using \<open>y = 399\<close> by (simp add: date_of_def month_day_def)
    qed
    then show ?thesis using now date_step_end [OF last] by simp
  qed
qed

lemma civil_date_epoch: "civil_date_from_days 0 = (1970, 1, 1)"
  by (simp add: civil_date_from_days_def)

lemma civil_date_funpow: "civil_date_from_days (int n) = (next_day ^^ n) (1970, 1, 1)"
proof (induction n)
  case 0
  then show ?case by (simp add: civil_date_epoch)
next
  case (Suc n)
  then show ?case using civil_date_next [of "int n"] by (simp add: add.commute)
qed

section \<open>Order of dates\<close>

lemma next_day_less: "t < next_day t"
  by (cases t) (simp add: less_prod_simp)

lemma civil_date_strict: "i < j \<Longrightarrow> civil_date_from_days i < civil_date_from_days j"
proof (induction j rule: int_gr_induct)
  case base
  then show ?case using civil_date_next [of i] next_day_less by simp
next
  case (step j)
  then show ?case
    using civil_date_next [of j] next_day_less [of "civil_date_from_days j"] by (metis less_trans)
qed

lemma civil_date_inject: "civil_date_from_days i = civil_date_from_days j \<longleftrightarrow> i = j"
  by (metis civil_date_strict less_irrefl linorder_neqE)

lemma civil_date_valid: "0 \<le> n \<Longrightarrow> valid_date (civil_date_from_days n)"
proof (induction n rule: int_ge_induct)
  case base
  then show ?case by (simp add: civil_date_epoch days_in_month_def)
next
  case (step n)
  then show ?case by (simp add: civil_date_next valid_next_day)
qed

lemma fst_lex_mono: "t \<le> (u :: int \<times> int \<times> int) \<Longrightarrow> fst t \<le> fst u"
  by (cases t; cases u) (auto simp: less_eq_prod_simp)

lemma civil_year_mono: "i \<le> j \<Longrightarrow> fst (civil_date_from_days i) \<le> fst (civil_date_from_days j)"
  using civil_date_strict [of i j] by (cases "i = j") (auto intro: fst_lex_mono)

section \<open>The printed timestamp\<close>

text \<open>The invariant of \<^verbatim>\<open>std::time::Duration\<close>.\<close>

definition Duration_ok :: "Duration \<Rightarrow> bool" where
  "Duration_ok d \<longleftrightarrow> unat (nanos d) < 1000000000"

definition days_of :: "Duration \<Rightarrow> int" where
  "days_of d = int (unat (secs d) div 86400)"

text \<open>The part after the year: always 22 characters.\<close>

definition stamp_tail :: "int \<Rightarrow> int \<Rightarrow> nat \<Rightarrow> nat \<Rightarrow> str" where
  "stamp_tail month day s us =
     lit ''-'' @ fmt_int_pad 2 month @ lit ''-'' @ fmt_int_pad 2 day @ lit ''-'' @
     fmt_int_pad 2 (int (s div 3600)) @ lit ''.'' @ fmt_int_pad 2 (int (s mod 3600 div 60)) @ lit ''.'' @
     fmt_int_pad 2 (int (s mod 60)) @ lit ''.'' @ fmt_int_pad 6 (int us)"

lemma secs_div_small: "unat (secs d) div 86400 < 2 ^ 63"
proof -
  have "unat (secs d) < 2 ^ LENGTH(64)" by (rule unsigned_less)
  then show ?thesis by simp
qed

lemma format_utc_timestamp_eq:
  assumes "civil_date_from_days (days_of d) = (y, m, dd)"
  shows "format_utc_timestamp d =
    Inr (fmt_int_pad 4 y @ stamp_tail m dd (unat (secs d) mod 86400) (subsec_micros d))"
  using assms secs_div_small [of d]
  by (simp add: format_utc_timestamp_def i64_try_from_def days_of_def stamp_tail_def Let_def)

lemma civil_fields:
  assumes "civil_date_from_days (days_of d) = (y, m, dd)"
  shows "1970 \<le> y" "1 \<le> m" "m \<le> 12" "1 \<le> dd" "dd \<le> 31"
proof -
  have "0 \<le> days_of d" by (simp add: days_of_def)
  with assms civil_date_valid [of "days_of d"] civil_year_mono [of 0 "days_of d"]
  show "1970 \<le> y" "1 \<le> m" "m \<le> 12" "1 \<le> dd" "dd \<le> 31"
    by (auto simp: civil_date_epoch days_in_month_def split: if_splits)
qed

lemma micros_bound: "Duration_ok d \<Longrightarrow> subsec_micros d < 1000000"
  by (simp add: Duration_ok_def subsec_micros_def less_mult_imp_div_less)

lemma fmt_pad_inject:
  assumes "fmt_int_pad w i @ r = fmt_int_pad w j @ s" "0 \<le> i" "0 \<le> j" "i < 10 ^ w" "j < 10 ^ w" "0 < w"
  shows "i = j \<and> r = s"
proof -
  have "length (fmt_int_pad w i) = length (fmt_int_pad w j)"
    using assms by (simp add: length_fmt_int_pad)
  with assms(1) have eq: "fmt_int_pad w i = fmt_int_pad w j" "r = s" by auto
  then have "nat i = nat j" using dec_value_fmt_int_pad assms(2,3) by metis
  with eq assms show ?thesis by simp
qed

lemma length_stamp_tail:
  assumes "1 \<le> m" "m \<le> 12" "1 \<le> dd" "dd \<le> 31" "s < 86400" "us < 1000000"
  shows "length (stamp_tail m dd s us) = 22"
proof -
  have "s div 3600 < 24" "s mod 3600 div 60 < 60" "s mod 60 < 60"
    using assms by (simp_all add: less_mult_imp_div_less)
  with assms show ?thesis by (simp add: stamp_tail_def lit_def length_fmt_int_pad)
qed

lemma pad2_inject:
  assumes "fmt_int_pad 2 i @ c # r = fmt_int_pad 2 j @ c # s" "0 \<le> i" "i < 100" "0 \<le> j" "j < 100"
  shows "i = j" "r = s"
  using fmt_pad_inject [OF assms(1)] assms by simp_all

lemma seconds_of_day_split: "(x::nat) = x div 3600 * 3600 + x mod 3600 div 60 * 60 + x mod 60"
proof -
  have "x mod 3600 mod 60 = x mod 60" by (simp add: mod_mod_cancel)
  then show ?thesis
    using div_mult_mod_eq [of x 3600] div_mult_mod_eq [of "x mod 3600" 60] by linarith
qed

lemma stamp_tail_inject:
  assumes eq: "stamp_tail m dd s us = stamp_tail m' dd' s' us'"
    and l: "1 \<le> m" "m \<le> 12" "1 \<le> dd" "dd \<le> 31" "s < 86400" "us < 1000000"
    and r: "1 \<le> m'" "m' \<le> 12" "1 \<le> dd'" "dd' \<le> 31" "s' < 86400" "us' < 1000000"
  shows "m = m' \<and> dd = dd' \<and> s = s' \<and> us = us'"
proof -
  have b: "int (x div 3600) < 100" "int (x mod 3600 div 60) < 100" "int (x mod 60) < 100"
    if "x < 86400" for x
    using that by (simp_all add: less_mult_imp_div_less)
  have "fmt_int_pad 2 m @ 45 # fmt_int_pad 2 dd @ 45 # fmt_int_pad 2 (int (s div 3600)) @ 46 #
      fmt_int_pad 2 (int (s mod 3600 div 60)) @ 46 # fmt_int_pad 2 (int (s mod 60)) @ 46 #
      fmt_int_pad 6 (int us) @ [] =
    fmt_int_pad 2 m' @ 45 # fmt_int_pad 2 dd' @ 45 # fmt_int_pad 2 (int (s' div 3600)) @ 46 #
      fmt_int_pad 2 (int (s' mod 3600 div 60)) @ 46 # fmt_int_pad 2 (int (s' mod 60)) @ 46 #
      fmt_int_pad 6 (int us') @ []"
    using eq by (simp add: stamp_tail_def lit_def)
  note m = pad2_inject [OF this]
  from m have "m = m'" using l r by linarith
  from m(2) have "fmt_int_pad 2 dd @ 45 # fmt_int_pad 2 (int (s div 3600)) @ 46 #
      fmt_int_pad 2 (int (s mod 3600 div 60)) @ 46 # fmt_int_pad 2 (int (s mod 60)) @ 46 #
      fmt_int_pad 6 (int us) @ [] =
    fmt_int_pad 2 dd' @ 45 # fmt_int_pad 2 (int (s' div 3600)) @ 46 #
      fmt_int_pad 2 (int (s' mod 3600 div 60)) @ 46 # fmt_int_pad 2 (int (s' mod 60)) @ 46 #
      fmt_int_pad 6 (int us') @ []" using l r by linarith
  note dd = pad2_inject [OF this]
  have "dd = dd'" using dd(1) l r by linarith
  have hh: "fmt_int_pad 2 (int (s div 3600)) @ 46 #
      fmt_int_pad 2 (int (s mod 3600 div 60)) @ 46 # fmt_int_pad 2 (int (s mod 60)) @ 46 #
      fmt_int_pad 6 (int us) @ [] =
    fmt_int_pad 2 (int (s' div 3600)) @ 46 #
      fmt_int_pad 2 (int (s' mod 3600 div 60)) @ 46 # fmt_int_pad 2 (int (s' mod 60)) @ 46 #
      fmt_int_pad 6 (int us') @ []" using dd(2) l r by linarith
  note h = pad2_inject [OF hh of_nat_0_le_iff b(1) [OF l(5)] of_nat_0_le_iff b(1) [OF r(5)]]
  note i = pad2_inject [OF h(2) of_nat_0_le_iff b(2) [OF l(5)] of_nat_0_le_iff b(2) [OF r(5)]]
  note k = pad2_inject [OF i(2) of_nat_0_le_iff b(3) [OF l(5)] of_nat_0_le_iff b(3) [OF r(5)]]
  have "us = us'" using fmt_pad_inject [OF k(2)] l(6) r(6) by simp
  moreover have "s = s'"
    using h(1) i(1) k(1) seconds_of_day_split [of s] seconds_of_day_split [of s'] by simp
  ultimately show ?thesis using \<open>m = m'\<close> \<open>dd = dd'\<close> by simp
qed

lemma duration_days_inject:
  assumes "days_of d = days_of d'" "unat (secs d) mod 86400 = unat (secs d') mod 86400"
  shows "secs d = secs d'"
proof -
  have "unat (secs d) div 86400 = unat (secs d') div 86400" using assms(1) by (simp add: days_of_def)
  then have "unat (secs d) = unat (secs d')" using assms(2) by (metis div_mult_mod_eq)
  then show ?thesis by (rule unsigned_word_eqI)
qed

definition stamp_char :: "rchar \<Rightarrow> bool" where
  "stamp_char c \<longleftrightarrow> (48 \<le> c \<and> c \<le> 57) \<or> c = 45 \<or> c = 46"

lemma stamp_chars:
  assumes "0 \<le> y" "0 \<le> m" "0 \<le> dd" "c \<in> set (fmt_int_pad 4 y @ stamp_tail m dd s us)"
  shows "stamp_char c"
proof -
  have "stamp_char c" if "0 \<le> i" "c \<in> set (fmt_int_pad w i)" for i w
    using set_fmt_int_pad [OF that] by (simp add: stamp_char_def)
  moreover from this have "stamp_char c" if "c \<in> set (fmt_int_pad w (int n))" for w n
    using that of_nat_0_le_iff by blast
  moreover have "stamp_char 45" "stamp_char 46" by (simp_all add: stamp_char_def)
  ultimately show ?thesis
    using assms by (auto simp: stamp_tail_def lit_def simp del: of_nat_div of_nat_mod)
qed

lemma format_utc_timestamp_chars:
  "\<exists>s. format_utc_timestamp d = Inr s \<and> s \<noteq> [] \<and> (\<forall>c \<in> set s. stamp_char c)"
proof -
  obtain y m dd where ymd: "civil_date_from_days (days_of d) = (y, m, dd)" by (metis prod_cases3)
  then show ?thesis
    using format_utc_timestamp_eq [OF ymd] stamp_chars [of y m dd] civil_fields [OF ymd]
    by (auto simp: stamp_tail_def lit_def)
qed

text \<open>The last second of the year 9999.\<close>

lemma year_in_four_digits:
  assumes "civil_date_from_days (days_of d) = (y, m, dd)" "unat (secs d) < 253402300800"
  shows "y \<le> 9999"
proof -
  have "unat (secs d) div 86400 < 2932897" using assms(2) by (simp add: less_mult_imp_div_less)
  then have "days_of d \<le> 2932896" by (simp add: days_of_def)
  then have "fst (civil_date_from_days (days_of d)) \<le> fst (civil_date_from_days 2932896)"
    by (rule civil_year_mono)
  moreover have "civil_date_from_days 2932896 = (9999, 12, 31)" by (simp add: civil_date_from_days_def)
  ultimately show ?thesis using assms(1) by simp
qed

section \<open>Properties\<close>


text \<open>
  Property C27: formatting never fails, whatever the clock says; the text holds only
  digits, hyphens and full stops, so that it is always acceptable as a header value; and
  until the end of the year 9999 it is exactly 26 characters long.
\<close>

theorem format_utc_timestamp_total:
  assumes "Duration_ok d"
  shows "\<exists>s. format_utc_timestamp d = Inr s \<and> (\<forall>c \<in> set s. stamp_char c) \<and>
    (unat (secs d) < 253402300800 \<longrightarrow> length s = 26)"
proof -
  obtain y m dd where ymd: "civil_date_from_days (days_of d) = (y, m, dd)" by (metis prod_cases3)
  note f = civil_fields [OF ymd]
  have "length (fmt_int_pad 4 y) = 4" if "unat (secs d) < 253402300800"
    using year_in_four_digits [OF ymd that] f(1) by (intro length_fmt_int_pad) auto
  moreover have "length (stamp_tail m dd (unat (secs d) mod 86400) (subsec_micros d)) = 22"
    using f micros_bound [OF assms] by (intro length_stamp_tail) auto
  ultimately show ?thesis
    using format_utc_timestamp_eq [OF ymd] stamp_chars [of y m dd] f by auto
qed

theorem format_utc_timestamp_total_witness:
  "\<exists>s. format_utc_timestamp \<lparr>secs = 1700000000, nanos = 123456789\<rparr> = Inr s \<and>
    (\<forall>c \<in> set s. stamp_char c) \<and> length s = 26"
  using format_utc_timestamp_total [of "\<lparr>secs = 1700000000, nanos = 123456789\<rparr>"]
  by (simp add: Duration_ok_def)

text \<open>
  Two clock readings with the same printed timestamp agree to the
  microsecond, for every duration the standard library can hold (less than a second of
  nanoseconds).
\<close>

lemma format_utc_timestamp_inject:
  assumes ok: "Duration_ok d" "Duration_ok d'"
    and eq: "format_utc_timestamp d = format_utc_timestamp d'"
  shows "secs d = secs d' \<and> subsec_micros d = subsec_micros d'"
proof -
  obtain y m dd where ymd: "civil_date_from_days (days_of d) = (y, m, dd)" by (metis prod_cases3)
  obtain y' m' dd' where ymd': "civil_date_from_days (days_of d') = (y', m', dd')" by (metis prod_cases3)
  note f = civil_fields [OF ymd] and f' = civil_fields [OF ymd']
  note b = micros_bound [OF ok(1)] and b' = micros_bound [OF ok(2)]
  let ?t = "stamp_tail m dd (unat (secs d) mod 86400) (subsec_micros d)"
  let ?t' = "stamp_tail m' dd' (unat (secs d') mod 86400) (subsec_micros d')"
  have "length ?t = 22" "length ?t' = 22" using f f' b b' by (auto intro!: length_stamp_tail)
  with eq format_utc_timestamp_eq [OF ymd] format_utc_timestamp_eq [OF ymd']
  have s: "fmt_int_pad 4 y = fmt_int_pad 4 y'" and t: "?t = ?t'" by auto
  have "nat y = nat y'" using s dec_value_fmt_int_pad f(1) f'(1) by (metis order_trans zero_le_numeral)
  then have "y = y'" using f(1) f'(1) by simp
  have eqs: "m = m' \<and> dd = dd' \<and> unat (secs d) mod 86400 = unat (secs d') mod 86400 \<and>
    subsec_micros d = subsec_micros d'"
    using f f' b b' by (intro stamp_tail_inject [OF t]) auto
  then have "days_of d = days_of d'" using ymd ymd' \<open>y = y'\<close> civil_date_inject by metis
  then show ?thesis using duration_days_inject eqs by blast
qed

end
