(* ===== verification/Message.thy ===== *)
theory Message
  imports Auth Header Timestamp
begin

text \<open>
  \<^verbatim>\<open>src/message.rs\<close>: envelopes, request metadata and contexts, outbound request parts,
  inbound response parts and parsed responses. The operating system's random generator
  and clock are parameters. The lemmas characterise every constructor and builder on all
  branches, and show that a builder chain is the same as building from the pairs at once.
\<close>

section \<open>The operating system\<close>

text \<open>
  \<^verbatim>\<open>getrandom::fill\<close> on a buffer of the given length, and
  \<^verbatim>\<open>SystemTime::now().duration_since(UNIX_EPOCH)\<close>. Each may fail and advances the world.
\<close>

record 'w os =
  getrandom_fill :: "usize \<Rightarrow> 'w \<Rightarrow> bytes option \<times> 'w"
  since_unix_epoch :: "'w \<Rightarrow> Duration option \<times> 'w"

text \<open>
  What the code relies on: a filled buffer keeps its length, and a \<^verbatim>\<open>Duration\<close> holds less than
  a second of nanoseconds.
\<close>

definition os_laws :: "('w, 'x) os_scheme \<Rightarrow> bool" where
  "os_laws os \<longleftrightarrow>
     (\<forall>n w r w'. getrandom_fill os n w = (Some r, w') \<longrightarrow> length r = n) \<and>
     (\<forall>w d w'. since_unix_epoch os w = (Some d, w') \<longrightarrow> Duration_ok d)"

section \<open>Envelopes and metadata\<close>

record SecureEnvelope =
  cipher :: str
  wrapped_session_key :: str
  signature :: str

definition validate_context_value :: "str \<Rightarrow> str Result" where
  "validate_context_value value =
     (if trim value = [] \<or> contains_any [13, 10] value then Inl InvalidHeader else Inr value)"

record RequestMetadata =
  request_id :: str
  request_time :: str

definition RequestMetadata_new :: "str \<Rightarrow> str \<Rightarrow> RequestMetadata Result" where
  "RequestMetadata_new rid rtime =
     bindR (validate_context_value rid) (\<lambda>rid.
     bindR (validate_context_value rtime) (\<lambda>rtime.
     Inr \<lparr>request_id = rid, request_time = rtime\<rparr>))"

definition RequestMetadata_generate ::
  "('w, 'x) os_scheme \<Rightarrow> ('w, RequestMetadata, Error) effect" where
  "RequestMetadata_generate os =
     bindW (callW Encryption (getrandom_fill os 16)) (\<lambda>random.
     (let rid = concat (map fmt_hex2 random) in
      bindW (callW Serialization (since_unix_epoch os)) (\<lambda>since_epoch.
      bindW (liftW (format_utc_timestamp since_epoch)) (\<lambda>rtime.
      liftW (RequestMetadata_new rid rtime)))))"

section \<open>Request contexts\<close>

record ProtocolRequestContext =
  operation :: str
  metadata :: RequestMetadata

definition ProtocolRequestContext_new :: "str \<Rightarrow> RequestMetadata \<Rightarrow> ProtocolRequestContext Result" where
  "ProtocolRequestContext_new op md =
     bindR (validate_context_value op) (\<lambda>op. Inr \<lparr>operation = op, metadata = md\<rparr>)"

record RequestContext =
  protocol :: ProtocolRequestContext
  additional_headers :: HeaderCollection

definition RequestContext_from_parts ::
  "str \<Rightarrow> RequestMetadata \<Rightarrow> (HeaderName \<times> HeaderValue) list \<Rightarrow> RequestContext Result" where
  "RequestContext_from_parts op md hs =
     bindR (HeaderCollection_from_typed_pairs hs) (\<lambda>hs.
     bindR (HeaderCollection_revalidate hs) (\<lambda>_.
     bindR (ProtocolRequestContext_new op md) (\<lambda>p.
     Inr \<lparr>protocol = p, additional_headers = hs\<rparr>)))"

definition RequestContext_header :: "RequestContext \<Rightarrow> str \<Rightarrow> str option" where
  "RequestContext_header self name =
     map_option HeaderValue_as_str (HeaderCollection_get (additional_headers self) name)"

definition RequestContext_len :: "RequestContext \<Rightarrow> usize" where
  "RequestContext_len self = HeaderCollection_len (additional_headers self)"

definition RequestContext_is_empty :: "RequestContext \<Rightarrow> bool" where
  "RequestContext_is_empty self = HeaderCollection_is_empty (additional_headers self)"

definition RequestContext_into_parts :: "RequestContext \<Rightarrow> ProtocolRequestContext \<times> HeaderCollection" where
  "RequestContext_into_parts self = (protocol self, additional_headers self)"

record RequestContextBuilder =
  builder_operation :: str
  builder_metadata :: "RequestMetadata option"
  builder_headers :: HeaderCollection

definition RequestContextBuilder_new :: "str \<Rightarrow> RequestContextBuilder" where
  "RequestContextBuilder_new op =
     \<lparr>builder_operation = op, builder_metadata = None, builder_headers = HeaderCollection_default\<rparr>"

definition RequestContext_builder :: "str \<Rightarrow> RequestContextBuilder" where
  "RequestContext_builder op = RequestContextBuilder_new op"

definition RequestContextBuilder_metadata ::
  "RequestContextBuilder \<Rightarrow> RequestMetadata \<Rightarrow> RequestContextBuilder" where
  "RequestContextBuilder_metadata self md = self\<lparr>builder_metadata := Some md\<rparr>"

definition RequestContextBuilder_header ::
  "RequestContextBuilder \<Rightarrow> str \<Rightarrow> str \<Rightarrow> RequestContextBuilder Result" where
  "RequestContextBuilder_header self name value =
     bindR (run_local (HeaderCollection_insert name value) (builder_headers self)) (\<lambda>hs.
     Inr (self\<lparr>builder_headers := hs\<rparr>))"

text \<open>The given metadata, or generated metadata: shared by both request builders.\<close>

definition metadata_or_generate ::
  "('w, 'x) os_scheme \<Rightarrow> RequestMetadata option \<Rightarrow> ('w, RequestMetadata, Error) effect" where
  "metadata_or_generate os md =
     (case md of Some md \<Rightarrow> liftW (Inr md) | None \<Rightarrow> RequestMetadata_generate os)"

definition RequestContextBuilder_build ::
  "('w, 'x) os_scheme \<Rightarrow> RequestContextBuilder \<Rightarrow> ('w, RequestContext, Error) effect" where
  "RequestContextBuilder_build os self =
     bindW (metadata_or_generate os (builder_metadata self)) (\<lambda>md.
     liftW (RequestContext_from_parts (builder_operation self) md
       (HeaderCollection_into_pairs (builder_headers self))))"

section \<open>Request and response parts\<close>

record RequestParts =
  headers :: HeaderCollection
  body :: str

definition RequestParts_append_checked ::
  "HeaderCollection \<Rightarrow> (RequestParts, unit, Error) effect" where
  "RequestParts_append_checked hs = (\<lambda>self.
     (case HeaderCollection_append_checked hs (headers self) of
        (r, hs') \<Rightarrow> (r, self\<lparr>headers := hs'\<rparr>)))"

definition RequestParts_validate :: "RequestParts \<Rightarrow> unit Result" where
  "RequestParts_validate self = HeaderCollection_revalidate (headers self)"

definition RequestParts_new :: "(str \<times> str) list \<Rightarrow> str \<Rightarrow> RequestParts Result" where
  "RequestParts_new hs b =
     bindR (HeaderCollection_from_pairs hs) (\<lambda>incoming.
     bindR (run_local (RequestParts_append_checked incoming)
        \<lparr>headers = HeaderCollection_default, body = b\<rparr>) (\<lambda>parts.
     bindR (RequestParts_validate parts) (\<lambda>_.
     Inr parts)))"

definition RequestParts_header :: "RequestParts \<Rightarrow> str \<Rightarrow> str option" where
  "RequestParts_header self name =
     map_option HeaderValue_as_str (HeaderCollection_get (headers self) name)"

definition RequestParts_len :: "RequestParts \<Rightarrow> usize" where
  "RequestParts_len self = HeaderCollection_len (headers self)"

definition RequestParts_is_empty :: "RequestParts \<Rightarrow> bool" where
  "RequestParts_is_empty self = HeaderCollection_is_empty (headers self)"

record ResponseParts =
  response_headers :: "(str \<times> str) list"
  response_body :: str

definition ResponseParts_new :: "(str \<times> str) list \<Rightarrow> str \<Rightarrow> ResponseParts" where
  "ResponseParts_new hs b = \<lparr>response_headers = hs, response_body = b\<rparr>"

definition ResponseParts_into_parts :: "ResponseParts \<Rightarrow> (str \<times> str) list \<times> str" where
  "ResponseParts_into_parts self = (response_headers self, response_body self)"

record ParsedResponse =
  envelope :: SecureEnvelope
  remote_signing_certificate_id :: str
  authentication_context :: AuthenticationContext

definition ParsedResponse_new ::
  "SecureEnvelope \<Rightarrow> str \<Rightarrow> AuthenticationContext \<Rightarrow> ParsedResponse AdapterResult" where
  "ParsedResponse_new env cert ctx =
     (if trim cert = [] \<or> contains_any [13, 10] cert then Inl (AdapterError_new InvalidField)
      else Inr \<lparr>envelope = env, remote_signing_certificate_id = cert, authentication_context = ctx\<rparr>)"

definition ParsedResponse_into_parts ::
  "ParsedResponse \<Rightarrow> SecureEnvelope \<times> str \<times> AuthenticationContext" where
  "ParsedResponse_into_parts self =
     (envelope self, remote_signing_certificate_id self, authentication_context self)"

section \<open>Validity\<close>

definition context_value_ok :: "str \<Rightarrow> bool" where
  "context_value_ok s \<longleftrightarrow> trim s \<noteq> [] \<and> \<not> contains_any [13, 10] s"

definition metadata_ok :: "RequestMetadata \<Rightarrow> bool" where
  "metadata_ok m \<longleftrightarrow> context_value_ok (request_id m) \<and> context_value_ok (request_time m)"

definition protocol_ok :: "ProtocolRequestContext \<Rightarrow> bool" where
  "protocol_ok p \<longleftrightarrow> context_value_ok (operation p) \<and> metadata_ok (metadata p)"

definition context_ok :: "RequestContext \<Rightarrow> bool" where
  "context_ok c \<longleftrightarrow> protocol_ok (protocol c) \<and> hc_ok (additional_headers c)"

lemma validate_context_value_iff [simp]:
  "validate_context_value v = Inr u \<longleftrightarrow> context_value_ok v \<and> u = v"
  "validate_context_value v = Inl e \<longleftrightarrow> \<not> context_value_ok v \<and> e = InvalidHeader"
  by (auto simp: validate_context_value_def context_value_ok_def)

lemma RequestMetadata_new_eq:
  "RequestMetadata_new i t = (if context_value_ok i \<and> context_value_ok t
     then Inr \<lparr>request_id = i, request_time = t\<rparr> else Inl InvalidHeader)"
  by (auto simp: RequestMetadata_new_def validate_context_value_def context_value_ok_def)

lemma ProtocolRequestContext_new_eq:
  "ProtocolRequestContext_new op md = (if context_value_ok op
     then Inr \<lparr>operation = op, metadata = md\<rparr> else Inl InvalidHeader)"
  by (auto simp: ProtocolRequestContext_new_def validate_context_value_def context_value_ok_def)

lemma insert_typed_all_iff:
  "for_eachW (\<lambda>(n, v). HeaderCollection_insert_typed n v) es c = (Inr (), c') \<longleftrightarrow>
     distinct (map header_key es) \<and> header_key ` set es \<inter> header_key ` set (entries c) = {} \<and>
     c' = c\<lparr>entries := entries c @ es\<rparr>"
proof (induction es arbitrary: c)
  case Nil
  then show ?case by auto
next
  case (Cons e es)
  obtain n v where "e = (n, v)" by force
  then show ?case by (auto simp: bindW_eq_Inr insert_typed_iff Cons.IH)
qed

lemma insert_typed_all_err:
  "for_eachW (\<lambda>(n, v). HeaderCollection_insert_typed n v) es c = (Inl e, c') \<Longrightarrow> e = HeaderConflict"
  by (auto simp: for_eachW_eq_Inl insert_typed_err)

lemma from_typed_pairs_iff:
  "HeaderCollection_from_typed_pairs es = Inr c \<longleftrightarrow>
     distinct (map header_key es) \<and> c = \<lparr>entries = es\<rparr> \<and> HeaderCollection_revalidate c = Inr ()"
  by (auto simp: HeaderCollection_from_typed_pairs_def bindR_eq_Inr run_local_eq_Inr
      insert_typed_all_iff HeaderCollection_default_def)

lemma from_typed_pairs_ok: "hc_ok c \<Longrightarrow> HeaderCollection_from_typed_pairs (entries c) = Inr c"
  by (auto simp: from_typed_pairs_iff revalidate_hc_ok) (simp add: hc_ok_def)

lemma from_typed_pairs_err:
  "HeaderCollection_from_typed_pairs es = Inl e \<Longrightarrow> e = InvalidHeader \<or> e = HeaderConflict"
  by (auto simp: HeaderCollection_from_typed_pairs_def bindR_eq_Inl run_local_eq_Inl
      dest: insert_typed_all_err revalidate_err)

lemma RequestContext_from_parts_eq:
  assumes "hc_ok c"
  shows "RequestContext_from_parts op md (entries c) =
    (if context_value_ok op
     then Inr \<lparr>protocol = \<lparr>operation = op, metadata = md\<rparr>, additional_headers = c\<rparr>
     else Inl InvalidHeader)"
  using assms
  by (simp add: RequestContext_from_parts_def from_typed_pairs_ok revalidate_hc_ok
      ProtocolRequestContext_new_eq)

section \<open>Generated metadata\<close>

lemma fmt_hex2_length [simp]: "length (fmt_hex2 b) = 2"
  by (simp add: fmt_hex2_def)

lemma hex_id_inject: "concat (map fmt_hex2 r) = concat (map fmt_hex2 s) \<longleftrightarrow> r = s"
proof (induction r arbitrary: s)
  case Nil
  then show ?case by (cases s) (auto simp: fmt_hex2_def)
next
  case (Cons b r)
  then show ?case by (cases s) (auto simp: fmt_hex2_def fmt_hex2_inject [unfolded fmt_hex2_def, symmetric])
qed

lemma visible_value_ok:
  assumes "s \<noteq> []" "\<forall>c \<in> set s. 33 \<le> c \<and> c < 127"
  shows "context_value_ok s"
proof -
  have "list_all (\<lambda>c. \<not> is_whitespace c) s"
    using assms(2) by (fastforce simp: list_all_iff is_whitespace_def)
  then have "trim s = s" by (rule trim_no_whitespace)
  with assms show ?thesis by (force simp: context_value_ok_def contains_any_iff)
qed

lemma hex_id_ok: "r \<noteq> [] \<Longrightarrow> context_value_ok (concat (map fmt_hex2 r))"
  by (rule visible_value_ok) (force simp: fmt_hex2_def, force dest!: set_fmt_hex2)

lemma timestamp_ok: "format_utc_timestamp d = Inr s \<Longrightarrow> context_value_ok s"
  using format_utc_timestamp_chars [of d] by (auto simp: stamp_char_def intro!: visible_value_ok)

section \<open>Builders\<close>

text \<open>Adding headers one at a time; a failed addition ends the chain.\<close>

fun add_headers :: "('b \<Rightarrow> str \<Rightarrow> str \<Rightarrow> 'b Result) \<Rightarrow> (str \<times> str) list \<Rightarrow> 'b \<Rightarrow> 'b Result" where
  "add_headers add [] b = Inr b"
| "add_headers add (p # ps) b = bindR (add b (fst p) (snd p)) (add_headers add ps)"

lemma builder_header_chain:
  "add_headers RequestContextBuilder_header ps b =
     bindR (run_local (for_eachW (\<lambda>(n, v). HeaderCollection_insert n v) ps) (builder_headers b))
       (\<lambda>hs. Inr (b\<lparr>builder_headers := hs\<rparr>))"
proof (induction ps arbitrary: b)
  case Nil
  then show ?case by (simp add: run_local_def)
next
  case (Cons p ps)
  obtain n v where p: "p = (n, v)" by force
  obtain r c where i: "HeaderCollection_insert n v (builder_headers b) = (r, c)" by force
  have "RequestContextBuilder_header b n v =
      (case r of Inl e \<Rightarrow> Inl e | Inr _ \<Rightarrow> Inr (b\<lparr>builder_headers := c\<rparr>))"
    by (cases r) (simp_all add: RequestContextBuilder_header_def run_local_def i)
  then show ?case
    by (cases r) (simp_all add: p Cons.IH run_local_def i bindW_step)
qed

lemma chain_from_pairs:
  "add_headers RequestContextBuilder_header ps (RequestContext_builder op) =
     bindR (HeaderCollection_from_pairs ps) (\<lambda>hs.
       Inr \<lparr>builder_operation = op, builder_metadata = None, builder_headers = hs\<rparr>)"
  by (simp add: builder_header_chain RequestContext_builder_def RequestContextBuilder_new_def
      HeaderCollection_from_pairs_def)

lemma valid_name_char:
  assumes "valid_name s" "c \<in> set s" "c < 128"
  shows "is_token_byte (word_of_nat c)"
proof -
  have "word_of_nat c \<in> set (as_bytes s)"
    using assms(2,3) by (force simp: as_bytes_def utf8_nats.simps)
  with assms(1) show ?thesis by (auto simp: valid_name_def list_all_iff)
qed

text \<open>No carriage return, line feed or NUL, in a name or in a value.\<close>

definition single_line :: "str \<Rightarrow> bool" where
  "single_line s \<longleftrightarrow> 13 \<notin> set s \<and> 10 \<notin> set s \<and> 0 \<notin> set s"

lemma valid_name_single_line: "valid_name s \<Longrightarrow> single_line s"
  using valid_name_char [of s 13] valid_name_char [of s 10] valid_name_char [of s 0]
  by (auto simp: single_line_def is_token_byte_def is_ascii_alphanumeric_def blit_def)

lemma valid_value_single_line: "valid_value s \<Longrightarrow> single_line s"
  by (auto simp: single_line_def valid_value_def is_disallowed_value_character_def)

lemma RequestParts_new_eq:
  "RequestParts_new hs b = bindR (HeaderCollection_from_pairs hs) (\<lambda>c. Inr \<lparr>headers = c, body = b\<rparr>)"
proof (cases "HeaderCollection_from_pairs hs")
  case (Inr c)
  then have ok: "hc_ok c" by (rule from_pairs_ok)
  have "HeaderCollection_append_checked c HeaderCollection_default = (Inr (), c)"
    by (subst append_checked_iff) (simp_all add: ok, simp add: HeaderCollection_default_def)
  then show ?thesis
    by (simp add: Inr RequestParts_new_def RequestParts_append_checked_def RequestParts_validate_def
        run_local_def revalidate_hc_ok [OF ok])
qed (simp add: RequestParts_new_def)

section \<open>Properties\<close>

text \<open>
  Property C29: generating metadata fails only when the random generator or the clock
  fails, with the documented category, and otherwise yields the 32 hexadecimal digits of
  the 16 random bytes and the formatted time. It never trips its own validation.
\<close>

theorem generate_metadata_exact:
  assumes "os_laws os"
  shows "(\<exists>w1. getrandom_fill os 16 w = (None, w1) \<and>
      RequestMetadata_generate os w = (Inl Encryption, w1)) \<or>
    (\<exists>r w1 w2. getrandom_fill os 16 w = (Some r, w1) \<and> since_unix_epoch os w1 = (None, w2) \<and>
      RequestMetadata_generate os w = (Inl Serialization, w2)) \<or>
    (\<exists>r w1 d w2 t. getrandom_fill os 16 w = (Some r, w1) \<and> since_unix_epoch os w1 = (Some d, w2) \<and>
      format_utc_timestamp d = Inr t \<and> length (concat (map fmt_hex2 r)) = 32 \<and>
      RequestMetadata_generate os w =
        (Inr \<lparr>request_id = concat (map fmt_hex2 r), request_time = t\<rparr>, w2))"
proof -
  obtain x w1 where x: "getrandom_fill os 16 w = (x, w1)" by force
  show ?thesis
  proof (cases x)
    case None
    then show ?thesis using x by (simp add: RequestMetadata_generate_def callW_def bindW_def)
  next
    case (Some r)
    then have len: "length r = 16" using assms x by (auto simp: os_laws_def)
    then have "r \<noteq> []" by auto
    then have id: "context_value_ok (concat (map fmt_hex2 r))" by (rule hex_id_ok)
    have hex: "length (concat (map fmt_hex2 r)) = 32"
      using len by (simp add: length_concat comp_def sum_list_triv)
    obtain y w2 where y: "since_unix_epoch os w1 = (y, w2)" by force
    show ?thesis
    proof (cases y)
      case None
      then show ?thesis using x y Some
        by (simp add: RequestMetadata_generate_def callW_def bindW_def Let_def)
    next
      case (Some d)
      obtain t where t: "format_utc_timestamp d = Inr t"
        using format_utc_timestamp_chars [of d] by blast
      show ?thesis
        using x y \<open>x = Some r\<close> Some t id timestamp_ok [OF t] hex
        by (simp add: RequestMetadata_generate_def callW_def bindW_def Let_def RequestMetadata_new_eq)
    qed
  qed
qed

text \<open>A random generator that counts and a clock that stands still.\<close>

definition counting_os :: "nat os" where
  "counting_os = \<lparr>getrandom_fill = (\<lambda>n w. (Some (replicate n (word_of_nat w)), w + 1)),
     since_unix_epoch = (\<lambda>w. (Some \<lparr>secs = 1700000000, nanos = 5000\<rparr>, w))\<rparr>"

lemma counting_os_laws: "os_laws counting_os"
  by (auto simp: os_laws_def counting_os_def Duration_ok_def)

theorem generate_metadata_exact_witness:
  "\<exists>t. RequestMetadata_generate counting_os 10 =
     (Inr \<lparr>request_id = lit ''0a0a0a0a0a0a0a0a0a0a0a0a0a0a0a0a'', request_time = t\<rparr>, 11)"
proof -
  have "concat (map fmt_hex2 (replicate 16 (word_of_nat 10))) = lit ''0a0a0a0a0a0a0a0a0a0a0a0a0a0a0a0a''"
    by code_simp
  then show ?thesis
    using generate_metadata_exact [OF counting_os_laws, of 10]
    by (auto simp: counting_os_def)
qed

text \<open>
  Generated request identifiers coincide only when the random generator
  returned the same 16 bytes, so they are as unique as its output.
\<close>

lemma generated_ids_distinct:
  assumes "RequestMetadata_generate os w = (Inr a, u)" "RequestMetadata_generate os w' = (Inr b, u')"
    and "request_id a = request_id b"
  shows "fst (getrandom_fill os 16 w) = fst (getrandom_fill os 16 w')"
proof -
  have "\<exists>r. fst (getrandom_fill os 16 v) = Some r \<and> request_id m = concat (map fmt_hex2 r)"
    if "RequestMetadata_generate os v = (Inr m, x)" for v m x
    using that
    by (auto simp: RequestMetadata_generate_def bindW_eq_Inr callW_eq_Inr Let_def
        RequestMetadata_new_eq split: if_splits)
  from this [OF assms(1)] this [OF assms(2)] show ?thesis
    using assms(3) by (auto simp: hex_id_inject)
qed

text \<open>
  Adding headers to a request-context builder one after the other, setting
  metadata and building is the same as validating all pairs at once: the first bad or
  colliding header decides the error, then the operation is checked, and the context
  holds exactly the operation, the metadata and the headers that were given.
\<close>

lemma context_builder_exact:
  "(case add_headers RequestContextBuilder_header ps (RequestContext_builder op) of
      Inl e \<Rightarrow> (Inl e, w)
    | Inr b \<Rightarrow> RequestContextBuilder_build os (RequestContextBuilder_metadata b md) w) =
   (case HeaderCollection_from_pairs ps of
      Inl e \<Rightarrow> (Inl e, w)
    | Inr c \<Rightarrow>
      (if context_value_ok op
       then Inr \<lparr>protocol = \<lparr>operation = op, metadata = md\<rparr>, additional_headers = c\<rparr>
       else Inl InvalidHeader, w))"
  by (auto simp: chain_from_pairs RequestContextBuilder_build_def RequestContextBuilder_metadata_def
      metadata_or_generate_def HeaderCollection_into_pairs_def RequestContext_from_parts_eq
      split: sum.splits dest: from_pairs_ok)

text \<open>
  Request parts carry exactly the headers and the body they were made from,
  in order, and no header name or value they carry can contain a carriage return, a line
  feed or a NUL, so a header cannot be split into two on the wire.
\<close>

lemma request_parts_no_injection:
  assumes "RequestParts_new hs b = Inr p"
  shows "map pair_of (entries (headers p)) = hs \<and> body p = b \<and> RequestParts_len p = length hs \<and>
    list_all (\<lambda>(n, v). n \<noteq> [] \<and> single_line n \<and> single_line v) hs \<and>
    distinct (map (to_ascii_lowercase \<circ> fst) hs)"
  using assms
  by (auto simp: RequestParts_new_eq bindR_eq_Inr from_pairs_iff comp_def list_all_iff
      RequestParts_len_def HeaderCollection_len_def valid_name_single_line valid_value_single_line)
    (auto simp: valid_name_def)

end
