(* ===== verification/Config.thy ===== *)
theory Config
  imports Message
begin

text \<open>
  \<^verbatim>\<open>src/client_config.rs\<close>: identities, envelope modes, the immutable client configuration and
  its consuming builder. The compile-time feature \<^verbatim>\<open>aead\<close> is a Boolean argument of the one
  operation whose code depends on it; a build without the feature has no envelope-mode
  field, and its configurations carry \<open>LegacyCbc\<close> here. The lemmas give \<^verbatim>\<open>build\<close> as a table of
  checks in order, its invariant, and the setters' fluent chain as its inverse.
\<close>

section \<open>Constants and types\<close>

definition DEFAULT_MAX_PLAINTEXT_BYTES :: usize where
  "DEFAULT_MAX_PLAINTEXT_BYTES = 16 * 1024 * 1024"

definition SM4_CCM_MAX_PLAINTEXT_BYTES :: usize where
  "SM4_CCM_MAX_PLAINTEXT_BYTES = 2 ^ 24 - 1"

definition SM4_CCM_DEFAULT_MAX_PLAINTEXT_BYTES :: usize where
  "SM4_CCM_DEFAULT_MAX_PLAINTEXT_BYTES = 64 * 1024"

definition MAX_SIGNER_ID_BYTES :: usize where
  "MAX_SIGNER_ID_BYTES = 65535 div 8"

record ClientIdentity =
  local_identity_id :: str
  api_version :: str
  local_certificate_id :: str
  expected_remote_signing_certificate_id :: str
  remote_encryption_certificate_id :: str

datatype AeadAlgorithm = Sm4Gcm | Sm4Ccm

datatype EnvelopeMode = LegacyCbc | Aead AeadAlgorithm

record ClientConfig =
  identity :: ClientIdentity
  local_signer_id :: bytes
  expected_remote_signer_id :: bytes
  authentication_mode :: AuthenticationMode
  iv :: bytes
  envelope_mode :: EnvelopeMode
  max_plaintext_bytes :: usize

text \<open>The builder's fields have the source's names after the prefix \<open>b_\<close>.\<close>

record ClientConfigBuilder =
  b_local_identity_id :: "str option"
  b_api_version :: "str option"
  b_local_certificate_id :: "str option"
  b_expected_remote_signing_certificate_id :: "str option"
  b_remote_encryption_certificate_id :: "str option"
  b_local_signer_id :: "bytes option"
  b_expected_remote_signer_id :: "bytes option"
  b_authentication_mode :: "AuthenticationMode option"
  b_iv :: "bytes option"
  b_envelope_mode :: "EnvelopeMode option"
  b_max_plaintext_bytes :: "usize option"

section \<open>Validation\<close>

definition validate_header_value :: "str \<Rightarrow> string \<Rightarrow> str Result" where
  "validate_header_value value field =
     (if trim value = [] \<or> contains_any [13, 10] value then Inl (Configuration field) else Inr value)"

definition required_header_value :: "str option \<Rightarrow> string \<Rightarrow> str Result" where
  "required_header_value value field =
     bindR (ok_or (Configuration field) value) (\<lambda>value. validate_header_value value field)"

definition required_signer_id :: "bytes option \<Rightarrow> string \<Rightarrow> bytes Result" where
  "required_signer_id value field =
     bindR (ok_or (Configuration field) value) (\<lambda>value.
     if value = [] \<or> length value > MAX_SIGNER_ID_BYTES then Inl (Configuration field)
     else Inr value)"

definition ClientIdentity_new :: "str \<Rightarrow> str \<Rightarrow> str \<Rightarrow> str \<Rightarrow> str \<Rightarrow> ClientIdentity Result" where
  "ClientIdentity_new a b c d e =
     bindR (validate_header_value a ''local_identity_id'') (\<lambda>a.
     bindR (validate_header_value b ''api_version'') (\<lambda>b.
     bindR (validate_header_value c ''local_certificate_id'') (\<lambda>c.
     bindR (validate_header_value d ''expected_remote_signing_certificate_id'') (\<lambda>d.
     bindR (validate_header_value e ''remote_encryption_certificate_id'') (\<lambda>e.
     Inr \<lparr>local_identity_id = a, api_version = b, local_certificate_id = c,
       expected_remote_signing_certificate_id = d, remote_encryption_certificate_id = e\<rparr>)))))"

section \<open>The builder\<close>

definition ClientConfig_builder :: ClientConfigBuilder where
  "ClientConfig_builder =
     \<lparr>b_local_identity_id = None, b_api_version = None, b_local_certificate_id = None,
      b_expected_remote_signing_certificate_id = None, b_remote_encryption_certificate_id = None,
      b_local_signer_id = None, b_expected_remote_signer_id = None, b_authentication_mode = None,
      b_iv = None, b_envelope_mode = None, b_max_plaintext_bytes = None\<rparr>"

definition ClientConfigBuilder_local_identity_id :: "str \<Rightarrow> ClientConfigBuilder \<Rightarrow> ClientConfigBuilder" where
  "ClientConfigBuilder_local_identity_id value self = self\<lparr>b_local_identity_id := Some value\<rparr>"

definition ClientConfigBuilder_api_version :: "str \<Rightarrow> ClientConfigBuilder \<Rightarrow> ClientConfigBuilder" where
  "ClientConfigBuilder_api_version value self = self\<lparr>b_api_version := Some value\<rparr>"

definition ClientConfigBuilder_local_certificate_id :: "str \<Rightarrow> ClientConfigBuilder \<Rightarrow> ClientConfigBuilder" where
  "ClientConfigBuilder_local_certificate_id value self = self\<lparr>b_local_certificate_id := Some value\<rparr>"

definition ClientConfigBuilder_expected_remote_signing_certificate_id ::
  "str \<Rightarrow> ClientConfigBuilder \<Rightarrow> ClientConfigBuilder" where
  "ClientConfigBuilder_expected_remote_signing_certificate_id value self =
     self\<lparr>b_expected_remote_signing_certificate_id := Some value\<rparr>"

definition ClientConfigBuilder_remote_encryption_certificate_id ::
  "str \<Rightarrow> ClientConfigBuilder \<Rightarrow> ClientConfigBuilder" where
  "ClientConfigBuilder_remote_encryption_certificate_id value self =
     self\<lparr>b_remote_encryption_certificate_id := Some value\<rparr>"

definition ClientConfigBuilder_local_signer_id :: "bytes \<Rightarrow> ClientConfigBuilder \<Rightarrow> ClientConfigBuilder" where
  "ClientConfigBuilder_local_signer_id value self = self\<lparr>b_local_signer_id := Some value\<rparr>"

definition ClientConfigBuilder_expected_remote_signer_id ::
  "bytes \<Rightarrow> ClientConfigBuilder \<Rightarrow> ClientConfigBuilder" where
  "ClientConfigBuilder_expected_remote_signer_id value self =
     self\<lparr>b_expected_remote_signer_id := Some value\<rparr>"

definition ClientConfigBuilder_authentication_mode ::
  "AuthenticationMode \<Rightarrow> ClientConfigBuilder \<Rightarrow> ClientConfigBuilder" where
  "ClientConfigBuilder_authentication_mode value self = self\<lparr>b_authentication_mode := Some value\<rparr>"

definition ClientConfigBuilder_iv :: "bytes \<Rightarrow> ClientConfigBuilder \<Rightarrow> ClientConfigBuilder" where
  "ClientConfigBuilder_iv value self = self\<lparr>b_iv := Some value\<rparr>"

definition ClientConfigBuilder_envelope_mode ::
  "EnvelopeMode \<Rightarrow> ClientConfigBuilder \<Rightarrow> ClientConfigBuilder" where
  "ClientConfigBuilder_envelope_mode value self = self\<lparr>b_envelope_mode := Some value\<rparr>"

definition ClientConfigBuilder_max_plaintext_bytes ::
  "usize \<Rightarrow> ClientConfigBuilder \<Rightarrow> ClientConfigBuilder" where
  "ClientConfigBuilder_max_plaintext_bytes value self = self\<lparr>b_max_plaintext_bytes := Some value\<rparr>"

definition ClientConfigBuilder_build :: "bool \<Rightarrow> ClientConfigBuilder \<Rightarrow> ClientConfig Result" where
  "ClientConfigBuilder_build aead self =
     bindR (required_header_value (b_local_identity_id self) ''local_identity_id'') (\<lambda>lid.
     bindR (required_header_value (b_api_version self) ''api_version'') (\<lambda>ver.
     bindR (required_header_value (b_local_certificate_id self) ''local_certificate_id'') (\<lambda>lcert.
     bindR (required_header_value (b_expected_remote_signing_certificate_id self)
       ''expected_remote_signing_certificate_id'') (\<lambda>rcert.
     bindR (required_header_value (b_remote_encryption_certificate_id self)
       ''remote_encryption_certificate_id'') (\<lambda>ecert.
     bindR (required_signer_id (b_local_signer_id self) ''local_signer_id'') (\<lambda>lsid.
     bindR (required_signer_id (b_expected_remote_signer_id self) ''expected_remote_signer_id'') (\<lambda>rsid.
     bindR (if aead then ok_or (Configuration ''envelope_mode'') (b_envelope_mode self)
            else Inr LegacyCbc) (\<lambda>mode.
     bindR (case mode of
              LegacyCbc \<Rightarrow> ok_or (Configuration ''iv'') (b_iv self)
            | Aead _ \<Rightarrow> (if b_iv self \<noteq> None then Inl (Configuration ''iv'')
                          else Inr (replicate 16 0))) (\<lambda>ivec.
     bindR (ok_or (Configuration ''authentication_mode'') (b_authentication_mode self)) (\<lambda>auth.
     bindR (AuthenticationMode_validate auth) (\<lambda>_.
     (let mx = (case b_max_plaintext_bytes self of
                  Some mx \<Rightarrow> mx
                | None \<Rightarrow> (if mode = Aead Sm4Ccm then SM4_CCM_DEFAULT_MAX_PLAINTEXT_BYTES
                            else DEFAULT_MAX_PLAINTEXT_BYTES))
      in if mx = 0 \<or> (mode = Aead Sm4Ccm \<and> mx > SM4_CCM_MAX_PLAINTEXT_BYTES)
         then Inl (Configuration ''max_plaintext_bytes'')
         else Inr \<lparr>identity = \<lparr>local_identity_id = lid, api_version = ver,
                       local_certificate_id = lcert, expected_remote_signing_certificate_id = rcert,
                       remote_encryption_certificate_id = ecert\<rparr>,
                    local_signer_id = lsid, expected_remote_signer_id = rsid,
                    authentication_mode = auth, iv = ivec, envelope_mode = mode,
                    max_plaintext_bytes = mx\<rparr>))))))))))))"

section \<open>The table of checks\<close>

definition signer_id_ok :: "bytes \<Rightarrow> bool" where
  "signer_id_ok v \<longleftrightarrow> v \<noteq> [] \<and> length v \<le> 8191"

definition opt_ok :: "('a \<Rightarrow> bool) \<Rightarrow> 'a option \<Rightarrow> bool" where
  "opt_ok P x = (case x of None \<Rightarrow> False | Some a \<Rightarrow> P a)"

text \<open>The mode and the plaintext limit a builder asks for.\<close>

definition asked_mode :: "bool \<Rightarrow> ClientConfigBuilder \<Rightarrow> EnvelopeMode option" where
  "asked_mode aead b = (if aead then b_envelope_mode b else Some LegacyCbc)"

definition asked_limit :: "EnvelopeMode \<Rightarrow> ClientConfigBuilder \<Rightarrow> usize" where
  "asked_limit mode b = (case b_max_plaintext_bytes b of Some n \<Rightarrow> n
     | None \<Rightarrow> if mode = Aead Sm4Ccm then 65536 else 16777216)"

text \<open>Every check with the field it reports, in the order they are made.\<close>

definition config_checks :: "bool \<Rightarrow> ClientConfigBuilder \<Rightarrow> (string \<times> bool) list" where
  "config_checks aead b =
    [(''local_identity_id'', opt_ok context_value_ok (b_local_identity_id b)),
     (''api_version'', opt_ok context_value_ok (b_api_version b)),
     (''local_certificate_id'', opt_ok context_value_ok (b_local_certificate_id b)),
     (''expected_remote_signing_certificate_id'',
        opt_ok context_value_ok (b_expected_remote_signing_certificate_id b)),
     (''remote_encryption_certificate_id'',
        opt_ok context_value_ok (b_remote_encryption_certificate_id b)),
     (''local_signer_id'', opt_ok signer_id_ok (b_local_signer_id b)),
     (''expected_remote_signer_id'', opt_ok signer_id_ok (b_expected_remote_signer_id b)),
     (''envelope_mode'', asked_mode aead b \<noteq> None),
     (''iv'', asked_mode aead b = Some LegacyCbc \<longleftrightarrow> b_iv b \<noteq> None),
     (''authentication_mode'', b_authentication_mode b \<noteq> None),
     (''domain_separator'', b_authentication_mode b \<noteq> Some (ContextBound [])),
     (''max_plaintext_bytes'', 0 < asked_limit (the (asked_mode aead b)) b \<and>
        (asked_mode aead b = Some (Aead Sm4Ccm) \<longrightarrow> asked_limit (Aead Sm4Ccm) b < 2 ^ 24))]"

definition config_of :: "bool \<Rightarrow> ClientConfigBuilder \<Rightarrow> ClientConfig" where
  "config_of aead b =
     \<lparr>identity = \<lparr>local_identity_id = the (b_local_identity_id b), api_version = the (b_api_version b),
         local_certificate_id = the (b_local_certificate_id b),
         expected_remote_signing_certificate_id = the (b_expected_remote_signing_certificate_id b),
         remote_encryption_certificate_id = the (b_remote_encryption_certificate_id b)\<rparr>,
      local_signer_id = the (b_local_signer_id b),
      expected_remote_signer_id = the (b_expected_remote_signer_id b),
      authentication_mode = the (b_authentication_mode b),
      iv = (case b_iv b of Some v \<Rightarrow> v | None \<Rightarrow> replicate 16 0),
      envelope_mode = the (asked_mode aead b),
      max_plaintext_bytes = asked_limit (the (asked_mode aead b)) b\<rparr>"

text \<open>Runs a table: the first failed check, or the value.\<close>

fun first_failure :: "(string \<times> bool) list \<Rightarrow> 'a \<Rightarrow> 'a Result" where
  "first_failure [] x = Inr x"
| "first_failure ((f, ok) # cs) x = (if ok then first_failure cs x else Inl (Configuration f))"

lemma required_header_value_eq:
  "required_header_value v f =
     (if opt_ok context_value_ok v then Inr (the v) else Inl (Configuration f))"
  by (cases v) (auto simp: required_header_value_def validate_header_value_def opt_ok_def
      context_value_ok_def)

lemma required_signer_id_eq:
  "required_signer_id v f = (if opt_ok signer_id_ok v then Inr (the v) else Inl (Configuration f))"
  by (cases v) (auto simp: required_signer_id_def opt_ok_def signer_id_ok_def MAX_SIGNER_ID_BYTES_def)

lemma first_failure_iff: "first_failure cs x = Inr y \<longleftrightarrow> list_all snd cs \<and> y = x"
  by (induction cs) (auto split: if_splits)

lemma first_failure_err:
  "first_failure cs x = Inl e \<longleftrightarrow>
     (\<exists>us f vs. cs = us @ (f, False) # vs \<and> list_all snd us \<and> e = Configuration f)"
proof (induction cs)
  case (Cons c cs)
  obtain g ok where c: "c = (g, ok)" by force
  show ?case
  proof (cases ok)
    case True
    have "(\<exists>us f vs. c # cs = us @ (f, False) # vs \<and> list_all snd us \<and> e = Configuration f) \<longleftrightarrow>
        (\<exists>us f vs. cs = us @ (f, False) # vs \<and> list_all snd us \<and> e = Configuration f)"
      (is "?l \<longleftrightarrow> ?r")
    proof
      show "?l \<Longrightarrow> ?r" using c True by (auto simp: Cons_eq_append_conv) blast
      assume ?r
      then obtain us f vs where "c # cs = (c # us) @ (f, False) # vs \<and> list_all snd (c # us) \<and>
          e = Configuration f" using c True by auto
      then show ?l by blast
    qed
    with c True Cons.IH show ?thesis by simp
  next
    case False
    then have "c # cs = [] @ (g, False) # cs \<and> list_all snd []" using c by simp
    then have "\<exists>us vs. c # cs = us @ (g, False) # vs \<and> list_all snd us" by blast
    with c False show ?thesis by (auto simp: Cons_eq_append_conv)
  qed
qed simp

lemma validate_simps:
  "AuthenticationMode_validate m =
     (if m = ContextBound [] then Inl (Configuration ''domain_separator'') else Inr ())"
  by (cases m) auto

lemma build_eq_table:
  "ClientConfigBuilder_build aead b = first_failure (config_checks aead b) (config_of aead b)"
proof (cases "asked_mode aead b")
  case None
  then show ?thesis
    by (simp add: ClientConfigBuilder_build_def required_header_value_eq required_signer_id_eq
        config_checks_def asked_mode_def split: if_splits)
next
  case (Some mode)
  then have mode: "(if aead then ok_or (Configuration ''envelope_mode'') (b_envelope_mode b)
      else Inr LegacyCbc) = Inr mode"
    by (auto simp: asked_mode_def split: if_splits)
  show ?thesis
    by (cases mode; cases "b_iv b"; cases "b_authentication_mode b")
      (simp_all add: ClientConfigBuilder_build_def required_header_value_eq required_signer_id_eq
        mode Some config_checks_def config_of_def asked_limit_def validate_simps
        DEFAULT_MAX_PLAINTEXT_BYTES_def SM4_CCM_MAX_PLAINTEXT_BYTES_def
        SM4_CCM_DEFAULT_MAX_PLAINTEXT_BYTES_def Let_def
        split: option.split)
qed

section \<open>The invariant\<close>

definition identity_ok :: "ClientIdentity \<Rightarrow> bool" where
  "identity_ok i \<longleftrightarrow> context_value_ok (local_identity_id i) \<and> context_value_ok (api_version i) \<and>
     context_value_ok (local_certificate_id i) \<and>
     context_value_ok (expected_remote_signing_certificate_id i) \<and>
     context_value_ok (remote_encryption_certificate_id i)"

definition config_ok :: "ClientConfig \<Rightarrow> bool" where
  "config_ok c \<longleftrightarrow> identity_ok (identity c) \<and> signer_id_ok (local_signer_id c) \<and>
     signer_id_ok (expected_remote_signer_id c) \<and> mode_ok (authentication_mode c) \<and>
     length (iv c) = 16 \<and> 0 < max_plaintext_bytes c \<and>
     (envelope_mode c \<noteq> LegacyCbc \<longrightarrow> iv c = replicate 16 0) \<and>
     (envelope_mode c = Aead Sm4Ccm \<longrightarrow> max_plaintext_bytes c < 2 ^ 24)"

text \<open>The type of the initialisation vector, \<^verbatim>\<open>[u8; 16]\<close>.\<close>

definition builder_typed :: "ClientConfigBuilder \<Rightarrow> bool" where
  "builder_typed b \<longleftrightarrow> (case b_iv b of None \<Rightarrow> True | Some v \<Rightarrow> length v = 16)"

text \<open>The fluent chain that configures every field of a configuration.\<close>

definition configure :: "ClientConfig \<Rightarrow> ClientConfigBuilder" where
  "configure c =
     (let b = ClientConfigBuilder_max_plaintext_bytes (max_plaintext_bytes c)
        (ClientConfigBuilder_envelope_mode (envelope_mode c)
        (ClientConfigBuilder_authentication_mode (authentication_mode c)
        (ClientConfigBuilder_expected_remote_signer_id (expected_remote_signer_id c)
        (ClientConfigBuilder_local_signer_id (local_signer_id c)
        (ClientConfigBuilder_remote_encryption_certificate_id
           (remote_encryption_certificate_id (identity c))
        (ClientConfigBuilder_expected_remote_signing_certificate_id
           (expected_remote_signing_certificate_id (identity c))
        (ClientConfigBuilder_local_certificate_id (local_certificate_id (identity c))
        (ClientConfigBuilder_api_version (api_version (identity c))
        (ClientConfigBuilder_local_identity_id (local_identity_id (identity c))
           ClientConfig_builder)))))))))
      in (if envelope_mode c = LegacyCbc then ClientConfigBuilder_iv (iv c) b else b))"

lemmas setter_defs =
  ClientConfig_builder_def ClientConfigBuilder_local_identity_id_def
  ClientConfigBuilder_api_version_def ClientConfigBuilder_local_certificate_id_def
  ClientConfigBuilder_expected_remote_signing_certificate_id_def
  ClientConfigBuilder_remote_encryption_certificate_id_def ClientConfigBuilder_local_signer_id_def
  ClientConfigBuilder_expected_remote_signer_id_def ClientConfigBuilder_authentication_mode_def
  ClientConfigBuilder_iv_def ClientConfigBuilder_envelope_mode_def
  ClientConfigBuilder_max_plaintext_bytes_def

lemma build_config_ok:
  assumes "ClientConfigBuilder_build aead b = Inr c" "builder_typed b"
  shows "config_ok c"
proof -
  have checks: "list_all snd (config_checks aead b)" and c: "c = config_of aead b"
    using assms(1) by (auto simp: build_eq_table first_failure_iff)
  from checks obtain mode where mode: "asked_mode aead b = Some mode"
    by (auto simp: config_checks_def)
  show ?thesis
    using checks assms(2)
    by (cases mode) (auto simp: c mode config_checks_def config_of_def config_ok_def identity_ok_def
        opt_ok_def mode_ok_def builder_typed_def split: option.splits)
qed

lemma build_configure:
  assumes "config_ok c"
  shows "ClientConfigBuilder_build True (configure c) = Inr c"
proof -
  have "list_all snd (config_checks True (configure c))" "config_of True (configure c) = c"
    using assms
    by (cases "envelope_mode c"; auto simp: config_ok_def identity_ok_def config_checks_def
        configure_def setter_defs asked_mode_def asked_limit_def opt_ok_def mode_ok_def config_of_def)+
  then show ?thesis by (simp add: build_eq_table first_failure_iff)
qed

section \<open>Properties\<close>

text \<open>
  Property C22: building a configuration makes its checks in one fixed order. It succeeds
  exactly when all of them pass, with every field as configured and the documented
  defaults; otherwise it reports the field of the first failed check and nothing else.
\<close>

theorem config_build_exact:
  "(ClientConfigBuilder_build aead b = Inr c \<longleftrightarrow>
      list_all snd (config_checks aead b) \<and> c = config_of aead b) \<and>
   (ClientConfigBuilder_build aead b = Inl e \<longleftrightarrow>
      (\<exists>us f vs. config_checks aead b = us @ (f, False) # vs \<and> list_all snd us \<and> e = Configuration f))"
  by (simp add: build_eq_table first_failure_iff first_failure_err)

text \<open>
  Property C23: every configuration that is built satisfies the invariant the envelope
  code relies on: usable identifiers, signer identifiers of 1 to 8191 bytes, a bound mode
  with a domain, a 16-byte vector that is zero under authenticated encryption, a positive
  limit, and a limit below 16 MiB under CCM. Conversely the fluent chain of setters
  rebuilds every configuration that satisfies it.
\<close>

theorem config_build_invariant:
  assumes "builder_typed b"
  shows "(\<forall>c. ClientConfigBuilder_build aead b = Inr c \<longrightarrow> config_ok c) \<and>
    (config_ok d \<longrightarrow> ClientConfigBuilder_build True (configure d) = Inr d)"
  using build_config_ok [OF _ assms] build_configure by blast

definition sample_config :: ClientConfig where
  "sample_config =
     \<lparr>identity = \<lparr>local_identity_id = lit ''a'', api_version = lit ''v1'',
        local_certificate_id = lit ''c'', expected_remote_signing_certificate_id = lit ''r'',
        remote_encryption_certificate_id = lit ''e''\<rparr>,
      local_signer_id = blit ''s'', expected_remote_signer_id = blit ''t'',
      authentication_mode = ContextBound (blit ''d''), iv = replicate 16 0,
      envelope_mode = Aead Sm4Ccm, max_plaintext_bytes = 65536\<rparr>"

lemma sample_config_ok: "config_ok sample_config"
  by (simp add: config_ok_def identity_ok_def sample_config_def signer_id_ok_def mode_ok_def
      blit_def lit_def visible_value_ok)

theorem config_build_invariant_witness:
  "builder_typed (configure sample_config) \<and>
   ClientConfigBuilder_build True (configure sample_config) = Inr sample_config \<and>
   config_ok sample_config"
proof -
  have "builder_typed (configure sample_config)"
    by (simp add: builder_typed_def configure_def setter_defs sample_config_def)
  then show ?thesis
    using config_build_invariant [of "configure sample_config" True sample_config] sample_config_ok
    by blast
qed

text \<open>
  A build of the crate without the \<^verbatim>\<open>aead\<close> feature configures exactly what a
  build with it configures when the legacy mode is chosen: same acceptance, same errors,
  same configuration.
\<close>

lemma feature_free_build_is_legacy:
  "ClientConfigBuilder_build False b =
     ClientConfigBuilder_build True (ClientConfigBuilder_envelope_mode LegacyCbc b)"
  by (simp add: ClientConfigBuilder_build_def ClientConfigBuilder_envelope_mode_def)

end
