(* ===== verification/Adapter.thy ===== *)
theory Adapter
  imports Config "HOL-Library.Multiset"
begin

text \<open>
  \<^verbatim>\<open>src/adapter.rs\<close>: the adapter trait as a record of its methods, the header schema with its
  builder, and the schema-driven adapter. The lemmas show that a built schema maps its
  fields to distinct names, give the exact request and the exact parse of a response on
  every branch, and show that the context encodings separate requests, responses,
  operations and request identifiers. The interface \<open>pinned_adapter\<close> is what the client
  relies on when it checks an adapter's authentication kind once.
\<close>

section \<open>The trait\<close>

datatype AdapterAuthentication = PinLegacyPlaintext | PinContextBound

record ProtocolAdapter =
  request_authentication_context ::
    "ClientIdentity \<Rightarrow> ProtocolRequestContext \<Rightarrow> AuthenticationContext AdapterResult"
  adapter_build_request ::
    "ClientIdentity \<Rightarrow> ProtocolRequestContext \<Rightarrow> SecureEnvelope \<Rightarrow> RequestParts AdapterResult"
  parse_response :: "ResponseParts \<Rightarrow> ParsedResponse AdapterResult"
  pinned_authentication :: "AdapterAuthentication option"

section \<open>Schemas\<close>

datatype CipherLocation = Body | InHeader HeaderName

datatype HeaderAuthentication = HeaderLegacy | HeaderContextBound

record HeaderSchema =
  static_request_headers :: "(HeaderName \<times> HeaderValue) list"
  local_identity_header :: HeaderName
  operation_header :: HeaderName
  request_id_header :: HeaderName
  request_time_header :: HeaderName
  api_version_header :: HeaderName
  local_certificate_header :: HeaderName
  remote_signing_certificate_header :: HeaderName
  remote_encryption_certificate_header :: HeaderName
  request_signature_header :: HeaderName
  request_wrapped_key_header :: HeaderName
  request_cipher :: CipherLocation
  response_signature_header :: HeaderName
  response_wrapped_key_header :: HeaderName
  response_remote_signing_certificate_header :: HeaderName
  response_cipher :: CipherLocation
  authentication :: HeaderAuthentication

text \<open>The builder's fields have the source's names after the prefix \<open>b_\<close>.\<close>

record HeaderSchemaBuilder =
  b_static_request_headers :: "(str \<times> str) list"
  b_local_identity_header :: "str option"
  b_operation_header :: "str option"
  b_request_id_header :: "str option"
  b_request_time_header :: "str option"
  b_api_version_header :: "str option"
  b_local_certificate_header :: "str option"
  b_remote_signing_certificate_header :: "str option"
  b_remote_encryption_certificate_header :: "str option"
  b_request_signature_header :: "str option"
  b_request_wrapped_key_header :: "str option"
  b_request_cipher :: "CipherLocation option"
  b_response_signature_header :: "str option"
  b_response_wrapped_key_header :: "str option"
  b_response_remote_signing_certificate_header :: "str option"
  b_response_cipher :: "CipherLocation option"
  b_legacy_authentication :: bool
  b_context_bound_authentication :: bool

definition HeaderSchema_builder :: HeaderSchemaBuilder where
  "HeaderSchema_builder =
     \<lparr>b_static_request_headers = [], b_local_identity_header = None, b_operation_header = None,
      b_request_id_header = None, b_request_time_header = None, b_api_version_header = None,
      b_local_certificate_header = None, b_remote_signing_certificate_header = None,
      b_remote_encryption_certificate_header = None, b_request_signature_header = None,
      b_request_wrapped_key_header = None, b_request_cipher = None,
      b_response_signature_header = None, b_response_wrapped_key_header = None,
      b_response_remote_signing_certificate_header = None, b_response_cipher = None,
      b_legacy_authentication = False, b_context_bound_authentication = False\<rparr>"

definition HeaderSchemaBuilder_static_request_header ::
  "str \<Rightarrow> str \<Rightarrow> HeaderSchemaBuilder \<Rightarrow> HeaderSchemaBuilder" where
  "HeaderSchemaBuilder_static_request_header name value self =
     self\<lparr>b_static_request_headers := b_static_request_headers self @ [(name, value)]\<rparr>"

definition HeaderSchemaBuilder_local_identity_header ::
  "str \<Rightarrow> HeaderSchemaBuilder \<Rightarrow> HeaderSchemaBuilder" where
  "HeaderSchemaBuilder_local_identity_header value self = self\<lparr>b_local_identity_header := Some value\<rparr>"

definition HeaderSchemaBuilder_operation_header ::
  "str \<Rightarrow> HeaderSchemaBuilder \<Rightarrow> HeaderSchemaBuilder" where
  "HeaderSchemaBuilder_operation_header value self = self\<lparr>b_operation_header := Some value\<rparr>"

definition HeaderSchemaBuilder_request_id_header ::
  "str \<Rightarrow> HeaderSchemaBuilder \<Rightarrow> HeaderSchemaBuilder" where
  "HeaderSchemaBuilder_request_id_header value self = self\<lparr>b_request_id_header := Some value\<rparr>"

definition HeaderSchemaBuilder_request_time_header ::
  "str \<Rightarrow> HeaderSchemaBuilder \<Rightarrow> HeaderSchemaBuilder" where
  "HeaderSchemaBuilder_request_time_header value self = self\<lparr>b_request_time_header := Some value\<rparr>"

definition HeaderSchemaBuilder_api_version_header ::
  "str \<Rightarrow> HeaderSchemaBuilder \<Rightarrow> HeaderSchemaBuilder" where
  "HeaderSchemaBuilder_api_version_header value self = self\<lparr>b_api_version_header := Some value\<rparr>"

definition HeaderSchemaBuilder_local_certificate_header ::
  "str \<Rightarrow> HeaderSchemaBuilder \<Rightarrow> HeaderSchemaBuilder" where
  "HeaderSchemaBuilder_local_certificate_header value self = self\<lparr>b_local_certificate_header := Some value\<rparr>"

definition HeaderSchemaBuilder_remote_signing_certificate_header ::
  "str \<Rightarrow> HeaderSchemaBuilder \<Rightarrow> HeaderSchemaBuilder" where
  "HeaderSchemaBuilder_remote_signing_certificate_header value self = self\<lparr>b_remote_signing_certificate_header := Some value\<rparr>"

definition HeaderSchemaBuilder_remote_encryption_certificate_header ::
  "str \<Rightarrow> HeaderSchemaBuilder \<Rightarrow> HeaderSchemaBuilder" where
  "HeaderSchemaBuilder_remote_encryption_certificate_header value self = self\<lparr>b_remote_encryption_certificate_header := Some value\<rparr>"

definition HeaderSchemaBuilder_request_signature_header ::
  "str \<Rightarrow> HeaderSchemaBuilder \<Rightarrow> HeaderSchemaBuilder" where
  "HeaderSchemaBuilder_request_signature_header value self = self\<lparr>b_request_signature_header := Some value\<rparr>"

definition HeaderSchemaBuilder_request_wrapped_key_header ::
  "str \<Rightarrow> HeaderSchemaBuilder \<Rightarrow> HeaderSchemaBuilder" where
  "HeaderSchemaBuilder_request_wrapped_key_header value self = self\<lparr>b_request_wrapped_key_header := Some value\<rparr>"

definition HeaderSchemaBuilder_request_cipher ::
  "CipherLocation \<Rightarrow> HeaderSchemaBuilder \<Rightarrow> HeaderSchemaBuilder" where
  "HeaderSchemaBuilder_request_cipher value self = self\<lparr>b_request_cipher := Some value\<rparr>"

definition HeaderSchemaBuilder_response_signature_header ::
  "str \<Rightarrow> HeaderSchemaBuilder \<Rightarrow> HeaderSchemaBuilder" where
  "HeaderSchemaBuilder_response_signature_header value self = self\<lparr>b_response_signature_header := Some value\<rparr>"

definition HeaderSchemaBuilder_response_wrapped_key_header ::
  "str \<Rightarrow> HeaderSchemaBuilder \<Rightarrow> HeaderSchemaBuilder" where
  "HeaderSchemaBuilder_response_wrapped_key_header value self = self\<lparr>b_response_wrapped_key_header := Some value\<rparr>"

definition HeaderSchemaBuilder_response_remote_signing_certificate_header ::
  "str \<Rightarrow> HeaderSchemaBuilder \<Rightarrow> HeaderSchemaBuilder" where
  "HeaderSchemaBuilder_response_remote_signing_certificate_header value self = self\<lparr>b_response_remote_signing_certificate_header := Some value\<rparr>"

definition HeaderSchemaBuilder_response_cipher ::
  "CipherLocation \<Rightarrow> HeaderSchemaBuilder \<Rightarrow> HeaderSchemaBuilder" where
  "HeaderSchemaBuilder_response_cipher value self = self\<lparr>b_response_cipher := Some value\<rparr>"

definition HeaderSchemaBuilder_legacy_authentication :: "HeaderSchemaBuilder \<Rightarrow> HeaderSchemaBuilder" where
  "HeaderSchemaBuilder_legacy_authentication self = self\<lparr>b_legacy_authentication := True\<rparr>"

definition HeaderSchemaBuilder_context_bound_authentication :: "HeaderSchemaBuilder \<Rightarrow> HeaderSchemaBuilder" where
  "HeaderSchemaBuilder_context_bound_authentication self = self\<lparr>b_context_bound_authentication := True\<rparr>"

section \<open>Building a schema\<close>

definition adapter_error :: "AdapterErrorKind \<Rightarrow> AdapterError" where
  "adapter_error kind = AdapterError_new kind"

definition required_header :: "str option \<Rightarrow> HeaderName AdapterResult" where
  "required_header value =
     bindR (ok_or (adapter_error MissingField) value) (\<lambda>value.
     map_err (\<lambda>_. adapter_error InvalidMapping) (HeaderName_new value))"

text \<open>The hash set of header names, in which names that compare equal are one element.\<close>

definition insert_mapping :: "HeaderName \<Rightarrow> (HeaderName list, unit, AdapterError) effect" where
  "insert_mapping name = (\<lambda>names.
     if list_ex (HeaderName_eq name) names then (Inl (adapter_error InvalidMapping), names)
     else (Inr (), name # names))"

fun cipher_header :: "CipherLocation \<Rightarrow> HeaderName list" where
  "cipher_header (InHeader name) = [name]"
| "cipher_header Body = []"

definition HeaderSchema_validate_collisions :: "HeaderSchema \<Rightarrow> unit AdapterResult" where
  "HeaderSchema_validate_collisions self =
     bindR (run_local
       (bindW (for_eachW insert_mapping (map fst (static_request_headers self))) (\<lambda>_.
        bindW (for_eachW insert_mapping
          [local_identity_header self, operation_header self, request_id_header self,
           request_time_header self, api_version_header self, local_certificate_header self,
           remote_signing_certificate_header self, remote_encryption_certificate_header self,
           request_signature_header self, request_wrapped_key_header self]) (\<lambda>_.
        for_eachW insert_mapping (cipher_header (request_cipher self))))) []) (\<lambda>_.
     bindR (run_local
       (bindW (for_eachW insert_mapping
          [response_signature_header self, response_wrapped_key_header self,
           response_remote_signing_certificate_header self]) (\<lambda>_.
        bindW (for_eachW insert_mapping (cipher_header (response_cipher self))) (\<lambda>_.
        if authentication self = HeaderContextBound then insert_mapping (request_id_header self)
        else liftW (Inr ())))) []) (\<lambda>_.
     Inr ()))"

definition static_header :: "str \<times> str \<Rightarrow> (HeaderName \<times> HeaderValue) AdapterResult" where
  "static_header p =
     (if trim (snd p) = [] then Inl (adapter_error InvalidMapping)
      else bindR (map_err (\<lambda>_. adapter_error InvalidMapping) (HeaderName_new (fst p))) (\<lambda>n.
        bindR (map_err (\<lambda>_. adapter_error InvalidMapping) (HeaderValue_new (snd p))) (\<lambda>v.
        Inr (n, v))))"

definition HeaderSchemaBuilder_build :: "HeaderSchemaBuilder \<Rightarrow> HeaderSchema AdapterResult" where
  "HeaderSchemaBuilder_build self =
     (if b_static_request_headers self = [] \<or> b_request_cipher self = None \<or>
         b_response_cipher self = None
      then Inl (adapter_error MissingField)
      else if b_legacy_authentication self \<and> b_context_bound_authentication self
      then Inl (adapter_error InvalidMapping)
      else if \<not> b_legacy_authentication self \<and> \<not> b_context_bound_authentication self
      then Inl (adapter_error MissingField)
      else
       (let auth = (if b_context_bound_authentication self then HeaderContextBound else HeaderLegacy) in
        bindR (collectR static_header (b_static_request_headers self)) (\<lambda>statics.
        bindR (required_header (b_local_identity_header self)) (\<lambda>h1.
        bindR (required_header (b_operation_header self)) (\<lambda>h2.
        bindR (required_header (b_request_id_header self)) (\<lambda>h3.
        bindR (required_header (b_request_time_header self)) (\<lambda>h4.
        bindR (required_header (b_api_version_header self)) (\<lambda>h5.
        bindR (required_header (b_local_certificate_header self)) (\<lambda>h6.
        bindR (required_header (b_remote_signing_certificate_header self)) (\<lambda>h7.
        bindR (required_header (b_remote_encryption_certificate_header self)) (\<lambda>h8.
        bindR (required_header (b_request_signature_header self)) (\<lambda>h9.
        bindR (required_header (b_request_wrapped_key_header self)) (\<lambda>h10.
        bindR (ok_or (adapter_error MissingField) (b_request_cipher self)) (\<lambda>rc.
        bindR (required_header (b_response_signature_header self)) (\<lambda>h11.
        bindR (required_header (b_response_wrapped_key_header self)) (\<lambda>h12.
        bindR (required_header (b_response_remote_signing_certificate_header self)) (\<lambda>h13.
        bindR (ok_or (adapter_error MissingField) (b_response_cipher self)) (\<lambda>sc.
        (let schema =
           \<lparr>static_request_headers = statics, local_identity_header = h1, operation_header = h2,
            request_id_header = h3, request_time_header = h4, api_version_header = h5,
            local_certificate_header = h6, remote_signing_certificate_header = h7,
            remote_encryption_certificate_header = h8, request_signature_header = h9,
            request_wrapped_key_header = h10, request_cipher = rc,
            response_signature_header = h11, response_wrapped_key_header = h12,
            response_remote_signing_certificate_header = h13, response_cipher = sc,
            authentication = auth\<rparr>
         in bindR (HeaderSchema_validate_collisions schema) (\<lambda>_. Inr schema))))))))))))))))))))"

section \<open>Context encodings\<close>

definition HEADER_CONTEXT_VERSION :: byte where
  "HEADER_CONTEXT_VERSION = 0x01"

definition HEADER_CONTEXT_REQUEST :: byte where
  "HEADER_CONTEXT_REQUEST = 0x01"

definition HEADER_CONTEXT_RESPONSE :: byte where
  "HEADER_CONTEXT_RESPONSE = 0x02"

definition require_exact_trim :: "str \<Rightarrow> str AdapterResult" where
  "require_exact_trim value =
     (if trim value = [] \<or> value \<noteq> trim value then Inl (adapter_error InvalidField) else Inr value)"

definition push_length_prefixed :: "str \<Rightarrow> (bytes, unit, AdapterError) effect" where
  "push_length_prefixed value = (\<lambda>buffer.
     (case u64_try_from (str_len value) of
        None \<Rightarrow> (Inl (adapter_error InvalidField), buffer)
      | Some n \<Rightarrow> (Inr (), (buffer @ u64_to_be_bytes n) @ as_bytes value)))"

definition bound_context :: "bytes \<Rightarrow> AuthenticationContext AdapterResult" where
  "bound_context bs =
     map_err (\<lambda>_. adapter_error InvalidField) (AuthenticationContext_context_bound bs)"

definition encode_request_context :: "str \<Rightarrow> str \<Rightarrow> AuthenticationContext AdapterResult" where
  "encode_request_context op rid =
     bindR (require_exact_trim op) (\<lambda>op.
     bindR (require_exact_trim rid) (\<lambda>rid.
     bindR (run_local
        (bindW (vec_push HEADER_CONTEXT_VERSION) (\<lambda>_.
         bindW (vec_push HEADER_CONTEXT_REQUEST) (\<lambda>_.
         bindW (push_length_prefixed op) (\<lambda>_.
         push_length_prefixed rid)))) []) bound_context))"

definition encode_response_context :: "str \<Rightarrow> AuthenticationContext AdapterResult" where
  "encode_response_context rid =
     bindR (require_exact_trim rid) (\<lambda>rid.
     bindR (run_local
        (bindW (vec_push HEADER_CONTEXT_VERSION) (\<lambda>_.
         bindW (vec_push HEADER_CONTEXT_RESPONSE) (\<lambda>_.
         push_length_prefixed rid))) []) bound_context)"

section \<open>The adapter\<close>

record HeaderProtocolAdapter =
  schema :: HeaderSchema

definition HeaderProtocolAdapter_new :: "HeaderSchema \<Rightarrow> HeaderProtocolAdapter" where
  "HeaderProtocolAdapter_new s = \<lparr>schema = s\<rparr>"

definition HeaderProtocolAdapter_request_authentication_context ::
  "HeaderProtocolAdapter \<Rightarrow> ClientIdentity \<Rightarrow> ProtocolRequestContext \<Rightarrow> AuthenticationContext AdapterResult" where
  "HeaderProtocolAdapter_request_authentication_context self ident context =
     (case authentication (schema self) of
        HeaderLegacy \<Rightarrow> Inr AuthenticationContext_legacy
      | HeaderContextBound \<Rightarrow>
          encode_request_context (operation context) (request_id (metadata context)))"

definition HeaderProtocolAdapter_pinned_authentication ::
  "HeaderProtocolAdapter \<Rightarrow> AdapterAuthentication option" where
  "HeaderProtocolAdapter_pinned_authentication self =
     Some (case authentication (schema self) of
        HeaderLegacy \<Rightarrow> PinLegacyPlaintext
      | HeaderContextBound \<Rightarrow> PinContextBound)"

definition validate_nonempty :: "str \<Rightarrow> unit AdapterResult" where
  "validate_nonempty value = (if trim value = [] then Inl (adapter_error InvalidField) else Inr ())"

definition pair :: "HeaderName \<Rightarrow> str \<Rightarrow> str \<times> str" where
  "pair name value = (HeaderName_as_str name, value)"

definition HeaderProtocolAdapter_build_request ::
  "HeaderProtocolAdapter \<Rightarrow> ClientIdentity \<Rightarrow> ProtocolRequestContext \<Rightarrow> SecureEnvelope \<Rightarrow>
    RequestParts AdapterResult" where
  "HeaderProtocolAdapter_build_request self ident context env =
     bindR (validate_nonempty (signature env)) (\<lambda>_.
     bindR (validate_nonempty (wrapped_session_key env)) (\<lambda>_.
     bindR (validate_nonempty (cipher env)) (\<lambda>_.
     (let s = schema self;
          hs = map (\<lambda>(name, value). (HeaderName_as_str name, HeaderValue_as_str value))
                 (static_request_headers s);
          hs = hs @
            [pair (local_identity_header s) (local_identity_id ident),
             pair (operation_header s) (operation context),
             pair (request_id_header s) (request_id (metadata context)),
             pair (request_time_header s) (request_time (metadata context)),
             pair (api_version_header s) (api_version ident),
             pair (local_certificate_header s) (local_certificate_id ident),
             pair (remote_signing_certificate_header s) (expected_remote_signing_certificate_id ident),
             pair (remote_encryption_certificate_header s) (remote_encryption_certificate_id ident),
             pair (request_signature_header s) (signature env),
             pair (request_wrapped_key_header s) (wrapped_session_key env)];
          (hs, b) =
            (case request_cipher s of
               Body \<Rightarrow> (hs, cipher env)
             | InHeader name \<Rightarrow> (hs @ [pair name (cipher env)], []))
      in map_err (\<lambda>_. adapter_error InvalidField) (RequestParts_new hs b)))))"

definition trimmed_nonempty :: "str \<Rightarrow> str AdapterResult" where
  "trimmed_nonempty value =
     (if trim value = [] then Inl (adapter_error InvalidField) else Inr (trim value))"

definition required_response_header :: "str option \<Rightarrow> str AdapterResult" where
  "required_response_header value =
     bindR (ok_or (adapter_error MissingField) value) (\<lambda>value.
     bindR (map_err (\<lambda>_. adapter_error InvalidField) (HeaderValue_new value)) (\<lambda>_.
     trimmed_nonempty value))"

text \<open>
  The five local variables of \<^verbatim>\<open>parse_response\<close> that the header loop fills, and the one a
  header name selects.
\<close>

datatype slot = SlotSignature | SlotWrappedKey | SlotCertificate | SlotRequestId | SlotCipher

definition response_target :: "HeaderSchema \<Rightarrow> str \<Rightarrow> slot option" where
  "response_target s name =
     (if eq_ignore_ascii_case name (HeaderName_as_str (response_signature_header s))
      then Some SlotSignature
      else if eq_ignore_ascii_case name (HeaderName_as_str (response_wrapped_key_header s))
      then Some SlotWrappedKey
      else if eq_ignore_ascii_case name
        (HeaderName_as_str (response_remote_signing_certificate_header s))
      then Some SlotCertificate
      else if authentication s = HeaderContextBound \<and>
        eq_ignore_ascii_case name (HeaderName_as_str (request_id_header s))
      then Some SlotRequestId
      else (case response_cipher s of
              InHeader n \<Rightarrow>
                (if eq_ignore_ascii_case name (HeaderName_as_str n) then Some SlotCipher else None)
            | Body \<Rightarrow> None))"

definition fill_slot ::
  "HeaderSchema \<Rightarrow> str \<times> str \<Rightarrow> (slot \<Rightarrow> str option, unit, AdapterError) effect" where
  "fill_slot s p = (\<lambda>slots.
     (case response_target s (fst p) of
        None \<Rightarrow> (Inr (), slots)
      | Some t \<Rightarrow>
          (if slots t \<noteq> None then (Inl (adapter_error DuplicateField), slots(t := Some (snd p)))
           else (Inr (), slots(t := Some (snd p))))))"

definition HeaderProtocolAdapter_parse_response ::
  "HeaderProtocolAdapter \<Rightarrow> ResponseParts \<Rightarrow> ParsedResponse AdapterResult" where
  "HeaderProtocolAdapter_parse_response self response =
     (let s = schema self; (hs, b) = ResponseParts_into_parts response in
      bindR (run_local (for_eachW (fill_slot s) hs) (\<lambda>_. None)) (\<lambda>slots.
      bindR (required_response_header (slots SlotSignature)) (\<lambda>sig.
      bindR (required_response_header (slots SlotWrappedKey)) (\<lambda>wrapped.
      bindR (required_response_header (slots SlotCertificate)) (\<lambda>cert.
      bindR (case response_cipher s of
               Body \<Rightarrow> trimmed_nonempty b
             | InHeader _ \<Rightarrow> required_response_header (slots SlotCipher)) (\<lambda>ciph.
      bindR (case authentication s of
               HeaderLegacy \<Rightarrow> Inr AuthenticationContext_legacy
             | HeaderContextBound \<Rightarrow>
                 bindR (ok_or (adapter_error MissingField) (slots SlotRequestId)) (\<lambda>value.
                 bindR (map_err (\<lambda>_. adapter_error InvalidField) (HeaderValue_new value)) (\<lambda>_.
                 encode_response_context value))) (\<lambda>ctx.
      ParsedResponse_new
        \<lparr>cipher = ciph, wrapped_session_key = wrapped, signature = sig\<rparr> cert ctx)))))))"

text \<open>The adapter as a trait object.\<close>

definition header_adapter :: "HeaderProtocolAdapter \<Rightarrow> ProtocolAdapter" where
  "header_adapter self =
     \<lparr>request_authentication_context = HeaderProtocolAdapter_request_authentication_context self,
      adapter_build_request = HeaderProtocolAdapter_build_request self,
      parse_response = HeaderProtocolAdapter_parse_response self,
      pinned_authentication = HeaderProtocolAdapter_pinned_authentication self\<rparr>"

section \<open>Schema validity\<close>

definition name_ok :: "HeaderName \<Rightarrow> bool" where
  "name_ok n \<longleftrightarrow> valid_name (original n) \<and> canonical n = to_ascii_lowercase (original n)"

definition request_names :: "HeaderSchema \<Rightarrow> HeaderName list" where
  "request_names s = map fst (static_request_headers s) @
     [local_identity_header s, operation_header s, request_id_header s, request_time_header s,
      api_version_header s, local_certificate_header s, remote_signing_certificate_header s,
      remote_encryption_certificate_header s, request_signature_header s,
      request_wrapped_key_header s] @ cipher_header (request_cipher s)"

definition response_names :: "HeaderSchema \<Rightarrow> HeaderName list" where
  "response_names s =
     [response_signature_header s, response_wrapped_key_header s,
      response_remote_signing_certificate_header s] @ cipher_header (response_cipher s) @
     (if authentication s = HeaderContextBound then [request_id_header s] else [])"

definition static_value_ok :: "HeaderName \<times> HeaderValue \<Rightarrow> bool" where
  "static_value_ok e \<longleftrightarrow> valid_value (value_str (snd e)) \<and> trim (value_str (snd e)) \<noteq> []"

text \<open>
  The invariant: at least one static header with a usable value, well-formed names, and no
  two fields of a request or of a response under one name.
\<close>

definition schema_ok :: "HeaderSchema \<Rightarrow> bool" where
  "schema_ok s \<longleftrightarrow> static_request_headers s \<noteq> [] \<and>
     list_all static_value_ok (static_request_headers s) \<and>
     list_all name_ok (request_names s) \<and> list_all name_ok (response_names s) \<and>
     distinct (map canonical (request_names s)) \<and> distinct (map canonical (response_names s))"

lemma insert_mapping_all_iff:
  "for_eachW insert_mapping ns acc = (Inr (), acc') \<longleftrightarrow>
     distinct (map canonical ns) \<and> canonical ` set ns \<inter> canonical ` set acc = {} \<and>
     acc' = rev ns @ acc"
proof (induction ns arbitrary: acc)
  case Nil
  then show ?case by auto
next
  case (Cons n ns)
  have "insert_mapping n acc = (Inr (), b) \<longleftrightarrow> canonical n \<notin> canonical ` set acc \<and> b = n # acc" for b
    by (auto simp: insert_mapping_def list_ex_iff HeaderName_eq_def)
  then show ?case by (auto simp: bindW_eq_Inr Cons.IH)
qed

lemma insert_mapping_all_err:
  "for_eachW insert_mapping ns acc = (Inl e, acc') \<Longrightarrow> e = AdapterError InvalidMapping"
  by (auto simp: for_eachW_eq_Inl insert_mapping_def adapter_error_def AdapterError_new_def
      split: if_splits)

lemma validate_collisions_eq:
  "HeaderSchema_validate_collisions s =
     bindR (run_local (for_eachW insert_mapping (request_names s)) []) (\<lambda>_.
     bindR (run_local (for_eachW insert_mapping (response_names s)) []) (\<lambda>_. Inr ()))"
proof -
  have "(if c then insert_mapping x else liftW (Inr ())) =
      for_eachW insert_mapping (if c then [x] else [])" for c x
    by (simp add: for_eachW_single del: for_eachW.simps(2))
  then show ?thesis
    by (simp only: HeaderSchema_validate_collisions_def request_names_def response_names_def
        for_eachW_append)
qed

lemma validate_collisions_iff:
  "HeaderSchema_validate_collisions s = Inr u \<longleftrightarrow>
     distinct (map canonical (request_names s)) \<and> distinct (map canonical (response_names s))"
  by (auto simp: validate_collisions_eq bindR_eq_Inr run_local_eq_Inr insert_mapping_all_iff)

lemma validate_collisions_err:
  "HeaderSchema_validate_collisions s = Inl e \<Longrightarrow> e = AdapterError InvalidMapping"
  by (auto simp: validate_collisions_eq bindR_eq_Inl run_local_eq_Inl dest: insert_mapping_all_err)

lemma required_header_iff:
  "required_header v = Inr n \<longleftrightarrow> name_ok n \<and> v = Some (original n)"
  by (cases n) (auto simp: required_header_def bindR_eq_Inr HeaderName_new_iff name_ok_def)

lemma required_header_err:
  "required_header v = Inl e \<Longrightarrow>
     e = AdapterError (if v = None then MissingField else InvalidMapping)"
  by (auto simp: required_header_def bindR_eq_Inl ok_or_eq_Inl map_err_eq_Inl adapter_error_def
      AdapterError_new_def)

lemma static_header_iff:
  "static_header p = Inr e \<longleftrightarrow> p = pair_of e \<and> name_ok (fst e) \<and> static_value_ok e"
  by (cases e; cases "fst e"; cases "snd e")
    (auto simp: static_header_def bindR_eq_Inr HeaderName_new_iff HeaderValue_new_iff pair_of_def
      name_ok_def static_value_ok_def split: if_splits)

lemma static_header_err: "static_header p = Inl e \<Longrightarrow> e = AdapterError InvalidMapping"
  by (auto simp: static_header_def bindR_eq_Inl map_err_eq_Inl adapter_error_def
      AdapterError_new_def split: if_splits)

lemma static_headers_iff:
  "collectR static_header ps = Inr es \<longleftrightarrow>
     ps = map pair_of es \<and> list_all (\<lambda>e. name_ok (fst e) \<and> static_value_ok e) es"
  unfolding collectR_eq_Inr static_header_iff
proof (induction es arbitrary: ps)
  case (Cons e es)
  then show ?case by (cases ps) auto
qed auto

text \<open>The caller's cipher locations hold constructed header names.\<close>

definition locations_typed :: "HeaderSchemaBuilder \<Rightarrow> bool" where
  "locations_typed b \<longleftrightarrow>
     (\<forall>l. b_request_cipher b = Some l \<or> b_response_cipher b = Some l \<longrightarrow> list_all name_ok (cipher_header l))"

definition raw_build :: "HeaderSchemaBuilder \<Rightarrow> HeaderSchema \<Rightarrow> bool" where
  "raw_build b s \<longleftrightarrow>
    collectR static_header (b_static_request_headers b) = Inr (static_request_headers s) \<and>
    required_header (b_local_identity_header b) = Inr (local_identity_header s) \<and>
    required_header (b_operation_header b) = Inr (operation_header s) \<and>
    required_header (b_request_id_header b) = Inr (request_id_header s) \<and>
    required_header (b_request_time_header b) = Inr (request_time_header s) \<and>
    required_header (b_api_version_header b) = Inr (api_version_header s) \<and>
    required_header (b_local_certificate_header b) = Inr (local_certificate_header s) \<and>
    required_header (b_remote_signing_certificate_header b) = Inr (remote_signing_certificate_header s) \<and>
    required_header (b_remote_encryption_certificate_header b) =
      Inr (remote_encryption_certificate_header s) \<and>
    required_header (b_request_signature_header b) = Inr (request_signature_header s) \<and>
    required_header (b_request_wrapped_key_header b) = Inr (request_wrapped_key_header s) \<and>
    b_request_cipher b = Some (request_cipher s) \<and>
    required_header (b_response_signature_header b) = Inr (response_signature_header s) \<and>
    required_header (b_response_wrapped_key_header b) = Inr (response_wrapped_key_header s) \<and>
    required_header (b_response_remote_signing_certificate_header b) =
      Inr (response_remote_signing_certificate_header s) \<and>
    b_response_cipher b = Some (response_cipher s)"

lemma schema_build_raw:
  "HeaderSchemaBuilder_build b = Inr s \<longleftrightarrow>
     b_static_request_headers b \<noteq> [] \<and>
     b_legacy_authentication b = (authentication s = HeaderLegacy) \<and>
     b_context_bound_authentication b = (authentication s = HeaderContextBound) \<and>
     raw_build b s \<and> HeaderSchema_validate_collisions s = Inr ()"
proof -
  have "authentication s = HeaderLegacy \<or> authentication s = HeaderContextBound"
    by (cases "authentication s") auto
  then show ?thesis
    by (cases s; cases "b_legacy_authentication b"; cases "b_context_bound_authentication b")
      (simp_all add: HeaderSchemaBuilder_build_def raw_build_def bindR_eq_Inr Let_def, auto)
qed

lemma schema_build_ok:
  assumes "locations_typed b" "HeaderSchemaBuilder_build b = Inr s"
  shows "schema_ok s"
proof -
  have raw: "raw_build b s" and ne: "b_static_request_headers b \<noteq> []"
    and col: "HeaderSchema_validate_collisions s = Inr ()"
    using assms(2) by (simp_all add: schema_build_raw)
  have "static_request_headers s \<noteq> []" "list_all static_value_ok (static_request_headers s)"
    "list_all name_ok (map fst (static_request_headers s))"
    using raw ne by (auto simp: raw_build_def static_headers_iff list_all_iff)
  moreover have "list_all name_ok (cipher_header (request_cipher s))"
    "list_all name_ok (cipher_header (response_cipher s))"
    using raw assms(1) by (simp_all add: raw_build_def locations_typed_def)
  moreover have "list_all name_ok
     [local_identity_header s, operation_header s, request_id_header s, request_time_header s,
      api_version_header s, local_certificate_header s, remote_signing_certificate_header s,
      remote_encryption_certificate_header s, request_signature_header s,
      request_wrapped_key_header s, response_signature_header s, response_wrapped_key_header s,
      response_remote_signing_certificate_header s]"
    using raw by (simp add: raw_build_def required_header_iff)
  ultimately show ?thesis
    using col by (simp add: schema_ok_def validate_collisions_iff request_names_def response_names_def)
qed

lemma schema_build_err:
  "HeaderSchemaBuilder_build b = Inl e \<Longrightarrow>
     e = AdapterError MissingField \<or> e = AdapterError InvalidMapping"
proof -
  have *: "required_header v = Inl e \<Longrightarrow> e = AdapterError MissingField \<or> e = AdapterError InvalidMapping"
    for v by (auto dest: required_header_err split: if_splits)
  assume "HeaderSchemaBuilder_build b = Inl e"
  then show ?thesis
    by (auto simp: HeaderSchemaBuilder_build_def bindR_eq_Inl ok_or_eq_Inl Let_def
        adapter_error_def AdapterError_new_def split: if_splits
        dest!: * collectR_eq_Inl static_header_err validate_collisions_err)
qed

text \<open>The fluent chain of setters that describes a schema.\<close>

definition describe :: "HeaderSchema \<Rightarrow> HeaderSchemaBuilder" where
  "describe s =
     (case authentication s of
        HeaderLegacy \<Rightarrow> HeaderSchemaBuilder_legacy_authentication
      | HeaderContextBound \<Rightarrow> HeaderSchemaBuilder_context_bound_authentication)
     (HeaderSchemaBuilder_response_cipher (response_cipher s)
     (HeaderSchemaBuilder_response_remote_signing_certificate_header
        (original (response_remote_signing_certificate_header s))
     (HeaderSchemaBuilder_response_wrapped_key_header (original (response_wrapped_key_header s))
     (HeaderSchemaBuilder_response_signature_header (original (response_signature_header s))
     (HeaderSchemaBuilder_request_cipher (request_cipher s)
     (HeaderSchemaBuilder_request_wrapped_key_header (original (request_wrapped_key_header s))
     (HeaderSchemaBuilder_request_signature_header (original (request_signature_header s))
     (HeaderSchemaBuilder_remote_encryption_certificate_header
        (original (remote_encryption_certificate_header s))
     (HeaderSchemaBuilder_remote_signing_certificate_header
        (original (remote_signing_certificate_header s))
     (HeaderSchemaBuilder_local_certificate_header (original (local_certificate_header s))
     (HeaderSchemaBuilder_api_version_header (original (api_version_header s))
     (HeaderSchemaBuilder_request_time_header (original (request_time_header s))
     (HeaderSchemaBuilder_request_id_header (original (request_id_header s))
     (HeaderSchemaBuilder_operation_header (original (operation_header s))
     (HeaderSchemaBuilder_local_identity_header (original (local_identity_header s))
     (fold (\<lambda>e. HeaderSchemaBuilder_static_request_header (fst (pair_of e)) (snd (pair_of e)))
        (static_request_headers s) HeaderSchema_builder))))))))))))))))"

lemmas schema_setter_defs =
  HeaderSchema_builder_def HeaderSchemaBuilder_static_request_header_def
  HeaderSchemaBuilder_local_identity_header_def HeaderSchemaBuilder_operation_header_def
  HeaderSchemaBuilder_request_id_header_def HeaderSchemaBuilder_request_time_header_def
  HeaderSchemaBuilder_api_version_header_def HeaderSchemaBuilder_local_certificate_header_def
  HeaderSchemaBuilder_remote_signing_certificate_header_def
  HeaderSchemaBuilder_remote_encryption_certificate_header_def
  HeaderSchemaBuilder_request_signature_header_def HeaderSchemaBuilder_request_wrapped_key_header_def
  HeaderSchemaBuilder_request_cipher_def HeaderSchemaBuilder_response_signature_header_def
  HeaderSchemaBuilder_response_wrapped_key_header_def
  HeaderSchemaBuilder_response_remote_signing_certificate_header_def
  HeaderSchemaBuilder_response_cipher_def HeaderSchemaBuilder_legacy_authentication_def
  HeaderSchemaBuilder_context_bound_authentication_def

lemma fold_static:
  "fold (\<lambda>e. HeaderSchemaBuilder_static_request_header (fst (pair_of e)) (snd (pair_of e))) es b =
     b\<lparr>b_static_request_headers := b_static_request_headers b @ map pair_of es\<rparr>"
  by (induction es arbitrary: b) (simp_all add: HeaderSchemaBuilder_static_request_header_def)

lemma schema_build_describe:
  assumes "schema_ok s"
  shows "HeaderSchemaBuilder_build (describe s) = Inr s"
proof -
  have fst_ok: "list_all (\<lambda>e. name_ok (fst e)) (static_request_headers s)"
    using assms by (simp add: schema_ok_def request_names_def list_all_iff)
  have "raw_build (describe s) s"
    using assms fst_ok
    by (cases "authentication s")
      (simp_all add: raw_build_def describe_def fold_static schema_setter_defs required_header_iff
        static_headers_iff schema_ok_def request_names_def response_names_def list_all_iff)
  moreover have "b_static_request_headers (describe s) \<noteq> []"
    "b_legacy_authentication (describe s) = (authentication s = HeaderLegacy)"
    "b_context_bound_authentication (describe s) = (authentication s = HeaderContextBound)"
    using assms
    by (cases "authentication s";
        simp add: describe_def fold_static schema_setter_defs schema_ok_def)+
  ultimately show ?thesis
    using assms by (simp add: schema_build_raw validate_collisions_iff schema_ok_def)
qed

section \<open>Requests\<close>

text \<open>The header pairs of a request, in order, and its body.\<close>

definition request_pairs ::
  "HeaderSchema \<Rightarrow> ClientIdentity \<Rightarrow> ProtocolRequestContext \<Rightarrow> SecureEnvelope \<Rightarrow> (str \<times> str) list" where
  "request_pairs s ident ctx env = map pair_of (static_request_headers s) @
     [(original (local_identity_header s), local_identity_id ident),
      (original (operation_header s), operation ctx),
      (original (request_id_header s), request_id (metadata ctx)),
      (original (request_time_header s), request_time (metadata ctx)),
      (original (api_version_header s), api_version ident),
      (original (local_certificate_header s), local_certificate_id ident),
      (original (remote_signing_certificate_header s), expected_remote_signing_certificate_id ident),
      (original (remote_encryption_certificate_header s), remote_encryption_certificate_id ident),
      (original (request_signature_header s), signature env),
      (original (request_wrapped_key_header s), wrapped_session_key env)] @
     map (\<lambda>n. (original n, cipher env)) (cipher_header (request_cipher s))"

definition request_body :: "HeaderSchema \<Rightarrow> SecureEnvelope \<Rightarrow> str" where
  "request_body s env = (if request_cipher s = Body then cipher env else [])"

lemma map_fst_request_pairs: "map fst (request_pairs s i c e) = map original (request_names s)"
  by (simp add: request_pairs_def request_names_def pair_of_def comp_def)

lemma build_request_pairs:
  "HeaderProtocolAdapter_build_request a ident ctx env =
    (if trim (signature env) = [] \<or> trim (wrapped_session_key env) = [] \<or> trim (cipher env) = []
     then Inl (AdapterError InvalidField)
     else map_err (\<lambda>_. AdapterError InvalidField)
       (RequestParts_new (request_pairs (schema a) ident ctx env) (request_body (schema a) env)))"
proof -
  have statics: "map (\<lambda>(name, value). (original name, value_str value)) es = map pair_of es" for es
    by (auto simp: pair_of_def)
  show ?thesis
    by (simp add: statics HeaderProtocolAdapter_build_request_def validate_nonempty_def adapter_error_def
        AdapterError_new_def Let_def request_pairs_def request_body_def pair_def HeaderName_as_str_def
        HeaderValue_as_str_def split: CipherLocation.split)
qed

lemma request_collection:
  assumes "schema_ok s"
  shows "HeaderCollection_from_pairs (request_pairs s i c e) = Inr d \<longleftrightarrow>
    list_all (\<lambda>p. valid_value (snd p)) (request_pairs s i c e) \<and>
    d = \<lparr>entries = map entry_of (request_pairs s i c e)\<rparr>"
proof -
  have names: "list_all name_ok (request_names s)" "distinct (map canonical (request_names s))"
    using assms by (simp_all add: schema_ok_def)
  have fsts: "fst ` set (request_pairs s i c e) = original ` set (request_names s)"
    by (metis map_fst_request_pairs set_map)
  have "\<forall>p \<in> set (request_pairs s i c e). valid_name (fst p)"
    using names(1) fsts by (force simp: list_all_iff name_ok_def)
  moreover have "map to_ascii_lowercase (map fst (request_pairs s i c e)) =
      map canonical (request_names s)"
    unfolding map_fst_request_pairs using names(1) by (auto simp: list_all_iff name_ok_def)
  then have "map (\<lambda>p. to_ascii_lowercase (fst p)) (request_pairs s i c e) =
      map canonical (request_names s)"
    by (simp add: comp_def)
  ultimately show ?thesis using names(2) by (auto simp: from_pairs_iff list_all_iff)
qed

lemma build_request_eq:
  assumes "schema_ok (schema a)"
  shows "HeaderProtocolAdapter_build_request a ident ctx env =
    (if trim (signature env) \<noteq> [] \<and> trim (wrapped_session_key env) \<noteq> [] \<and> trim (cipher env) \<noteq> [] \<and>
        list_all (\<lambda>p. valid_value (snd p)) (request_pairs (schema a) ident ctx env)
     then Inr \<lparr>headers = \<lparr>entries = map entry_of (request_pairs (schema a) ident ctx env)\<rparr>,
               body = request_body (schema a) env\<rparr>
     else Inl (AdapterError InvalidField))"
proof (cases "HeaderCollection_from_pairs (request_pairs (schema a) ident ctx env)")
  case (Inl x)
  then have "\<not> list_all (\<lambda>p. valid_value (snd p)) (request_pairs (schema a) ident ctx env)"
    using request_collection [OF assms] by (metis Inl_Inr_False)
  with Inl show ?thesis by (simp add: build_request_pairs RequestParts_new_eq)
next
  case (Inr d)
  then have "list_all (\<lambda>p. valid_value (snd p)) (request_pairs (schema a) ident ctx env)"
    and "d = \<lparr>entries = map entry_of (request_pairs (schema a) ident ctx env)\<rparr>"
    using request_collection [OF assms] by blast+
  with Inr show ?thesis by (simp add: build_request_pairs RequestParts_new_eq)
qed

lemma parts_header_of_pairs:
  assumes "HeaderCollection_from_pairs ps = Inr c" "(n, v) \<in> set ps" "eq_ignore_ascii_case n m"
  shows "RequestParts_header \<lparr>headers = c, body = b\<rparr> m = Some v"
  using assms hs.loop_get [OF hs.invar_empty, of ps c n v m]
  by (simp add: RequestParts_header_def HeaderCollection_from_pairs_def run_local_eq_Inr
      HeaderValue_as_str_def)

section \<open>Responses\<close>

definition occurrences :: "HeaderSchema \<Rightarrow> (str \<times> str) list \<Rightarrow> slot \<Rightarrow> str list" where
  "occurrences s hs t = map snd (filter (\<lambda>p. response_target s (fst p) = Some t) hs)"

definition first_of :: "'a list \<Rightarrow> 'a option" where
  "first_of xs = (case xs of [] \<Rightarrow> None | x # _ \<Rightarrow> Some x)"

lemma occurrences_simps [simp]:
  "occurrences s [] t = []"
  "occurrences s (p # ps) t =
     (if response_target s (fst p) = Some t then [snd p] else []) @ occurrences s ps t"
  by (simp_all add: occurrences_def)

lemma fill_slots_iff:
  "for_eachW (fill_slot s) hs m = (Inr (), m') \<longleftrightarrow>
     (\<forall>t. length (occurrences s hs t) \<le> (if m t = None then 1 else 0)) \<and>
     m' = (\<lambda>t. case first_of (occurrences s hs t) of None \<Rightarrow> m t | Some v \<Rightarrow> Some v)"
proof (induction hs arbitrary: m)
  case Nil
  then show ?case by (auto simp: first_of_def)
next
  case (Cons p ps)
  show ?case
  proof (cases "response_target s (fst p)")
    case None
    then have "fill_slot s p m = (Inr (), m)" by (simp add: fill_slot_def)
    with None show ?thesis by (simp add: bindW_step Cons.IH)
  next
    case (Some u)
    have step: "fill_slot s p m = (Inr (), k) \<longleftrightarrow> m u = None \<and> k = m(u := Some (snd p))" for k
      using Some by (auto simp: fill_slot_def)
    have rest: "(\<forall>t. length (occurrences s ps t) \<le> (if (m(u := Some (snd p))) t = None then 1 else 0)) \<and> m u = None
       \<longleftrightarrow> (\<forall>t. length (occurrences s (p # ps) t) \<le> (if m t = None then 1 else 0))"
      using Some by (auto simp: le_Suc_eq split: if_splits)
    have "(\<lambda>t. case first_of (occurrences s ps t) of None \<Rightarrow> (m(u := Some (snd p))) t | Some v \<Rightarrow> Some v) =
       (\<lambda>t. case first_of (occurrences s (p # ps) t) of None \<Rightarrow> m t | Some v \<Rightarrow> Some v)"
      if "\<forall>t. length (occurrences s (p # ps) t) \<le> (if m t = None then 1 else 0)"
    proof
      fix t
      show "(case first_of (occurrences s ps t) of None \<Rightarrow> (m(u := Some (snd p))) t | Some v \<Rightarrow> Some v) =
       (case first_of (occurrences s (p # ps) t) of None \<Rightarrow> m t | Some v \<Rightarrow> Some v)"
        using that [rule_format, of t] Some
        by (cases "t = u") (auto simp: first_of_def split: if_splits list.splits)
    qed
    note same = this
    have gen: "(A \<and> B \<longleftrightarrow> C) \<Longrightarrow> (C \<Longrightarrow> f = g) \<Longrightarrow> (B \<and> A \<and> m' = f) \<longleftrightarrow> (C \<and> m' = g)"
      for A B C and f g :: "slot \<Rightarrow> str option" by blast
    have "for_eachW (fill_slot s) (p # ps) m = (Inr (), m') \<longleftrightarrow>
        m u = None \<and> for_eachW (fill_slot s) ps (m(u := Some (snd p))) = (Inr (), m')"
      by (simp add: bindW_eq_Inr step)
    also have "\<dots> \<longleftrightarrow> (\<forall>t. length (occurrences s (p # ps) t) \<le> (if m t = None then 1 else 0)) \<and>
        m' = (\<lambda>t. case first_of (occurrences s (p # ps) t) of None \<Rightarrow> m t | Some v \<Rightarrow> Some v)"
      unfolding Cons.IH by (rule gen [OF rest same])
    finally show ?thesis .
  qed
qed

lemma fill_slots_err:
  "for_eachW (fill_slot s) hs m = (Inl e, m') \<Longrightarrow> e = AdapterError DuplicateField"
  by (auto simp: for_eachW_eq_Inl fill_slot_def adapter_error_def AdapterError_new_def
      split: option.splits if_splits)

lemma fill_slots_eq:
  "run_local (for_eachW (fill_slot s) hs) (\<lambda>_. None) =
     (if \<exists>t. 1 < length (occurrences s hs t) then Inl (AdapterError DuplicateField)
      else Inr (\<lambda>t. first_of (occurrences s hs t)))"
proof (cases "\<exists>t. 1 < length (occurrences s hs t)")
  case True
  then have "run_local (for_eachW (fill_slot s) hs) (\<lambda>_. None) \<noteq> Inr m" for m
    by (auto simp: run_local_eq_Inr fill_slots_iff not_le)
  then obtain e where e: "run_local (for_eachW (fill_slot s) hs) (\<lambda>_. None) = Inl e"
    by (cases "run_local (for_eachW (fill_slot s) hs) (\<lambda>_. None)") auto
  then have "e = AdapterError DuplicateField" by (auto simp: run_local_eq_Inl dest: fill_slots_err)
  with e True show ?thesis by simp
next
  case False
  have "(\<lambda>t. case first_of (occurrences s hs t) of None \<Rightarrow> None | Some v \<Rightarrow> Some v) =
      (\<lambda>t. first_of (occurrences s hs t))"
    by (simp add: fun_eq_iff split: option.split)
  moreover have "\<forall>t. length (occurrences s hs t) \<le> 1" using False by (simp add: not_less)
  ultimately have "run_local (for_eachW (fill_slot s) hs) (\<lambda>_. None) =
      Inr (\<lambda>t. first_of (occurrences s hs t))"
    by (simp add: run_local_eq_Inr fill_slots_iff)
  then show ?thesis using False by simp
qed

lemma occurrences_perm:
  assumes "mset hs = mset hs'" "length (occurrences s hs t) \<le> 1"
  shows "occurrences s hs' t = occurrences s hs t"
proof -
  have "mset (occurrences s hs t) = mset (occurrences s hs' t)"
    using assms(1) by (simp add: occurrences_def)
  then show ?thesis
    using assms(2) by (cases "occurrences s hs t") auto
qed

lemma occurrences_length_perm:
  "mset hs = mset hs' \<Longrightarrow> length (occurrences s hs t) = length (occurrences s hs' t)"
  unfolding occurrences_def by (metis length_map mset_filter size_mset)

lemma parse_response_slots:
  "HeaderProtocolAdapter_parse_response a r =
    (let s = schema a; hs = response_headers r in
     if \<exists>t. 1 < length (occurrences s hs t) then Inl (AdapterError DuplicateField)
     else
      bindR (required_response_header (first_of (occurrences s hs SlotSignature))) (\<lambda>sig.
      bindR (required_response_header (first_of (occurrences s hs SlotWrappedKey))) (\<lambda>wrapped.
      bindR (required_response_header (first_of (occurrences s hs SlotCertificate))) (\<lambda>cert.
      bindR (case response_cipher s of
               Body \<Rightarrow> trimmed_nonempty (response_body r)
             | InHeader _ \<Rightarrow> required_response_header (first_of (occurrences s hs SlotCipher))) (\<lambda>ciph.
      bindR (case authentication s of
               HeaderLegacy \<Rightarrow> Inr AuthenticationContext_legacy
             | HeaderContextBound \<Rightarrow>
                 bindR (ok_or (adapter_error MissingField) (first_of (occurrences s hs SlotRequestId))) (\<lambda>value.
                 bindR (map_err (\<lambda>_. adapter_error InvalidField) (HeaderValue_new value)) (\<lambda>_.
                 encode_response_context value))) (\<lambda>ctx.
      ParsedResponse_new
        \<lparr>cipher = ciph, wrapped_session_key = wrapped, signature = sig\<rparr> cert ctx))))))"
  by (simp only: HeaderProtocolAdapter_parse_response_def ResponseParts_into_parts_def Let_def
      prod.case fill_slots_eq if_distrib [of "\<lambda>r. bindR r f" for f] bindR_simps)

lemma parse_response_perm:
  assumes "mset hs = mset hs'"
  shows "HeaderProtocolAdapter_parse_response a (ResponseParts_new hs b) =
    HeaderProtocolAdapter_parse_response a (ResponseParts_new hs' b)"
proof (cases "\<exists>t. 1 < length (occurrences (schema a) hs t)")
  case True
  then have "\<exists>t. 1 < length (occurrences (schema a) hs' t)"
    using occurrences_length_perm [OF assms] by simp
  with True show ?thesis by (simp add: parse_response_slots ResponseParts_new_def Let_def)
next
  case False
  have "occurrences (schema a) hs' = occurrences (schema a) hs"
    using occurrences_perm [OF assms] False by (intro ext) (simp add: not_less)
  then show ?thesis
    by (simp only: parse_response_slots ResponseParts_new_def Let_def ResponseParts.select_convs)
qed

text \<open>A usable header field of a response.\<close>

definition field_ok :: "str \<Rightarrow> bool" where
  "field_ok v \<longleftrightarrow> valid_value v \<and> trim v \<noteq> []"

lemma required_response_header_iff:
  "required_response_header x = Inr u \<longleftrightarrow> (\<exists>v. x = Some v \<and> field_ok v \<and> u = trim v)"
  by (auto simp: required_response_header_def trimmed_nonempty_def bindR_eq_Inr HeaderValue_new_iff
      field_ok_def)

lemma trimmed_nonempty_iff: "trimmed_nonempty v = Inr u \<longleftrightarrow> trim v \<noteq> [] \<and> u = trim v"
  by (auto simp: trimmed_nonempty_def)

lemma valid_value_trim: "valid_value v \<Longrightarrow> valid_value (trim v)"
  using set_trim by (fastforce simp: valid_value_def)

lemma valid_value_no_break: "valid_value v \<Longrightarrow> \<not> contains_any [13, 10] v"
  by (auto simp: valid_value_def contains_any_iff is_disallowed_value_character_def)

lemma ParsedResponse_new_ok:
  "field_ok v \<Longrightarrow> ParsedResponse_new env (trim v) ctx =
     Inr \<lparr>envelope = env, remote_signing_certificate_id = trim v, authentication_context = ctx\<rparr>"
  by (simp add: ParsedResponse_new_def field_ok_def valid_value_no_break valid_value_trim)

section \<open>Context encodings\<close>

lemma push_length_prefixed_iff:
  "push_length_prefixed v t = (Inr (), t') \<longleftrightarrow> (\<exists>x. len_prefixed (as_bytes v) = Some x \<and> t' = t @ x)"
  by (auto simp: push_length_prefixed_def len_prefixed_def str_len_def split: option.splits)

lemma push_length_prefixed_err:
  "push_length_prefixed v t = (Inl e, t') \<Longrightarrow> e = AdapterError InvalidField"
  by (auto simp: push_length_prefixed_def adapter_error_def AdapterError_new_def split: option.splits)

definition exact_value :: "str \<Rightarrow> bool" where
  "exact_value v \<longleftrightarrow> v \<noteq> [] \<and> trim v = v"

lemma require_exact_trim_eq:
  "require_exact_trim v = (if exact_value v then Inr v else Inl (AdapterError InvalidField))"
  by (auto simp: require_exact_trim_def exact_value_def adapter_error_def AdapterError_new_def)

lemma bound_context_Cons: "bound_context (b # bs) = Inr (AuthenticationContext (Bound (b # bs)))"
  by (simp add: bound_context_def AuthenticationContext_context_bound_def)

lemma vec_push_apply [simp]: "vec_push b t = (Inr (), t @ [b])"
  by (simp add: vec_push_def)

lemma encode_request_context_iff:
  "encode_request_context op rid = Inr c \<longleftrightarrow> exact_value op \<and> exact_value rid \<and>
     (\<exists>x y. len_prefixed (as_bytes op) = Some x \<and> len_prefixed (as_bytes rid) = Some y \<and>
        c = AuthenticationContext (Bound ([1, 1] @ x @ y)))"
  by (auto simp: encode_request_context_def bindR_eq_Inr require_exact_trim_eq run_local_eq_Inr
      bindW_eq_Inr push_length_prefixed_iff bound_context_Cons HEADER_CONTEXT_VERSION_def
      HEADER_CONTEXT_REQUEST_def split: if_splits)

lemma encode_response_context_iff:
  "encode_response_context rid = Inr c \<longleftrightarrow> exact_value rid \<and>
     (\<exists>y. len_prefixed (as_bytes rid) = Some y \<and> c = AuthenticationContext (Bound ([1, 2] @ y)))"
  by (auto simp: encode_response_context_def bindR_eq_Inr require_exact_trim_eq run_local_eq_Inr
      bindW_eq_Inr push_length_prefixed_iff bound_context_Cons HEADER_CONTEXT_VERSION_def
      HEADER_CONTEXT_RESPONSE_def split: if_splits)

lemma encode_request_inject:
  assumes "str_ok op" "str_ok rid" "str_ok op'" "str_ok rid'"
    and "encode_request_context op rid = Inr c" "encode_request_context op' rid' = Inr c"
  shows "op = op' \<and> rid = rid'"
proof -
  obtain x y x' y' where
    "len_prefixed (as_bytes op) = Some x" "len_prefixed (as_bytes rid) = Some y"
    "len_prefixed (as_bytes op') = Some x'" "len_prefixed (as_bytes rid') = Some y'" "x @ y = x' @ y'"
    using assms(5,6) by (auto simp: encode_request_context_iff)
  then have "as_bytes op = as_bytes op'" "as_bytes rid = as_bytes rid'"
    using lp.enc_split lp.enc_inject by blast+
  then show ?thesis using assms(1-4) by (simp add: as_bytes_inject)
qed

lemma encode_response_inject:
  assumes "str_ok rid" "str_ok rid'"
    and "encode_response_context rid = Inr c" "encode_response_context rid' = Inr c"
  shows "rid = rid'"
proof -
  have "as_bytes rid = as_bytes rid'"
    using assms(3,4) lp.enc_inject by (auto simp: encode_response_context_iff)
  then show ?thesis using assms(1,2) by (simp add: as_bytes_inject)
qed

section \<open>The interface of a pinned adapter\<close>

text \<open>The kind of a context.\<close>

fun kind_of :: "AuthenticationContext \<Rightarrow> AdapterAuthentication" where
  "kind_of (AuthenticationContext Legacy) = PinLegacyPlaintext"
| "kind_of (AuthenticationContext (Bound _)) = PinContextBound"

locale pinned_adapter =
  fixes adapter :: ProtocolAdapter
  assumes request_kind:
    "pinned_authentication adapter = Some k \<Longrightarrow>
     request_authentication_context adapter i c = Inr x \<Longrightarrow> kind_of x = k"
  and response_kind:
    "pinned_authentication adapter = Some k \<Longrightarrow>
     parse_response adapter r = Inr p \<Longrightarrow> kind_of (authentication_context p) = k"

lemma parse_response_context:
  assumes "HeaderProtocolAdapter_parse_response a r = Inr p"
  shows "(case authentication (schema a) of
     HeaderLegacy \<Rightarrow> authentication_context p = AuthenticationContext Legacy
   | HeaderContextBound \<Rightarrow> \<exists>rid. encode_response_context rid = Inr (authentication_context p))"
  using assms
  by (auto simp: parse_response_slots Let_def bindR_eq_Inr ParsedResponse_new_def
      AuthenticationContext_legacy_def split: if_splits HeaderAuthentication.splits)

interpretation ha: pinned_adapter "header_adapter a" for a
proof unfold_locales
  fix k i c x
  assume "pinned_authentication (header_adapter a) = Some k"
    "request_authentication_context (header_adapter a) i c = Inr x"
  then show "kind_of x = k"
    by (auto simp: header_adapter_def HeaderProtocolAdapter_pinned_authentication_def
        HeaderProtocolAdapter_request_authentication_context_def AuthenticationContext_legacy_def
        encode_request_context_iff split: HeaderAuthentication.splits)
next
  fix k r p
  assume "pinned_authentication (header_adapter a) = Some k"
    "parse_response (header_adapter a) r = Inr p"
  then show "kind_of (authentication_context p) = k"
    using parse_response_context [of a r p]
    by (auto simp: header_adapter_def HeaderProtocolAdapter_pinned_authentication_def
        encode_response_context_iff split: HeaderAuthentication.splits)
qed

section \<open>Parsing, exactly\<close>

text \<open>The Base64 text of the cipher field, from the configured place.\<close>

definition response_cipher_text :: "HeaderSchema \<Rightarrow> ResponseParts \<Rightarrow> str \<Rightarrow> bool" where
  "response_cipher_text s r c \<longleftrightarrow>
     (case response_cipher s of
        Body \<Rightarrow> trim (response_body r) \<noteq> [] \<and> c = trim (response_body r)
      | InHeader _ \<Rightarrow> \<exists>v. occurrences s (response_headers r) SlotCipher = [v] \<and> field_ok v \<and> c = trim v)"

definition response_context :: "HeaderSchema \<Rightarrow> ResponseParts \<Rightarrow> AuthenticationContext \<Rightarrow> bool" where
  "response_context s r x \<longleftrightarrow>
     (case authentication s of
        HeaderLegacy \<Rightarrow> x = AuthenticationContext Legacy
      | HeaderContextBound \<Rightarrow> \<exists>rid. occurrences s (response_headers r) SlotRequestId = [rid] \<and>
          valid_value rid \<and> encode_response_context rid = Inr x)"

lemma unused_slots:
  "authentication s = HeaderLegacy \<Longrightarrow> occurrences s hs SlotRequestId = []"
  "response_cipher s = Body \<Longrightarrow> occurrences s hs SlotCipher = []"
  by (auto simp: occurrences_def response_target_def filter_empty_conv split: CipherLocation.splits)

lemma first_of_Some: "first_of xs = Some x \<longleftrightarrow> (\<exists>ys. xs = x # ys)"
  by (cases xs) (auto simp: first_of_def)

lemma first_of_single: "length xs \<le> 1 \<Longrightarrow> first_of xs = Some x \<longleftrightarrow> xs = [x]"
  by (cases xs) (auto simp: first_of_def)

lemma parse_response_iff:
  "HeaderProtocolAdapter_parse_response a r = Inr p \<longleftrightarrow>
    (\<exists>sig key cert ciph ctx.
       occurrences (schema a) (response_headers r) SlotSignature = [sig] \<and> field_ok sig \<and>
       occurrences (schema a) (response_headers r) SlotWrappedKey = [key] \<and> field_ok key \<and>
       occurrences (schema a) (response_headers r) SlotCertificate = [cert] \<and> field_ok cert \<and>
       response_cipher_text (schema a) r ciph \<and> response_context (schema a) r ctx \<and>
       p = \<lparr>envelope = \<lparr>cipher = ciph, wrapped_session_key = trim key, signature = trim sig\<rparr>,
            remote_signing_certificate_id = trim cert, authentication_context = ctx\<rparr>)"
  (is "?l \<longleftrightarrow> ?r")
proof
  let ?occ = "occurrences (schema a) (response_headers r)"
  assume ?l
  then have one: "\<forall>t. length (?occ t) \<le> 1"
    by (auto simp: parse_response_slots Let_def not_less split: if_splits)
  note single = first_of_single [OF one [rule_format]]
  from \<open>?l\<close> obtain sig key cert ciph ctx where
    "?occ SlotSignature = [sig]" "field_ok sig" "?occ SlotWrappedKey = [key]" "field_ok key"
    "?occ SlotCertificate = [cert]" "field_ok cert"
    and ciph: "(case response_cipher (schema a) of Body \<Rightarrow> trimmed_nonempty (response_body r)
       | InHeader _ \<Rightarrow> required_response_header (first_of (?occ SlotCipher))) = Inr ciph"
    and ctx: "(case authentication (schema a) of HeaderLegacy \<Rightarrow> Inr AuthenticationContext_legacy
       | HeaderContextBound \<Rightarrow>
         bindR (ok_or (adapter_error MissingField) (first_of (?occ SlotRequestId))) (\<lambda>value.
         bindR (map_err (\<lambda>_. adapter_error InvalidField) (HeaderValue_new value)) (\<lambda>_.
         encode_response_context value))) = Inr ctx"
    and p: "p = \<lparr>envelope = \<lparr>cipher = ciph, wrapped_session_key = trim key, signature = trim sig\<rparr>,
            remote_signing_certificate_id = trim cert, authentication_context = ctx\<rparr>"
    by (auto simp: parse_response_slots Let_def bindR_eq_Inr required_response_header_iff single
        ParsedResponse_new_ok split: if_splits)
  moreover have "response_cipher_text (schema a) r ciph"
    using ciph by (auto simp: response_cipher_text_def trimmed_nonempty_iff
        required_response_header_iff single split: CipherLocation.splits)
  moreover have "response_context (schema a) r ctx"
    using ctx by (auto simp: response_context_def bindR_eq_Inr single HeaderValue_new_iff
        AuthenticationContext_legacy_def split: HeaderAuthentication.splits)
  ultimately show ?r by blast
next
  let ?occ = "occurrences (schema a) (response_headers r)"
  assume ?r
  then obtain sig key cert ciph ctx where f:
    "?occ SlotSignature = [sig]" "field_ok sig" "?occ SlotWrappedKey = [key]" "field_ok key"
    "?occ SlotCertificate = [cert]" "field_ok cert"
    "response_cipher_text (schema a) r ciph" "response_context (schema a) r ctx"
    and p: "p = \<lparr>envelope = \<lparr>cipher = ciph, wrapped_session_key = trim key, signature = trim sig\<rparr>,
            remote_signing_certificate_id = trim cert, authentication_context = ctx\<rparr>"
    by blast
  have "\<not> 1 < length (?occ t)" for t
    using f unused_slots [of "schema a" "response_headers r"]
    by (cases t; cases "response_cipher (schema a)"; cases "authentication (schema a)")
      (auto simp: response_cipher_text_def response_context_def)
  then have dup: "\<not> (\<exists>t. 1 < length (?occ t))" by blast
  have firsts: "required_response_header (first_of (?occ SlotSignature)) = Inr (trim sig)"
    "required_response_header (first_of (?occ SlotWrappedKey)) = Inr (trim key)"
    "required_response_header (first_of (?occ SlotCertificate)) = Inr (trim cert)"
    using f by (simp_all add: required_response_header_iff first_of_def)
  have ciph: "(case response_cipher (schema a) of Body \<Rightarrow> trimmed_nonempty (response_body r)
       | InHeader _ \<Rightarrow> required_response_header (first_of (?occ SlotCipher))) = Inr ciph"
    using f(7) by (auto simp: response_cipher_text_def trimmed_nonempty_iff
        required_response_header_iff first_of_def split: CipherLocation.splits)
  have ctx: "(case authentication (schema a) of HeaderLegacy \<Rightarrow> Inr AuthenticationContext_legacy
       | HeaderContextBound \<Rightarrow>
         bindR (ok_or (adapter_error MissingField) (first_of (?occ SlotRequestId))) (\<lambda>value.
         bindR (map_err (\<lambda>_. adapter_error InvalidField) (HeaderValue_new value)) (\<lambda>_.
         encode_response_context value))) = Inr ctx"
    using f(8) by (auto simp: response_context_def bindR_eq_Inr first_of_def HeaderValue_new_iff
        AuthenticationContext_legacy_def split: HeaderAuthentication.splits)
  show ?l
    using dup f(6) p
    by (simp only: parse_response_slots Let_def if_False firsts ciph ctx bindR_simps
        ParsedResponse_new_ok)
qed

lemma required_response_header_err:
  "required_response_header x = Inl e \<Longrightarrow>
     e = AdapterError (if x = None then MissingField else InvalidField)"
  by (auto simp: required_response_header_def trimmed_nonempty_def bindR_eq_Inl ok_or_eq_Inl
      map_err_eq_Inl adapter_error_def AdapterError_new_def split: if_splits)

lemma encode_response_context_err:
  "encode_response_context rid = Inl e \<Longrightarrow> e = AdapterError InvalidField"
  by (auto simp: encode_response_context_def bindR_eq_Inl require_exact_trim_eq run_local_eq_Inl
      bindW_eq_Inl bound_context_def map_err_eq_Inl adapter_error_def AdapterError_new_def
      split: if_splits dest: push_length_prefixed_err)

lemma parse_response_err:
  assumes "HeaderProtocolAdapter_parse_response a r = Inl e"
  shows "e = AdapterError
    (if \<exists>t. 1 < length (occurrences (schema a) (response_headers r) t) then DuplicateField
     else if e = AdapterError MissingField then MissingField else InvalidField)"
proof -
  have *: "required_response_header x = Inl e \<Longrightarrow>
      e = AdapterError MissingField \<or> e = AdapterError InvalidField" for x
    by (auto dest: required_response_header_err split: if_splits)
  show ?thesis
  proof (cases "\<exists>t. 1 < length (occurrences (schema a) (response_headers r) t)")
    case True
    with assms show ?thesis by (simp add: parse_response_slots Let_def)
  next
    case False
    have "e = AdapterError MissingField \<or> e = AdapterError InvalidField"
      using assms
      unfolding parse_response_slots Let_def if_not_P [OF False]
      by (auto simp: bindR_eq_Inl ParsedResponse_new_def trimmed_nonempty_def ok_or_eq_Inl
          map_err_eq_Inl adapter_error_def AdapterError_new_def
          split: if_splits CipherLocation.splits HeaderAuthentication.splits
          dest!: * encode_response_context_err)
    with False show ?thesis by auto
  qed
qed

section \<open>Properties\<close>

text \<open>
  Property C21: a schema is built only with at least one usable static header, well-formed
  names, and no two request fields and no two response fields under one name in any
  casing; a missing or unusable mapping is the only other outcome. Conversely the fluent
  chain of setters rebuilds every such schema.
\<close>

theorem schema_build_invariant:
  assumes "locations_typed b"
  shows "(\<forall>s. HeaderSchemaBuilder_build b = Inr s \<longrightarrow> schema_ok s) \<and>
    (\<forall>e. HeaderSchemaBuilder_build b = Inl e \<longrightarrow>
       e = AdapterError MissingField \<or> e = AdapterError InvalidMapping) \<and>
    (schema_ok t \<longrightarrow> HeaderSchemaBuilder_build (describe t) = Inr t)"
  using schema_build_ok [OF assms] schema_build_err schema_build_describe by blast

definition hname :: "string \<Rightarrow> HeaderName" where
  "hname s = HeaderName (lit s) (to_ascii_lowercase (lit s))"

definition sample_schema :: "HeaderAuthentication \<Rightarrow> HeaderSchema" where
  "sample_schema auth =
     \<lparr>static_request_headers = [(hname ''T'', HeaderValue (lit ''x''))],
      local_identity_header = hname ''Id'', operation_header = hname ''Op'',
      request_id_header = hname ''Rid'', request_time_header = hname ''Rt'',
      api_version_header = hname ''Av'', local_certificate_header = hname ''Lc'',
      remote_signing_certificate_header = hname ''Rc'',
      remote_encryption_certificate_header = hname ''Ec'', request_signature_header = hname ''Sg'',
      request_wrapped_key_header = hname ''Wk'', request_cipher = InHeader (hname ''Ci''),
      response_signature_header = hname ''Sg'', response_wrapped_key_header = hname ''Wk'',
      response_remote_signing_certificate_header = hname ''Rc'', response_cipher = Body,
      authentication = auth\<rparr>"

lemmas sample_schema_eval = sample_schema_def hname_def header_eval

lemma sample_schema_ok: "schema_ok (sample_schema auth)"
  by (cases auth)
    (simp_all add: schema_ok_def sample_schema_eval static_value_ok_def request_names_def
      response_names_def name_ok_def trim_def trim_start_def trim_end_def is_whitespace_def)

theorem schema_build_invariant_witness:
  "locations_typed (describe (sample_schema HeaderContextBound)) \<and>
   HeaderSchemaBuilder_build (describe (sample_schema HeaderContextBound)) =
     Inr (sample_schema HeaderContextBound)"
proof -
  have "locations_typed (describe (sample_schema HeaderContextBound))"
    by (simp add: locations_typed_def describe_def fold_static schema_setter_defs
        sample_schema_eval name_ok_def)
  then show ?thesis using schema_build_invariant sample_schema_ok by blast
qed

text \<open>
  A request built by the schema adapter carries every semantic field under
  exactly the header its schema names, the static headers as configured, the cipher text
  in the configured place, and no further header.
\<close>

lemma request_carries_every_field:
  assumes "schema_ok (schema a)" "HeaderProtocolAdapter_build_request a ident ctx env = Inr p"
  shows "let s = schema a in
    list_all (\<lambda>(h, v). RequestParts_header p (original h) = Some v)
      [(local_identity_header s, local_identity_id ident), (operation_header s, operation ctx),
       (request_id_header s, request_id (metadata ctx)),
       (request_time_header s, request_time (metadata ctx)),
       (api_version_header s, api_version ident),
       (local_certificate_header s, local_certificate_id ident),
       (remote_signing_certificate_header s, expected_remote_signing_certificate_id ident),
       (remote_encryption_certificate_header s, remote_encryption_certificate_id ident),
       (request_signature_header s, signature env),
       (request_wrapped_key_header s, wrapped_session_key env)] \<and>
    list_all (\<lambda>(h, v). RequestParts_header p (original h) = Some (value_str v))
      (static_request_headers s) \<and>
    (case request_cipher s of
       Body \<Rightarrow> body p = cipher env
     | InHeader h \<Rightarrow> body p = [] \<and> RequestParts_header p (original h) = Some (cipher env)) \<and>
    RequestParts_len p = length (request_names s)"
proof -
  let ?ps = "request_pairs (schema a) ident ctx env"
  have ok: "HeaderCollection_from_pairs ?ps = Inr \<lparr>entries = map entry_of ?ps\<rparr>"
    and p: "p = \<lparr>headers = \<lparr>entries = map entry_of ?ps\<rparr>, body = request_body (schema a) env\<rparr>"
    using assms by (auto simp: build_request_eq request_collection split: if_splits)
  have get: "RequestParts_header p n = Some v" if "(n, v) \<in> set ?ps" for n v
    unfolding p by (rule parts_header_of_pairs [OF ok that]) simp
  have len: "RequestParts_len p = length (request_names (schema a))"
    using map_fst_request_pairs [of "schema a" ident ctx env]
    by (simp add: p RequestParts_len_def HeaderCollection_len_def) (metis length_map)
  have bdy: "body p = request_body (schema a) env" by (simp add: p)
  have stat: "list_all (\<lambda>(h, v). RequestParts_header p (original h) = Some (value_str v))
      (static_request_headers (schema a))"
    unfolding list_all_iff
  proof (intro ballI, clarify)
    fix h v assume "(h, v) \<in> set (static_request_headers (schema a))"
    then have "pair_of (h, v) \<in> set ?ps" unfolding request_pairs_def set_append set_map by blast
    then show "RequestParts_header p (original h) = Some (value_str v)"
      by (intro get) (simp add: pair_of_def)
  qed
  have fields: "list_all (\<lambda>(h, v). RequestParts_header p (original h) = Some v) hs"
    if "list_all (\<lambda>(h, v). (original h, v) \<in> set ?ps) hs" for hs
    using that get by (auto simp: list_all_iff)
  have ciph: "case request_cipher (schema a) of
       Body \<Rightarrow> body p = cipher env
     | InHeader h \<Rightarrow> body p = [] \<and> RequestParts_header p (original h) = Some (cipher env)"
    using bdy
    by (cases "request_cipher (schema a)") (simp_all add: request_body_def get request_pairs_def)
  show ?thesis
    unfolding Let_def by (intro conjI fields stat ciph len) (simp add: request_pairs_def)
qed


text \<open>
  The order in which a transport delivers the response headers does not
  matter: reordering them changes neither the parsed response nor the error.
\<close>

lemma parse_response_order_free:
  assumes "mset hs = mset hs'"
  shows "HeaderProtocolAdapter_parse_response a (ResponseParts_new hs b) =
    HeaderProtocolAdapter_parse_response a (ResponseParts_new hs' b)"
  using assms by (rule parse_response_perm)

text \<open>
  The authentication contexts of the schema adapter are unambiguous. A
  request context determines operation and request identifier, a response context
  determines the request identifier, and no request context is a response context, so a
  signed request cannot be replayed as a response.
\<close>

lemma contexts_unambiguous:
  assumes "str_ok op" "str_ok rid" "str_ok op'" "str_ok rid'"
    and "encode_request_context op rid = Inr x" "encode_response_context rid = Inr y"
  shows "(encode_request_context op' rid' = Inr x \<longrightarrow> op' = op \<and> rid' = rid) \<and>
    (encode_response_context rid' = Inr y \<longrightarrow> rid' = rid) \<and>
    encode_response_context rid' \<noteq> Inr x \<and> encode_request_context op' rid' \<noteq> Inr y"
  using encode_request_inject [of op rid op' rid' x] encode_response_inject [of rid rid' y] assms
  by (auto simp: encode_request_context_iff encode_response_context_iff)

end
