(* ===== verification/Keys.thy ===== *)
theory Keys
  imports Errors
begin

text \<open>
  \<^verbatim>\<open>src/keys.rs\<close>: loading of private and peer keys and their assignment to the four
  directional roles. The container codecs and the key encodings of \<^verbatim>\<open>gmcrypto_core\<close>, and the
  file system, are parameters. \<^verbatim>\<open>to_sec1_uncompressed\<close> panics on the identity point, so it
  returns an option, and a panic of its caller is \<open>None\<close>. The lemmas give every loader's
  result on all branches, the order in which files are read, and the role rules.
\<close>

section \<open>Parameters\<close>

record ('sk, 'pk, 'cert) key_lib =
  pem_decode :: "str \<Rightarrow> string \<Rightarrow> bytes option"
  pkcs8_decrypt :: "bytes \<Rightarrow> bytes \<Rightarrow> 'sk option"
  spki_decode :: "bytes \<Rightarrow> 'pk option"
  x509_from_der :: "bytes \<Rightarrow> 'cert option"
  subject_public_key :: "'cert \<Rightarrow> 'pk"
  to_bytes_be :: "'sk \<Rightarrow> bytes"
  to_sec1_uncompressed :: "'pk \<Rightarrow> bytes option"

text \<open>
  \<^verbatim>\<open>std::fs::read\<close>. A path is its text.
\<close>

type_synonym 'w read_fn = "str \<Rightarrow> 'w \<Rightarrow> (bytes, io_error) result \<times> 'w"

text \<open>
  What the source relies on, by its own comment: the loaders reject the identity point, so
  the keys they return have a SEC1 encoding. Encodings of keys are faithful.
\<close>

definition loaders_reject_identity :: "('sk, 'pk, 'cert) key_lib \<Rightarrow> bool" where
  "loaders_reject_identity L \<longleftrightarrow>
     (\<forall>d k. spki_decode L d = Some k \<longrightarrow> to_sec1_uncompressed L k \<noteq> None) \<and>
     (\<forall>d c. x509_from_der L d = Some c \<longrightarrow> to_sec1_uncompressed L (subject_public_key L c) \<noteq> None)"

definition key_encodings_faithful :: "('sk, 'pk, 'cert) key_lib \<Rightarrow> bool" where
  "key_encodings_faithful L \<longleftrightarrow> inj (to_bytes_be L) \<and>
     (\<forall>a b s. to_sec1_uncompressed L a = Some s \<longrightarrow> to_sec1_uncompressed L b = Some s \<longrightarrow> a = b)"

section \<open>Text tests\<close>

text \<open>\<^verbatim>\<open>str::contains(&str)\<close> and \<^verbatim>\<open><[u8]>::starts_with\<close>.\<close>

fun str_contains :: "str \<Rightarrow> str \<Rightarrow> bool" where
  "str_contains [] pat \<longleftrightarrow> pat = []"
| "str_contains (c # s) pat \<longleftrightarrow> take (length pat) (c # s) = pat \<or> str_contains s pat"

definition starts_with :: "bytes \<Rightarrow> bytes \<Rightarrow> bool" where
  "starts_with s pat \<longleftrightarrow> take (length pat) s = pat"

definition is_pem :: "bytes \<Rightarrow> bool" where
  "is_pem input = starts_with input (blit ''-----BEGIN '')"

section \<open>Key types\<close>

datatype PeerKeySource = Spki | Certificate

datatype 'sk PrivateKey = PrivateKey (private_inner: 'sk)

record 'pk PublicKey =
  inner :: 'pk
  source :: PeerKeySource

record ('sk, 'pk) KeyMaterial =
  local_signing :: 'sk
  local_decryption :: 'sk
  remote_verification :: 'pk
  remote_encryption :: 'pk
  remote_verification_source :: PeerKeySource
  remote_encryption_source :: PeerKeySource
  shared_roles :: bool

definition private_key_error :: Error where
  "private_key_error = KeyMaterialError LocalPrivate"

definition public_key_error :: Error where
  "public_key_error = KeyMaterialError PeerPublic"

section \<open>Loaders\<close>

definition PrivateKey_from_encrypted_der ::
  "('sk, 'pk, 'cert) key_lib \<Rightarrow> bytes \<Rightarrow> bytes \<Rightarrow> 'sk PrivateKey Result" where
  "PrivateKey_from_encrypted_der L private_der password =
     bindR (ok_or private_key_error (pkcs8_decrypt L private_der password)) (\<lambda>k.
     Inr (PrivateKey k))"

definition PrivateKey_from_encrypted_pem ::
  "('sk, 'pk, 'cert) key_lib \<Rightarrow> bytes \<Rightarrow> bytes \<Rightarrow> 'sk PrivateKey Result" where
  "PrivateKey_from_encrypted_pem L private_pem password =
     bindR (ok_or private_key_error (from_utf8 private_pem)) (\<lambda>private_text.
     bindR (ok_or private_key_error (pem_decode L private_text ''ENCRYPTED PRIVATE KEY'')) (\<lambda>private_der.
     PrivateKey_from_encrypted_der L private_der password))"

text \<open>\<^verbatim>\<open>fs::read(path).map_err(|source| Error::Io { operation, path, source })\<close>.\<close>

definition read_file :: "'w read_fn \<Rightarrow> string \<Rightarrow> str \<Rightarrow> ('w, bytes, Error) effect" where
  "read_file rd op path = (\<lambda>w. (case rd path w of (r, w') \<Rightarrow> (map_err (Io op path) r, w')))"

definition parse_private ::
  "('sk, 'pk, 'cert) key_lib \<Rightarrow> bytes \<Rightarrow> bytes \<Rightarrow> 'sk PrivateKey Result" where
  "parse_private L private password =
     (if is_pem private then PrivateKey_from_encrypted_pem L private password
      else PrivateKey_from_encrypted_der L private password)"

definition PrivateKey_from_encrypted_file ::
  "('sk, 'pk, 'cert) key_lib \<Rightarrow> 'w read_fn \<Rightarrow> str \<Rightarrow> bytes \<Rightarrow> ('w, 'sk PrivateKey, Error) effect" where
  "PrivateKey_from_encrypted_file L rd path password =
     bindW (read_file rd ''read private key'' path) (\<lambda>private.
     liftW (parse_private L private password))"

definition PublicKey_from_spki_der :: "('sk, 'pk, 'cert) key_lib \<Rightarrow> bytes \<Rightarrow> 'pk PublicKey Result" where
  "PublicKey_from_spki_der L public_der =
     bindR (ok_or public_key_error (spki_decode L public_der)) (\<lambda>k.
     Inr \<lparr>inner = k, source = Spki\<rparr>)"

definition PublicKey_from_certificate_der ::
  "('sk, 'pk, 'cert) key_lib \<Rightarrow> bytes \<Rightarrow> 'pk PublicKey Result" where
  "PublicKey_from_certificate_der L certificate_der =
     bindR (ok_or public_key_error (x509_from_der L certificate_der)) (\<lambda>c.
     Inr \<lparr>inner = subject_public_key L c, source = Certificate\<rparr>)"

definition PublicKey_from_pem :: "('sk, 'pk, 'cert) key_lib \<Rightarrow> bytes \<Rightarrow> 'pk PublicKey Result" where
  "PublicKey_from_pem L public_pem =
     bindR (ok_or public_key_error (from_utf8 public_pem)) (\<lambda>public_text.
     if str_contains public_text (lit ''-----BEGIN PUBLIC KEY-----'')
     then bindR (ok_or public_key_error (pem_decode L public_text ''PUBLIC KEY''))
            (PublicKey_from_spki_der L)
     else if str_contains public_text (lit ''-----BEGIN CERTIFICATE-----'')
     then bindR (ok_or public_key_error (pem_decode L public_text ''CERTIFICATE''))
            (PublicKey_from_certificate_der L)
     else Inl public_key_error)"

definition PublicKey_from_der :: "('sk, 'pk, 'cert) key_lib \<Rightarrow> bytes \<Rightarrow> 'pk PublicKey Result" where
  "PublicKey_from_der L public_der =
     (case spki_decode L public_der of
        Some k \<Rightarrow> Inr \<lparr>inner = k, source = Spki\<rparr>
      | None \<Rightarrow>
     (case x509_from_der L public_der of
        Some c \<Rightarrow> Inr \<lparr>inner = subject_public_key L c, source = Certificate\<rparr>
      | None \<Rightarrow> Inl public_key_error))"

definition parse_public :: "('sk, 'pk, 'cert) key_lib \<Rightarrow> bytes \<Rightarrow> 'pk PublicKey Result" where
  "parse_public L public =
     (if is_pem public then PublicKey_from_pem L public else PublicKey_from_der L public)"

definition PublicKey_from_file ::
  "('sk, 'pk, 'cert) key_lib \<Rightarrow> 'w read_fn \<Rightarrow> str \<Rightarrow> ('w, 'pk PublicKey, Error) effect" where
  "PublicKey_from_file L rd path =
     bindW (read_file rd ''read peer key'' path) (\<lambda>public. liftW (parse_public L public))"

section \<open>Roles\<close>

definition private_roles_overlap :: "('sk, 'pk, 'cert) key_lib \<Rightarrow> 'sk \<Rightarrow> 'sk \<Rightarrow> bool" where
  "private_roles_overlap L a b \<longleftrightarrow> to_bytes_be L a = to_bytes_be L b"

definition public_roles_overlap :: "('sk, 'pk, 'cert) key_lib \<Rightarrow> 'pk \<Rightarrow> 'pk \<Rightarrow> bool option" where
  "public_roles_overlap L a b =
     Option.bind (to_sec1_uncompressed L a) (\<lambda>x.
     Option.bind (to_sec1_uncompressed L b) (\<lambda>y. Some (x = y)))"

definition KeyMaterial_new ::
  "('sk, 'pk, 'cert) key_lib \<Rightarrow> 'sk PrivateKey \<Rightarrow> 'sk PrivateKey \<Rightarrow> 'pk PublicKey \<Rightarrow> 'pk PublicKey \<Rightarrow>
    ('sk, 'pk) KeyMaterial Result option" where
  "KeyMaterial_new L ls ld rv re =
     (if private_roles_overlap L (private_inner ls) (private_inner ld)
      then Some (Inl (Configuration ''key_roles''))
      else Option.bind (public_roles_overlap L (inner rv) (inner re)) (\<lambda>overlap.
        if overlap then Some (Inl (Configuration ''key_roles''))
        else Some (Inr
          \<lparr>local_signing = private_inner ls, local_decryption = private_inner ld,
           remote_verification = inner rv, remote_encryption = inner re,
           remote_verification_source = source rv, remote_encryption_source = source re,
           shared_roles = False\<rparr>)))"

definition KeyMaterial_shared :: "'sk PrivateKey \<Rightarrow> 'pk PublicKey \<Rightarrow> ('sk, 'pk) KeyMaterial" where
  "KeyMaterial_shared l r =
     \<lparr>local_signing = private_inner l, local_decryption = private_inner l,
      remote_verification = inner r, remote_encryption = inner r,
      remote_verification_source = source r, remote_encryption_source = source r,
      shared_roles = True\<rparr>"

definition KeyMaterial_shared_from_pem ::
  "('sk, 'pk, 'cert) key_lib \<Rightarrow> bytes \<Rightarrow> bytes \<Rightarrow> bytes \<Rightarrow> ('sk, 'pk) KeyMaterial Result" where
  "KeyMaterial_shared_from_pem L private_pem password peer_pem =
     bindR (PrivateKey_from_encrypted_pem L private_pem password) (\<lambda>l.
     bindR (PublicKey_from_pem L peer_pem) (\<lambda>r. Inr (KeyMaterial_shared l r)))"

definition KeyMaterial_shared_from_der ::
  "('sk, 'pk, 'cert) key_lib \<Rightarrow> bytes \<Rightarrow> bytes \<Rightarrow> bytes \<Rightarrow> ('sk, 'pk) KeyMaterial Result" where
  "KeyMaterial_shared_from_der L private_der password peer_der =
     bindR (PrivateKey_from_encrypted_der L private_der password) (\<lambda>l.
     bindR (PublicKey_from_der L peer_der) (\<lambda>r. Inr (KeyMaterial_shared l r)))"

definition KeyMaterial_shared_from_files ::
  "('sk, 'pk, 'cert) key_lib \<Rightarrow> 'w read_fn \<Rightarrow> str \<Rightarrow> bytes \<Rightarrow> str \<Rightarrow>
    ('w, ('sk, 'pk) KeyMaterial, Error) effect" where
  "KeyMaterial_shared_from_files L rd private_path password peer_path =
     bindW (read_file rd ''read private key'' private_path) (\<lambda>private.
     bindW (read_file rd ''read peer key'' peer_path) (\<lambda>peer.
     bindW (liftW (parse_private L private password)) (\<lambda>l.
     bindW (liftW (parse_public L peer)) (\<lambda>r.
     liftW (Inr (KeyMaterial_shared l r))))))"

section \<open>Loader lemmas\<close>

lemmas private_loader_defs =
  parse_private_def PrivateKey_from_encrypted_pem_def PrivateKey_from_encrypted_der_def

lemmas public_loader_defs =
  parse_public_def PublicKey_from_pem_def PublicKey_from_der_def PublicKey_from_spki_der_def
  PublicKey_from_certificate_der_def

lemma private_pem_err:
  "PrivateKey_from_encrypted_pem L x pw = Inl e \<Longrightarrow> e = KeyMaterialError LocalPrivate"
  by (auto simp: private_loader_defs private_key_error_def bindR_eq_Inl ok_or_eq_Inl)

lemma private_der_err:
  "PrivateKey_from_encrypted_der L x pw = Inl e \<Longrightarrow> e = KeyMaterialError LocalPrivate"
  by (auto simp: private_loader_defs private_key_error_def bindR_eq_Inl ok_or_eq_Inl)

lemma public_pem_err: "PublicKey_from_pem L x = Inl e \<Longrightarrow> e = KeyMaterialError PeerPublic"
  by (auto simp: public_loader_defs public_key_error_def bindR_eq_Inl ok_or_eq_Inl split: if_splits)

lemma public_der_err: "PublicKey_from_der L x = Inl e \<Longrightarrow> e = KeyMaterialError PeerPublic"
  by (auto simp: public_loader_defs public_key_error_def split: option.splits)

lemma parse_private_err: "parse_private L x pw = Inl e \<Longrightarrow> e = KeyMaterialError LocalPrivate"
  using private_pem_err private_der_err by (auto simp: parse_private_def split: if_splits)

lemma parse_public_err: "parse_public L x = Inl e \<Longrightarrow> e = KeyMaterialError PeerPublic"
  using public_pem_err public_der_err by (auto simp: parse_public_def split: if_splits)

lemmas loader_errs =
  private_pem_err private_der_err public_pem_err public_der_err parse_private_err parse_public_err

lemma read_file_eq:
  "read_file rd op path w = (Inr bs, w') \<longleftrightarrow> rd path w = (Inr bs, w')"
  "read_file rd op path w = (Inl e, w') \<longleftrightarrow> (\<exists>d. rd path w = (Inl d, w') \<and> e = Io op path d)"
  by (auto simp: read_file_def map_err_eq_Inl split: prod.splits)

text \<open>A key some loader produced: it came from one of the two containers.\<close>

definition loaded_public :: "('sk, 'pk, 'cert) key_lib \<Rightarrow> 'pk PublicKey \<Rightarrow> bool" where
  "loaded_public L k \<longleftrightarrow> (\<exists>x. PublicKey_from_pem L x = Inr k) \<or> (\<exists>x. PublicKey_from_der L x = Inr k)"

lemma loaded_public_source:
  "loaded_public L k \<Longrightarrow>
     (case source k of
        Spki \<Rightarrow> \<exists>d. spki_decode L d = Some (inner k)
      | Certificate \<Rightarrow> \<exists>d c. x509_from_der L d = Some c \<and> inner k = subject_public_key L c)"
  by (auto simp: loaded_public_def public_loader_defs bindR_eq_Inr
      split: if_splits option.splits) blast+

lemma loaded_public_encodes:
  "loaders_reject_identity L \<Longrightarrow> loaded_public L k \<Longrightarrow> \<exists>s. to_sec1_uncompressed L (inner k) = Some s"
  using loaded_public_source [of L k]
  by (force simp: loaders_reject_identity_def split: PeerKeySource.splits)

section \<open>Properties\<close>

text \<open>
  Property C24: assigning loaded keys to four independent roles never panics. It is refused
  exactly when the two local keys are the same key or the two remote keys are, always as
  a \<^verbatim>\<open>key_roles\<close> configuration error; otherwise every key and container source lands in the
  role its position names, and the material is marked as not shared.
\<close>

theorem key_roles_exact:
  assumes "loaders_reject_identity L" "key_encodings_faithful L"
    and "loaded_public L rv" "loaded_public L re"
  shows "KeyMaterial_new L ls ld rv re = Some
    (if private_inner ls = private_inner ld \<or> inner rv = inner re
     then Inl (Configuration ''key_roles'')
     else Inr \<lparr>local_signing = private_inner ls, local_decryption = private_inner ld,
       remote_verification = inner rv, remote_encryption = inner re,
       remote_verification_source = source rv, remote_encryption_source = source re,
       shared_roles = False\<rparr>)"
proof -
  obtain s t where st: "to_sec1_uncompressed L (inner rv) = Some s" "to_sec1_uncompressed L (inner re) = Some t"
    using loaded_public_encodes assms by metis
  have "s = t \<longleftrightarrow> inner rv = inner re"
    using assms(2) st by (auto simp: key_encodings_faithful_def)
  moreover have "to_bytes_be L (private_inner ls) = to_bytes_be L (private_inner ld) \<longleftrightarrow>
      private_inner ls = private_inner ld"
    using assms(2) by (simp add: key_encodings_faithful_def inj_eq)
  ultimately show ?thesis
    using st by (simp add: KeyMaterial_new_def private_roles_overlap_def public_roles_overlap_def)
qed

text \<open>Keys that are their own encodings; a certificate is a marked key; one byte is the identity.\<close>

definition byte_keys :: "(byte, byte, byte) key_lib" where
  "byte_keys =
     \<lparr>pem_decode = (\<lambda>t label. Some (as_bytes t)),
      pkcs8_decrypt = (\<lambda>d pw. if pw = [7] then (case d of [k] \<Rightarrow> Some k | _ \<Rightarrow> None) else None),
      spki_decode = (\<lambda>d. case d of [k] \<Rightarrow> (if k = 0 then None else Some k) | _ \<Rightarrow> None),
      x509_from_der = (\<lambda>d. case d of [t, k] \<Rightarrow> (if t = 48 \<and> k \<noteq> 0 then Some k else None) | _ \<Rightarrow> None),
      subject_public_key = (\<lambda>c. c),
      to_bytes_be = (\<lambda>k. [k]),
      to_sec1_uncompressed = (\<lambda>k. if k = 0 then None else Some [4, k])\<rparr>"

lemma byte_keys_laws: "loaders_reject_identity byte_keys" "key_encodings_faithful byte_keys"
  by (auto simp: loaders_reject_identity_def key_encodings_faithful_def byte_keys_def inj_def
      split: list.splits if_splits)

theorem key_roles_exact_witness:
  "KeyMaterial_new byte_keys (PrivateKey 1) (PrivateKey 2)
     \<lparr>inner = 3, source = Spki\<rparr> \<lparr>inner = 3, source = Certificate\<rparr> =
     Some (Inl (Configuration ''key_roles''))"
proof -
  have "PublicKey_from_der byte_keys [3] = Inr \<lparr>inner = 3, source = Spki\<rparr>"
    "PublicKey_from_der byte_keys [48, 3] = Inr \<lparr>inner = 3, source = Certificate\<rparr>"
    by (simp_all add: PublicKey_from_der_def byte_keys_def)
  then have "loaded_public byte_keys \<lparr>inner = 3, source = Spki\<rparr>"
    "loaded_public byte_keys \<lparr>inner = 3, source = Certificate\<rparr>"
    by (auto simp: loaded_public_def)
  from key_roles_exact [OF byte_keys_laws this, of "PrivateKey 1" "PrivateKey 2"] show ?thesis by simp
qed

text \<open>
  Every key loader reports only its own redacted category. A private-key
  loader fails as a local-private key error, a peer-key loader as a peer-public key
  error, and a file loader additionally with the I/O error of its own file, which is
  reported exactly when that file cannot be read.
\<close>

lemma loader_error_categories:
  "(PrivateKey_from_encrypted_pem L x pw = Inl e \<longrightarrow> e = KeyMaterialError LocalPrivate) \<and>
   (PrivateKey_from_encrypted_der L x pw = Inl e \<longrightarrow> e = KeyMaterialError LocalPrivate) \<and>
   (PublicKey_from_pem L x = Inl e \<longrightarrow> e = KeyMaterialError PeerPublic) \<and>
   (PublicKey_from_der L x = Inl e \<longrightarrow> e = KeyMaterialError PeerPublic) \<and>
   (PrivateKey_from_encrypted_file L rd path pw w = (Inl e, w') \<longrightarrow>
      (case rd path w of
         (Inl d, _) \<Rightarrow> e = Io ''read private key'' path d
       | (Inr _, _) \<Rightarrow> e = KeyMaterialError LocalPrivate)) \<and>
   (PublicKey_from_file L rd path w = (Inl e, w') \<longrightarrow>
      (case rd path w of
         (Inl d, _) \<Rightarrow> e = Io ''read peer key'' path d
       | (Inr _, _) \<Rightarrow> e = KeyMaterialError PeerPublic))"
  by (auto simp: PrivateKey_from_encrypted_file_def PublicKey_from_file_def bindW_eq_Inl
      read_file_eq dest: loader_errs) (blast dest: loader_errs)+

text \<open>A store with one readable file per path that the world lists.\<close>

definition store_read :: "(str \<times> bytes) list read_fn" where
  "store_read path fs = (case map_of fs path of None \<Rightarrow> (Inl 2, fs) | Some bs \<Rightarrow> (Inr bs, fs))"

text \<open>
  Loading shared keys from files reads both files, the private one first,
  before it parses either. An unreadable peer file is reported even when the private key
  is malformed, and once both files are read the outcome is that of the two separate
  file loaders joined in order.
\<close>

lemma shared_from_files_order:
  "KeyMaterial_shared_from_files L rd p pw q w =
     (case rd p w of
        (Inl d, w1) \<Rightarrow> (Inl (Io ''read private key'' p d), w1)
      | (Inr _, w1) \<Rightarrow>
     (case rd q w1 of
        (Inl d, w2) \<Rightarrow> (Inl (Io ''read peer key'' q d), w2)
      | (Inr _, w2) \<Rightarrow>
          (bindR (fst (PrivateKey_from_encrypted_file L rd p pw w)) (\<lambda>l.
           bindR (fst (PublicKey_from_file L rd q w1)) (\<lambda>r.
           Inr (KeyMaterial_shared l r))), w2)))"
proof -
  obtain a w1 where a: "rd p w = (a, w1)" by force
  obtain b w2 where b: "rd q w1 = (b, w2)" by force
  show ?thesis
    by (cases a; cases b)
      (simp_all add: a b KeyMaterial_shared_from_files_def PrivateKey_from_encrypted_file_def
        PublicKey_from_file_def read_file_def bindW_def bindR_def split: sum.split)
qed

end
