(* ===== verification/Primitives.thy ===== *)
theory Primitives
  imports Adapter Keys
begin

text \<open>
  The primitives the crate calls and does not implement: SM2, SM4 and Base64, from
  \<^verbatim>\<open>gmcrypto_core\<close> and \<^verbatim>\<open>base64\<close>. They are the fields of a record that extends the operating
  system's record, so every operation that uses them takes it as an argument. The laws
  below are the documented behaviour of these crates; a theorem that needs one names it.
\<close>

record ('w, 'sk, 'pk) crypto = "'w os" +
  sm2_public_key :: "'sk \<Rightarrow> 'pk"
  sm2_encrypt :: "'pk \<Rightarrow> bytes \<Rightarrow> 'w \<Rightarrow> bytes option \<times> 'w"
  sm2_decrypt :: "'sk \<Rightarrow> bytes \<Rightarrow> bytes option"
  sm2_sign_with_id :: "'sk \<Rightarrow> bytes \<Rightarrow> bytes \<Rightarrow> 'w \<Rightarrow> bytes option \<times> 'w"
  sm2_verify_with_id :: "'pk \<Rightarrow> bytes \<Rightarrow> bytes \<Rightarrow> bytes \<Rightarrow> bool"
  cbc_encrypt :: "bytes \<Rightarrow> bytes \<Rightarrow> bytes \<Rightarrow> bytes"
  cbc_decrypt :: "bytes \<Rightarrow> bytes \<Rightarrow> bytes \<Rightarrow> bytes option"
  gcm_encrypt :: "bytes \<Rightarrow> bytes \<Rightarrow> bytes \<Rightarrow> bytes \<Rightarrow> (bytes \<times> bytes) option"
  gcm_decrypt :: "bytes \<Rightarrow> bytes \<Rightarrow> bytes \<Rightarrow> bytes \<Rightarrow> bytes \<Rightarrow> bytes option"
  ccm_encrypt :: "bytes \<Rightarrow> bytes \<Rightarrow> bytes \<Rightarrow> bytes \<Rightarrow> usize \<Rightarrow> bytes option"
  ccm_decrypt :: "bytes \<Rightarrow> bytes \<Rightarrow> bytes \<Rightarrow> bytes \<Rightarrow> usize \<Rightarrow> bytes option"
  base64_encode :: "bytes \<Rightarrow> str"
  base64_decode :: "str \<Rightarrow> bytes option"

section \<open>Laws\<close>

text \<open>
  The standard padded alphabet of Base64: decoding inverts encoding, three bytes become
  four characters, and the characters are visible ASCII.
\<close>

definition base64_laws :: "('w, 'sk, 'pk) crypto \<Rightarrow> bool" where
  "base64_laws P \<longleftrightarrow>
     (\<forall>b. base64_decode P (base64_encode P b) = Some b) \<and>
     (\<forall>b. length (base64_encode P b) = 4 * ((length b + 2) div 3)) \<and>
     (\<forall>b. \<forall>c \<in> set (base64_encode P b). 33 \<le> c \<and> c < 127)"

text \<open>
  SM2: decryption with a private key inverts encryption to its public key, and a
  signature verifies under the public key and signer identifier it was made for. A
  wrapped 16-byte key and a signature are short: a point, a digest and the key, or two
  scalars, with their ASN.1 framing.
\<close>

definition sm2_laws :: "('w, 'sk, 'pk) crypto \<Rightarrow> bool" where
  "sm2_laws P \<longleftrightarrow>
     (\<forall>sk m w c w'. sm2_encrypt P (sm2_public_key P sk) m w = (Some c, w') \<longrightarrow>
        sm2_decrypt P sk c = Some m) \<and>
     (\<forall>sk i m w s w'. sm2_sign_with_id P sk i m w = (Some s, w') \<longrightarrow>
        sm2_verify_with_id P (sm2_public_key P sk) i m s)"

definition sm2_sizes :: "('w, 'sk, 'pk) crypto \<Rightarrow> bool" where
  "sm2_sizes P \<longleftrightarrow>
     (\<forall>pk m w c w'. sm2_encrypt P pk m w = (Some c, w') \<longrightarrow> length m = 16 \<longrightarrow>
        0 < length c \<and> length c \<le> 256) \<and>
     (\<forall>sk i m w s w'. sm2_sign_with_id P sk i m w = (Some s, w') \<longrightarrow>
        0 < length s \<and> length s \<le> 256)"

text \<open>SM4-CBC with PKCS#7 padding, SM4-GCM and SM4-CCM with 16-byte keys and tags.\<close>

definition cbc_laws :: "('w, 'sk, 'pk) crypto \<Rightarrow> bool" where
  "cbc_laws P \<longleftrightarrow> (\<forall>k v p. length k = 16 \<longrightarrow> length v = 16 \<longrightarrow>
     cbc_decrypt P k v (cbc_encrypt P k v p) = Some p \<and>
     length (cbc_encrypt P k v p) = (length p div 16 + 1) * 16)"

definition gcm_laws :: "('w, 'sk, 'pk) crypto \<Rightarrow> bool" where
  "gcm_laws P \<longleftrightarrow> (\<forall>k n a p c t. gcm_encrypt P k n a p = Some (c, t) \<longrightarrow>
     gcm_decrypt P k n a c t = Some p \<and> length c = length p \<and> length t = 16)"

definition ccm_laws :: "('w, 'sk, 'pk) crypto \<Rightarrow> bool" where
  "ccm_laws P \<longleftrightarrow> (\<forall>k n a p l j. ccm_encrypt P k n a p l = Some j \<longrightarrow>
     ccm_decrypt P k n a j l = Some p \<and> length j = length p + l)"

text \<open>Authenticated decryption returns as many bytes as were encrypted.\<close>

definition aead_sizes :: "('w, 'sk, 'pk) crypto \<Rightarrow> bool" where
  "aead_sizes P \<longleftrightarrow>
     (\<forall>k n a c t p. gcm_decrypt P k n a c t = Some p \<longrightarrow> length p = length c) \<and>
     (\<forall>k n a j l p. ccm_decrypt P k n a j l = Some p \<longrightarrow> length p + l = length j)"

definition crypto_laws :: "('w, 'sk, 'pk) crypto \<Rightarrow> bool" where
  "crypto_laws P \<longleftrightarrow> os_laws P \<and> base64_laws P \<and> sm2_laws P \<and> sm2_sizes P \<and> cbc_laws P \<and>
     gcm_laws P \<and> ccm_laws P"

lemma crypto_lawsD:
  assumes "crypto_laws P"
  shows "os_laws P" "base64_laws P" "sm2_laws P" "sm2_sizes P" "cbc_laws P" "gcm_laws P" "ccm_laws P"
  using assms by (simp_all add: crypto_laws_def)

lemma base64_str_len:
  assumes "base64_laws P"
  shows "str_len (base64_encode P b) = 4 * ((length b + 2) div 3)"
proof -
  have "list_all (\<lambda>c. c < 0x80) (base64_encode P b)"
    using assms by (fastforce simp: base64_laws_def list_all_iff)
  then show ?thesis using assms by (simp add: str_len_ascii base64_laws_def)
qed

lemma base64_text_ok:
  assumes "base64_laws P"
  shows "valid_value (base64_encode P b)" "trim (base64_encode P b) = base64_encode P b"
    "str_ok (base64_encode P b)"
proof -
  have visible: "\<forall>c \<in> set (base64_encode P b). 33 \<le> c \<and> c < 127"
    using assms by (simp add: base64_laws_def)
  then show "valid_value (base64_encode P b)" "str_ok (base64_encode P b)"
    by (force simp: valid_value_def is_disallowed_value_character_def,
        force simp: str_ok_def list_all_iff is_scalar_def)
  show "trim (base64_encode P b) = base64_encode P b"
    by (rule trim_no_whitespace) (use visible in \<open>fastforce simp: list_all_iff is_whitespace_def\<close>)
qed

lemma base64_empty:
  assumes "base64_laws P"
  shows "base64_encode P b = [] \<longleftrightarrow> b = []"
proof -
  have "length (base64_encode P b) = 4 * ((length b + 2) div 3)"
    using assms by (simp add: base64_laws_def)
  then show ?thesis by (cases b; cases "base64_encode P b") auto
qed

end
