(* ===== verification/Envelope_Base.thy ===== *)
theory Envelope_Base
  imports Primitives
begin

text \<open>
  The helpers of \<^verbatim>\<open>src/envelope_crypto/mod.rs\<close> that every payload mode shares: session keys,
  Base64 decoding with a uniform error, and the encoded-length bound. The lemmas give the
  bound exactly, including where \<^verbatim>\<open>usize\<close> arithmetic overflows.
\<close>

definition SESSION_KEY_BYTES :: usize where
  "SESSION_KEY_BYTES = 16"

definition MAX_AUXILIARY_BASE64_BYTES :: usize where
  "MAX_AUXILIARY_BASE64_BYTES = 16 * 1024"

definition generate_session_key :: "('w, 'sk, 'pk) crypto \<Rightarrow> ('w, bytes, Error) effect" where
  "generate_session_key P = callW Encryption (getrandom_fill P SESSION_KEY_BYTES)"

definition unwrap_session_key ::
  "('w, 'sk, 'pk) crypto \<Rightarrow> ('sk, 'pk) KeyMaterial \<Rightarrow> bytes \<Rightarrow> bytes Result" where
  "unwrap_session_key P keys wrapped =
     bindR (ok_or InvalidEnvelope (sm2_decrypt P (local_decryption keys) wrapped)) (\<lambda>unwrapped.
     if length unwrapped \<noteq> SESSION_KEY_BYTES then Inl InvalidEnvelope else Inr unwrapped)"

definition decode_base64 :: "('w, 'sk, 'pk) crypto \<Rightarrow> str \<Rightarrow> bytes Result" where
  "decode_base64 P value = ok_or InvalidEnvelope (base64_decode P value)"

definition base64_len :: "usize \<Rightarrow> usize" where
  "base64_len binary_len =
     (case Option.bind (map_option (\<lambda>bytes. bytes div 3) (checked_add binary_len 2))
             (\<lambda>groups. checked_mul groups 4) of
        Some n \<Rightarrow> n
      | None \<Rightarrow> usize_MAX)"

section \<open>Lemmas\<close>

lemma unwrap_iff:
  "unwrap_session_key P keys x = Inr k \<longleftrightarrow>
     sm2_decrypt P (local_decryption keys) x = Some k \<and> length k = 16"
  by (auto simp: unwrap_session_key_def bindR_eq_Inr SESSION_KEY_BYTES_def split: if_splits)

lemma unwrap_err: "unwrap_session_key P keys x = Inl e \<Longrightarrow> e = InvalidEnvelope"
  by (auto simp: unwrap_session_key_def bindR_eq_Inl ok_or_eq_Inl split: if_splits)

lemma decode_iff: "decode_base64 P s = Inr b \<longleftrightarrow> base64_decode P s = Some b"
  by (simp add: decode_base64_def)

lemma decode_err: "decode_base64 P s = Inl e \<longleftrightarrow> base64_decode P s = None \<and> e = InvalidEnvelope"
  by (simp add: decode_base64_def ok_or_eq_Inl)

text \<open>The saturated number of characters that \<open>n\<close> bytes encode to.\<close>

lemma base64_len_eq: "base64_len n = min (4 * ((n + 2) div 3)) usize_MAX"
proof (cases "n + 2 \<le> usize_MAX")
  case True
  then show ?thesis
    by (auto simp: base64_len_def checked_add_def checked_mul_def mult.commute)
next
  case False
  then have "usize_MAX div 3 \<le> (n + 2) div 3" by (intro div_le_mono) simp
  then have "usize_MAX \<le> 4 * ((n + 2) div 3)" by (simp add: usize_MAX_def)
  with False show ?thesis by (simp add: base64_len_def checked_add_def)
qed

lemma base64_len_mono: "m \<le> n \<Longrightarrow> base64_len m \<le> base64_len n"
  unfolding base64_len_eq by (intro min.mono mult_le_mono2 div_le_mono) simp_all

lemma encoded_within:
  assumes "base64_laws P" "length b \<le> n" "str_len (base64_encode P b) \<le> usize_MAX"
  shows "str_len (base64_encode P b) \<le> base64_len n"
proof -
  have "4 * ((length b + 2) div 3) \<le> 4 * ((n + 2) div 3)"
    using assms(2) by (intro mult_le_mono2 div_le_mono) simp
  then show ?thesis using assms(1,3) by (simp add: base64_str_len base64_len_eq)
qed

lemma small_encoded:
  assumes "base64_laws P" "length b \<le> 256"
  shows "str_len (base64_encode P b) \<le> MAX_AUXILIARY_BASE64_BYTES"
  using assms by (simp add: base64_str_len MAX_AUXILIARY_BASE64_BYTES_def)

end
