(* ===== verification/Concrete.thy ===== *)
theory Concrete
  imports Primitives
begin

text \<open>
  A concrete instance of the primitives that satisfies all their laws, for evaluating the
  model: Base64 with the standard alphabet as RFC 4648 defines it, PKCS#7 padding over the
  identity block cipher, and transparent stand-ins with the right shapes for SM2 and for
  authenticated encryption. It offers no secrecy and is not a model of SM2 or SM4; it
  shows that the laws are satisfiable and drives the concrete runs.
\<close>

section \<open>Base64\<close>

definition b64_char :: "nat \<Rightarrow> rchar" where
  "b64_char n = (if n < 26 then 65 + n else if n < 52 then 71 + n else if n < 62 then n - 4
     else if n = 62 then 43 else 47)"

definition b64_val :: "rchar \<Rightarrow> nat option" where
  "b64_val c = (if 65 \<le> c \<and> c \<le> 90 then Some (c - 65) else if 97 \<le> c \<and> c \<le> 122 then Some (c - 71)
     else if 48 \<le> c \<and> c \<le> 57 then Some (c + 4) else if c = 43 then Some 62
     else if c = 47 then Some 63 else None)"

fun b64_encode :: "bytes \<Rightarrow> str" where
  "b64_encode [] = []"
| "b64_encode [a] = [b64_char (unat a div 4), b64_char (unat a mod 4 * 16), 61, 61]"
| "b64_encode [a, b] = [b64_char (unat a div 4), b64_char (unat a mod 4 * 16 + unat b div 16),
     b64_char (unat b mod 16 * 4), 61]"
| "b64_encode (a # b # c # r) = [b64_char (unat a div 4),
     b64_char (unat a mod 4 * 16 + unat b div 16), b64_char (unat b mod 16 * 4 + unat c div 64),
     b64_char (unat c mod 64)] @ b64_encode r"

fun b64_decode :: "str \<Rightarrow> bytes option" where
  "b64_decode [] = Some []"
| "b64_decode (p # q # r # s # rest) =
     Option.bind (b64_val p) (\<lambda>x. Option.bind (b64_val q) (\<lambda>y.
     if s = 61 \<and> r = 61 then
       (if rest = [] \<and> y mod 16 = 0 then Some [word_of_nat (x * 4 + y div 16)] else None)
     else Option.bind (b64_val r) (\<lambda>z.
     if s = 61 then
       (if rest = [] \<and> z mod 4 = 0
        then Some [word_of_nat (x * 4 + y div 16), word_of_nat (y mod 16 * 16 + z div 4)] else None)
     else Option.bind (b64_val s) (\<lambda>u. Option.bind (b64_decode rest) (\<lambda>more.
       Some ([word_of_nat (x * 4 + y div 16), word_of_nat (y mod 16 * 16 + z div 4),
         word_of_nat (z mod 4 * 64 + u)] @ more))))))"
| "b64_decode _ = None"

lemma b64_val_char [simp]: "n < 64 \<Longrightarrow> b64_val (b64_char n) = Some n"
  by (auto simp: b64_val_def b64_char_def)

lemma b64_char_neq [simp]: "b64_char n \<noteq> 61"
  by (auto simp: b64_char_def)

lemma b64_char_visible: "33 \<le> b64_char n \<and> b64_char n < 127"
  by (auto simp: b64_char_def)

lemma sextets:
  fixes a b c :: byte
  shows "unat a div 4 < 64" "unat a mod 4 * 16 < 64" "unat a mod 4 * 16 + unat b div 16 < 64"
    "unat b mod 16 * 4 < 64" "unat b mod 16 * 4 + unat c div 64 < 64" "unat c mod 64 < 64"
  using unat_byte_less [of a] unat_byte_less [of b] unat_byte_less [of c]
proof -
  have "unat a mod 4 < 4" "unat b mod 16 < 16" "unat a div 4 < 64" "unat b div 16 < 16"
    "unat c div 64 < 4" "unat c mod 64 < 64"
    using unat_byte_less [of a] unat_byte_less [of b] unat_byte_less [of c]
    by (simp_all add: less_mult_imp_div_less)
  then show "unat a div 4 < 64" "unat a mod 4 * 16 < 64" "unat a mod 4 * 16 + unat b div 16 < 64"
    "unat b mod 16 * 4 < 64" "unat b mod 16 * 4 + unat c div 64 < 64" "unat c mod 64 < 64"
    by linarith+
qed

lemma sextet_joins:
  fixes a b c :: byte
  shows "unat a div 4 * 4 + (unat a mod 4 * 16 + unat b div 16) div 16 = unat a"
    "unat a div 4 * 4 + unat a mod 4 * 16 div 16 = unat a"
    "(unat a mod 4 * 16 + unat b div 16) mod 16 * 16 + (unat b mod 16 * 4 + unat c div 64) div 4 = unat b"
    "(unat a mod 4 * 16 + unat b div 16) mod 16 * 16 + unat b mod 16 * 4 div 4 = unat b"
    "(unat b mod 16 * 4 + unat c div 64) mod 4 * 64 + unat c mod 64 = unat c"
proof -
  have "unat b div 16 < 16" "unat c div 64 < 4"
    using unat_byte_less [of b] unat_byte_less [of c] by (simp_all add: less_mult_imp_div_less)
  then show "unat a div 4 * 4 + (unat a mod 4 * 16 + unat b div 16) div 16 = unat a"
    "unat a div 4 * 4 + unat a mod 4 * 16 div 16 = unat a"
    "(unat a mod 4 * 16 + unat b div 16) mod 16 * 16 + (unat b mod 16 * 4 + unat c div 64) div 4 = unat b"
    "(unat a mod 4 * 16 + unat b div 16) mod 16 * 16 + unat b mod 16 * 4 div 4 = unat b"
    "(unat b mod 16 * 4 + unat c div 64) mod 4 * 64 + unat c mod 64 = unat c"
    by simp_all
qed

lemma b64_round_trip: "b64_decode (b64_encode bs) = Some bs"
proof (induction bs rule: b64_encode.induct)
  case 1
  then show ?case by simp
next
  case (2 a)
  then show ?case by (simp add: sextets sextet_joins [simplified] del: of_nat_add of_nat_mult)
next
  case (3 a b)
  then show ?case by (simp add: sextets sextet_joins [simplified] del: of_nat_add of_nat_mult)
next
  case (4 a b c r)
  then show ?case by (simp add: sextets sextet_joins [simplified] del: of_nat_add of_nat_mult)
qed

lemma b64_length: "length (b64_encode bs) = 4 * ((length bs + 2) div 3)"
proof (induction bs rule: b64_encode.induct)
  case (4 a b c r)
  have "(length (a # b # c # r) + 2) div 3 = (length r + 2) div 3 + 1"
    using div_add_self2 [of 3 "length r + 2"] by simp
  then show ?case using 4 by simp
qed simp_all

lemma b64_visible: "c \<in> set (b64_encode bs) \<Longrightarrow> 33 \<le> c \<and> c < 127"
  by (induction bs rule: b64_encode.induct) (auto simp: b64_char_visible)

section \<open>Padding and stand-ins\<close>

definition pkcs7 :: "bytes \<Rightarrow> bytes" where
  "pkcs7 p = (let n = 16 - length p mod 16 in p @ replicate n (word_of_nat n))"

definition pkcs7_strip :: "bytes \<Rightarrow> bytes option" where
  "pkcs7_strip c =
     (if c = [] \<or> length c mod 16 \<noteq> 0 then None
      else (let n = unat (last c) in
        if 1 \<le> n \<and> n \<le> 16 \<and> drop (length c - n) c = replicate n (last c)
        then Some (take (length c - n) c) else None))"

definition checksum :: "bytes \<Rightarrow> byte" where
  "checksum bs = sum_list bs"

definition plain_crypto :: "(nat, byte, byte) crypto" where
  "plain_crypto =
     \<lparr>getrandom_fill = getrandom_fill counting_os, since_unix_epoch = since_unix_epoch counting_os,
      sm2_public_key = (\<lambda>k. k),
      sm2_encrypt = (\<lambda>pk m w. (Some (pk # m), w + 1)),
      sm2_decrypt = (\<lambda>sk c. case c of [] \<Rightarrow> None | k # m \<Rightarrow> if k = sk then Some m else None),
      sm2_sign_with_id = (\<lambda>sk i m w. (Some [sk, checksum i, checksum m], w + 1)),
      sm2_verify_with_id = (\<lambda>pk i m s. s = [pk, checksum i, checksum m]),
      cbc_encrypt = (\<lambda>k v p. pkcs7 p),
      cbc_decrypt = (\<lambda>k v c. pkcs7_strip c),
      gcm_encrypt = (\<lambda>k n a p. Some (p, replicate 16 (checksum (k @ n @ a @ p)))),
      gcm_decrypt = (\<lambda>k n a c t. if t = replicate 16 (checksum (k @ n @ a @ c)) then Some c else None),
      ccm_encrypt = (\<lambda>k n a p l. Some (p @ replicate l (checksum (k @ n @ a @ p)))),
      ccm_decrypt = (\<lambda>k n a j l. let p = take (length j - l) j in
         if l \<le> length j \<and> drop (length j - l) j = replicate l (checksum (k @ n @ a @ p))
         then Some p else None),
      base64_encode = b64_encode, base64_decode = b64_decode\<rparr>"

lemma pkcs7_round_trip: "pkcs7_strip (pkcs7 p) = Some p"
proof -
  define n where "n = 16 - length p mod 16"
  have n: "1 \<le> n" "n \<le> 16" by (simp_all add: n_def Suc_le_eq)
  have pad: "pkcs7 p = p @ replicate n (word_of_nat n)" by (simp add: pkcs7_def n_def)
  have "unat (word_of_nat n :: byte) = n"
    using n by (simp add: unat_of_nat take_bit_nat_eq_self)
  moreover have "(length p + n) mod 16 = 0"
    by (metis n_def add.commute le_add_diff_inverse2 less_imp_le_nat mod_add_left_eq
        mod_less_divisor mod_self zero_less_numeral)
  ultimately show ?thesis
    using n by (simp add: pad pkcs7_strip_def Let_def)
qed

lemma pkcs7_length: "length (pkcs7 p) = (length p div 16 + 1) * 16"
proof -
  have "x + (16 - r) = (q + 1) * 16" if "r < 16" "x = q * 16 + r" for x q r :: nat
    using that by simp
  from this [of "length p mod 16" "length p" "length p div 16"]
  have "length p + (16 - length p mod 16) = (length p div 16 + 1) * 16" by simp
  then show ?thesis by (simp add: pkcs7_def Let_def)
qed

lemma plain_crypto_laws: "crypto_laws plain_crypto"
proof -
  have "os_laws plain_crypto"
    using counting_os_laws by (simp add: os_laws_def plain_crypto_def)
  moreover have "base64_laws plain_crypto"
    using b64_round_trip b64_length b64_visible by (simp add: base64_laws_def plain_crypto_def)
  moreover have "sm2_laws plain_crypto" "sm2_sizes plain_crypto"
    by (auto simp: sm2_laws_def sm2_sizes_def plain_crypto_def)
  moreover have "cbc_laws plain_crypto"
    using pkcs7_round_trip pkcs7_length by (simp add: cbc_laws_def plain_crypto_def)
  moreover have "gcm_laws plain_crypto" "ccm_laws plain_crypto"
    by (auto simp: gcm_laws_def ccm_laws_def plain_crypto_def Let_def)
  ultimately show ?thesis by (simp add: crypto_laws_def)
qed

end
