(* ===== verification/Cbc.thy ===== *)
theory Cbc
  imports Envelope_Base Concrete
begin

text \<open>
  \<^verbatim>\<open>src/envelope_crypto/cbc.rs\<close>: the compatibility SM4-CBC payload mode. Opening is an effect
  on the tally of signature verifications that the source keeps in its test builds, so
  that the number of verifications on every path is part of the model. The lemmas
  characterise opening exactly and show that every envelope whose session key unwraps
  costs one verification, whatever fails afterwards.
\<close>

section \<open>The code\<close>

definition SM4_BLOCK_BYTES :: usize where
  "SM4_BLOCK_BYTES = 16"

definition padded_cipher_len :: "usize \<Rightarrow> usize" where
  "padded_cipher_len plaintext_limit =
     (case Option.bind (Option.bind (checked_div plaintext_limit SM4_BLOCK_BYTES)
             (\<lambda>blocks. checked_add blocks 1)) (\<lambda>blocks. checked_mul blocks SM4_BLOCK_BYTES) of
        Some n \<Rightarrow> n
      | None \<Rightarrow> usize_MAX)"

text \<open>The tally: \<^verbatim>\<open>calls.set(calls.get().saturating_add(1))\<close> and \<^verbatim>\<open>calls.replace(0)\<close>.\<close>

definition record_verify_call :: "u32 \<Rightarrow> u32" where
  "record_verify_call calls = (if calls = - 1 then calls else calls + 1)"

definition take_verify_calls :: "u32 \<Rightarrow> u32 \<times> u32" where
  "take_verify_calls calls = (calls, 0)"

definition verify_transcript ::
  "('w, 'sk, 'pk) crypto \<Rightarrow> ('sk, 'pk) KeyMaterial \<Rightarrow> ClientConfig \<Rightarrow> bytes \<Rightarrow> bytes \<Rightarrow>
    u32 \<Rightarrow> bool \<times> u32" where
  "verify_transcript P keys config transcript sig calls =
     (let calls = record_verify_call calls in
      (sm2_verify_with_id P (remote_verification keys) (expected_remote_signer_id config)
         transcript sig, calls))"

definition cbc_seal ::
  "('w, 'sk, 'pk) crypto \<Rightarrow> ClientConfig \<Rightarrow> ('sk, 'pk) KeyMaterial \<Rightarrow> bytes \<Rightarrow>
    AuthenticationContext \<Rightarrow> ('w, SecureEnvelope, Error) effect" where
  "cbc_seal P config keys plaintext context =
     bindW (liftW (authentication_input (authentication_mode config) context plaintext)) (\<lambda>input.
     bindW (generate_session_key P) (\<lambda>session_key.
     (let ciph = cbc_encrypt P session_key (iv config) plaintext in
      bindW (callW Encryption (sm2_encrypt P (remote_encryption keys) session_key)) (\<lambda>wrapped.
      bindW (callW Encryption
        (sm2_sign_with_id P (local_signing keys) (local_signer_id config) input)) (\<lambda>sig.
      liftW (Inr \<lparr>cipher = base64_encode P ciph, wrapped_session_key = base64_encode P wrapped,
        signature = base64_encode P sig\<rparr>))))))"

definition cbc_open ::
  "('w, 'sk, 'pk) crypto \<Rightarrow> ClientConfig \<Rightarrow> ('sk, 'pk) KeyMaterial \<Rightarrow> SecureEnvelope \<Rightarrow>
    AuthenticationContext \<Rightarrow> (u32, bytes, Error) effect" where
  "cbc_open P config keys env context =
     (let plaintext_limit = max_plaintext_bytes config;
          max_cipher_bytes = padded_cipher_len plaintext_limit;
          max_cipher_base64_bytes = base64_len max_cipher_bytes
      in if str_len (cipher env) > max_cipher_base64_bytes
         then liftW (Inl (MessageTooLarge plaintext_limit))
         else if str_len (wrapped_session_key env) > MAX_AUXILIARY_BASE64_BYTES \<or>
                 str_len (signature env) > MAX_AUXILIARY_BASE64_BYTES
         then liftW (Inl InvalidEnvelope)
         else
      bindW (liftW (decode_base64 P (cipher env))) (\<lambda>ciph.
      if length ciph > max_cipher_bytes then liftW (Inl InvalidEnvelope)
      else
      bindW (liftW (decode_base64 P (wrapped_session_key env))) (\<lambda>wrapped.
      bindW (liftW (decode_base64 P (signature env))) (\<lambda>sig.
      bindW (liftW (unwrap_session_key P keys wrapped)) (\<lambda>session_key.
      (let decrypted = cbc_decrypt P session_key (iv config) ciph;
           padding_ok = (decrypted \<noteq> None);
           plaintext = (case decrypted of Some p \<Rightarrow> p | None \<Rightarrow> ciph);
           length_ok = (length plaintext \<le> plaintext_limit);
           input = authentication_input (authentication_mode config) context plaintext;
           input_ok = is_ok input;
           transcript = (case input of Inr t \<Rightarrow> t | Inl _ \<Rightarrow> [])
       in (\<lambda>calls.
        (let (verified, calls) = verify_transcript P keys config transcript sig calls
         in (if padding_ok \<and> length_ok \<and> input_ok \<and> verified then Inr plaintext
             else Inl InvalidEnvelope, calls)))))))))"

section \<open>Length bounds\<close>

lemma padded_cipher_len_eq: "padded_cipher_len n = min ((n div 16 + 1) * 16) usize_MAX"
proof (cases "n div 16 + 1 \<le> usize_MAX")
  case True
  then show ?thesis
    by (auto simp: padded_cipher_len_def SM4_BLOCK_BYTES_def checked_div_def checked_add_def
        checked_mul_def)
next
  case False
  then show ?thesis
    by (simp add: padded_cipher_len_def SM4_BLOCK_BYTES_def checked_div_def checked_add_def)
qed

lemma padded_cipher_len_mono: "m \<le> n \<Longrightarrow> padded_cipher_len m \<le> padded_cipher_len n"
  unfolding padded_cipher_len_eq
  by (intro min.mono mult_le_mono1 add_le_mono1 div_le_mono) simp_all

section \<open>Opening\<close>

text \<open>What has to hold before the session key is in hand.\<close>

definition cbc_unwrapped ::
  "('w, 'sk, 'pk) crypto \<Rightarrow> ClientConfig \<Rightarrow> ('sk, 'pk) KeyMaterial \<Rightarrow> SecureEnvelope \<Rightarrow>
    bytes \<Rightarrow> bytes \<Rightarrow> bytes \<Rightarrow> bool" where
  "cbc_unwrapped P config keys env ciph sig key \<longleftrightarrow>
     str_len (cipher env) \<le> base64_len (padded_cipher_len (max_plaintext_bytes config)) \<and>
     str_len (wrapped_session_key env) \<le> MAX_AUXILIARY_BASE64_BYTES \<and>
     str_len (signature env) \<le> MAX_AUXILIARY_BASE64_BYTES \<and>
     base64_decode P (cipher env) = Some ciph \<and>
     length ciph \<le> padded_cipher_len (max_plaintext_bytes config) \<and>
     base64_decode P (signature env) = Some sig \<and>
     (\<exists>wrapped. base64_decode P (wrapped_session_key env) = Some wrapped \<and>
        sm2_decrypt P (local_decryption keys) wrapped = Some key \<and> length key = 16)"

definition cbc_reaches_verify ::
  "('w, 'sk, 'pk) crypto \<Rightarrow> ClientConfig \<Rightarrow> ('sk, 'pk) KeyMaterial \<Rightarrow> SecureEnvelope \<Rightarrow> bool" where
  "cbc_reaches_verify P config keys env \<longleftrightarrow>
     str_len (cipher env) \<le> base64_len (padded_cipher_len (max_plaintext_bytes config)) \<and>
     str_len (wrapped_session_key env) \<le> MAX_AUXILIARY_BASE64_BYTES \<and>
     str_len (signature env) \<le> MAX_AUXILIARY_BASE64_BYTES \<and>
     (case (base64_decode P (cipher env), base64_decode P (wrapped_session_key env),
            base64_decode P (signature env)) of
        (Some ciph, Some wrapped, Some sig) \<Rightarrow>
          length ciph \<le> padded_cipher_len (max_plaintext_bytes config) \<and>
          (case sm2_decrypt P (local_decryption keys) wrapped of
             None \<Rightarrow> False | Some key \<Rightarrow> length key = 16)
      | _ \<Rightarrow> False)"

lemma reaches_verify_iff:
  "cbc_reaches_verify P config keys env \<longleftrightarrow> (\<exists>ciph sig key. cbc_unwrapped P config keys env ciph sig key)"
  by (auto simp: cbc_reaches_verify_def cbc_unwrapped_def split: option.splits)

text \<open>The outcome once the session key is in hand.\<close>

definition cbc_finish ::
  "('w, 'sk, 'pk) crypto \<Rightarrow> ClientConfig \<Rightarrow> ('sk, 'pk) KeyMaterial \<Rightarrow> AuthenticationContext \<Rightarrow>
    bytes \<Rightarrow> bytes \<Rightarrow> bytes \<Rightarrow> bytes Result" where
  "cbc_finish P config keys context ciph sig key =
     (case cbc_decrypt P key (iv config) ciph of
        None \<Rightarrow> Inl InvalidEnvelope
      | Some p \<Rightarrow>
        (case authentication_input (authentication_mode config) context p of
           Inl _ \<Rightarrow> Inl InvalidEnvelope
         | Inr t \<Rightarrow>
           if length p \<le> max_plaintext_bytes config \<and>
              sm2_verify_with_id P (remote_verification keys) (expected_remote_signer_id config) t sig
           then Inr p else Inl InvalidEnvelope))"

lemma cbc_open_reached:
  assumes "cbc_unwrapped P config keys env ciph sig key"
  shows "cbc_open P config keys env context calls =
    (cbc_finish P config keys context ciph sig key, record_verify_call calls)"
proof -
  obtain wrapped where w: "base64_decode P (wrapped_session_key env) = Some wrapped"
    "unwrap_session_key P keys wrapped = Inr key"
    using assms by (auto simp: cbc_unwrapped_def unwrap_iff)
  have d: "decode_base64 P (cipher env) = Inr ciph" "decode_base64 P (signature env) = Inr sig"
    "decode_base64 P (wrapped_session_key env) = Inr wrapped"
    using assms w by (simp_all add: cbc_unwrapped_def decode_iff)
  show ?thesis
    using assms w d
    by (auto simp: cbc_open_def Let_def cbc_unwrapped_def verify_transcript_def cbc_finish_def
        split: option.split sum.split)
qed

lemma cbc_open_not_reached:
  assumes "\<not> cbc_reaches_verify P config keys env"
  shows "cbc_open P config keys env context calls =
    (Inl (if base64_len (padded_cipher_len (max_plaintext_bytes config)) < str_len (cipher env)
          then MessageTooLarge (max_plaintext_bytes config) else InvalidEnvelope), calls)"
  using assms
  by (auto simp: cbc_open_def Let_def cbc_reaches_verify_def bindW_def decode_base64_def
      unwrap_session_key_def SESSION_KEY_BYTES_def ok_or_def bindR_def not_le
      split: option.splits if_splits)

lemma cbc_open_iff:
  "fst (cbc_open P config keys env context calls) = Inr p \<longleftrightarrow>
    (\<exists>ciph sig key t. cbc_unwrapped P config keys env ciph sig key \<and>
       cbc_decrypt P key (iv config) ciph = Some p \<and> length p \<le> max_plaintext_bytes config \<and>
       authentication_input (authentication_mode config) context p = Inr t \<and>
       sm2_verify_with_id P (remote_verification keys) (expected_remote_signer_id config) t sig)"
proof (cases "cbc_reaches_verify P config keys env")
  case True
  then obtain ciph sig key where u: "cbc_unwrapped P config keys env ciph sig key"
    by (auto simp: reaches_verify_iff)
  then have same: "cbc_unwrapped P config keys env c s k \<longleftrightarrow> c = ciph \<and> s = sig \<and> k = key" for c s k
    by (auto simp: cbc_unwrapped_def)
  show ?thesis
    by (auto simp: cbc_open_reached [OF u] same cbc_finish_def split: option.splits sum.splits if_splits)
next
  case False
  then show ?thesis by (auto simp: cbc_open_not_reached reaches_verify_iff)
qed

lemma cbc_open_err:
  "fst (cbc_open P config keys env context calls) = Inl e \<Longrightarrow>
    e = (if base64_len (padded_cipher_len (max_plaintext_bytes config)) < str_len (cipher env)
         then MessageTooLarge (max_plaintext_bytes config) else InvalidEnvelope)"
proof (cases "cbc_reaches_verify P config keys env")
  case True
  then obtain ciph sig key where u: "cbc_unwrapped P config keys env ciph sig key"
    by (auto simp: reaches_verify_iff)
  then have "str_len (cipher env) \<le> base64_len (padded_cipher_len (max_plaintext_bytes config))"
    by (simp add: cbc_unwrapped_def)
  moreover assume "fst (cbc_open P config keys env context calls) = Inl e"
  ultimately show ?thesis
    by (auto simp: cbc_open_reached [OF u] cbc_finish_def not_less [symmetric]
        split: option.splits sum.splits if_splits)
next
  case False
  moreover assume "fst (cbc_open P config keys env context calls) = Inl e"
  ultimately show ?thesis by (simp add: cbc_open_not_reached)
qed

section \<open>Sealing\<close>

lemma cbc_seal_iff:
  "cbc_seal P config keys p context w = (Inr env, w') \<longleftrightarrow>
    (\<exists>t key w1 wrapped w2 sig.
       authentication_input (authentication_mode config) context p = Inr t \<and>
       getrandom_fill P 16 w = (Some key, w1) \<and>
       sm2_encrypt P (remote_encryption keys) key w1 = (Some wrapped, w2) \<and>
       sm2_sign_with_id P (local_signing keys) (local_signer_id config) t w2 = (Some sig, w') \<and>
       env = \<lparr>cipher = base64_encode P (cbc_encrypt P key (iv config) p),
              wrapped_session_key = base64_encode P wrapped, signature = base64_encode P sig\<rparr>)"
  by (auto simp: cbc_seal_def bindW_eq_Inr callW_eq_Inr generate_session_key_def Let_def
      SESSION_KEY_BYTES_def)

end
