(* ===== verification/Aead.thy ===== *)
theory Aead
  imports Envelope_Base Concrete
begin

text \<open>
  \<^verbatim>\<open>src/envelope_crypto/aead.rs\<close>: the SM4-GCM and SM4-CCM payload modes. The cipher text is a
  frame: version, algorithm, 12-byte nonce, encrypted payload and 16-byte tag. The lemmas
  give the frame layout, show that slicing a frame never goes out of bounds, characterise
  opening exactly and show that only the pinned algorithm is ever accepted.
\<close>

section \<open>The code\<close>

definition FRAME_VERSION :: byte where
  "FRAME_VERSION = 0x01"

definition ALGORITHM_SM4_GCM :: byte where
  "ALGORITHM_SM4_GCM = 0x01"

definition ALGORITHM_SM4_CCM :: byte where
  "ALGORITHM_SM4_CCM = 0x02"

definition FRAME_HEADER_BYTES :: usize where
  "FRAME_HEADER_BYTES = 14"

definition NONCE_BYTES :: usize where
  "NONCE_BYTES = 12"

definition TAG_BYTES :: usize where
  "TAG_BYTES = 16"

definition FRAME_OVERHEAD_BYTES :: usize where
  "FRAME_OVERHEAD_BYTES = FRAME_HEADER_BYTES + TAG_BYTES"

fun algorithm_byte :: "AeadAlgorithm \<Rightarrow> byte" where
  "algorithm_byte Sm4Gcm = ALGORITHM_SM4_GCM"
| "algorithm_byte Sm4Ccm = ALGORITHM_SM4_CCM"

text \<open>\<^verbatim>\<open>split_at\<close> and \<^verbatim>\<open>split_off\<close>, which panic past the end: \<open>None\<close>.\<close>

definition split_at :: "usize \<Rightarrow> bytes \<Rightarrow> (bytes \<times> bytes) option" where
  "split_at n xs = (if n \<le> length xs then Some (take n xs, drop n xs) else None)"

definition split_ciphertext_and_tag :: "bytes \<Rightarrow> (bytes \<times> bytes) option" where
  "split_ciphertext_and_tag joined =
     (if length joined < TAG_BYTES then None
      else Option.bind (split_at (length joined - TAG_BYTES) joined) (\<lambda>(joined, tag).
        if length tag = TAG_BYTES then Some (joined, tag) else None))"

definition aead_encrypt ::
  "('w, 'sk, 'pk) crypto \<Rightarrow> AeadAlgorithm \<Rightarrow> bytes \<Rightarrow> bytes \<Rightarrow> bytes \<Rightarrow> bytes \<Rightarrow> (bytes \<times> bytes) Result" where
  "aead_encrypt P algorithm session_key nonce aad plaintext =
     (case algorithm of
        Sm4Gcm \<Rightarrow> ok_or Encryption (gcm_encrypt P session_key nonce aad plaintext)
      | Sm4Ccm \<Rightarrow>
          bindR (ok_or Encryption (ccm_encrypt P session_key nonce aad plaintext TAG_BYTES)) (\<lambda>joined.
          ok_or Encryption (split_ciphertext_and_tag joined)))"

definition aead_decrypt ::
  "('w, 'sk, 'pk) crypto \<Rightarrow> AeadAlgorithm \<Rightarrow> bytes \<Rightarrow> bytes \<Rightarrow> bytes \<Rightarrow> bytes \<Rightarrow> bytes \<Rightarrow> bytes Result" where
  "aead_decrypt P algorithm session_key nonce aad ciphertext tag =
     (case algorithm of
        Sm4Gcm \<Rightarrow> ok_or InvalidEnvelope (gcm_decrypt P session_key nonce aad ciphertext tag)
      | Sm4Ccm \<Rightarrow>
          ok_or InvalidEnvelope (ccm_decrypt P session_key nonce aad (ciphertext @ tag) TAG_BYTES))"

definition aead_seal ::
  "('w, 'sk, 'pk) crypto \<Rightarrow> ClientConfig \<Rightarrow> ('sk, 'pk) KeyMaterial \<Rightarrow> bytes \<Rightarrow>
    AuthenticationContext \<Rightarrow> AeadAlgorithm \<Rightarrow> ('w, SecureEnvelope, Error) effect" where
  "aead_seal P config keys plaintext context algorithm =
     bindW (liftW (authentication_input (authentication_mode config) context plaintext)) (\<lambda>input.
     bindW (generate_session_key P) (\<lambda>session_key.
     bindW (callW Encryption (getrandom_fill P NONCE_BYTES)) (\<lambda>nonce.
     (let frame_header = [FRAME_VERSION, algorithm_byte algorithm] @ nonce in
      bindW (liftW (aead_aad (authentication_mode config) context frame_header)) (\<lambda>aad.
      bindW (liftW (aead_encrypt P algorithm session_key nonce aad plaintext)) (\<lambda>(ciphertext, tag).
      bindW (liftW (ok_or Encryption (checked_add FRAME_OVERHEAD_BYTES (length ciphertext)))) (\<lambda>frame_len.
      (let frame = frame_header @ ciphertext @ tag in
       bindW (callW Encryption (sm2_encrypt P (remote_encryption keys) session_key)) (\<lambda>wrapped.
       bindW (callW Encryption
         (sm2_sign_with_id P (local_signing keys) (local_signer_id config) input)) (\<lambda>sig.
       liftW (Inr \<lparr>cipher = base64_encode P frame, wrapped_session_key = base64_encode P wrapped,
         signature = base64_encode P sig\<rparr>)))))))))))"

text \<open>
  The frame's parts: header, encrypted payload and tag. A slice past the end, a length
  that underflows or a copy between different lengths would panic: \<open>None\<close>.
\<close>

definition frame_parts :: "bytes \<Rightarrow> usize \<Rightarrow> (bytes \<times> bytes \<times> bytes, Error) outcome" where
  "frame_parts frame plaintext_limit =
     Option.bind (split_at FRAME_HEADER_BYTES frame) (\<lambda>(header_bytes, rest).
     if length rest < TAG_BYTES then None
     else let ciphertext_len = length rest - TAG_BYTES in
       if ciphertext_len > plaintext_limit then Some (Inl InvalidEnvelope)
       else Option.bind (split_at ciphertext_len rest) (\<lambda>(ciphertext, tag_bytes).
         if length header_bytes = FRAME_HEADER_BYTES \<and> length tag_bytes = TAG_BYTES
         then Some (Inr (header_bytes, ciphertext, tag_bytes)) else None))"

definition aead_open ::
  "('w, 'sk, 'pk) crypto \<Rightarrow> ClientConfig \<Rightarrow> ('sk, 'pk) KeyMaterial \<Rightarrow> SecureEnvelope \<Rightarrow>
    AuthenticationContext \<Rightarrow> AeadAlgorithm \<Rightarrow> (bytes, Error) outcome" where
  "aead_open P config keys env context algorithm =
     (let plaintext_limit = max_plaintext_bytes config;
          max_frame_bytes = saturating_add plaintext_limit FRAME_OVERHEAD_BYTES
      in if str_len (cipher env) > base64_len max_frame_bytes
         then Some (Inl (MessageTooLarge plaintext_limit))
         else if str_len (wrapped_session_key env) > MAX_AUXILIARY_BASE64_BYTES \<or>
                 str_len (signature env) > MAX_AUXILIARY_BASE64_BYTES
         then Some (Inl InvalidEnvelope)
         else
      bindP (Some (decode_base64 P (cipher env))) (\<lambda>frame.
      bindP (Some (decode_base64 P (wrapped_session_key env))) (\<lambda>wrapped.
      bindP (Some (decode_base64 P (signature env))) (\<lambda>sig.
      if length frame < FRAME_OVERHEAD_BYTES then Some (Inl InvalidEnvelope)
      else if frame ! 0 \<noteq> FRAME_VERSION \<or> frame ! 1 \<noteq> algorithm_byte algorithm
      then Some (Inl InvalidEnvelope)
      else
      bindP (frame_parts frame plaintext_limit) (\<lambda>(frame_header, ciphertext, tag).
      (let nonce = drop 2 frame_header in
      bindP (Some (unwrap_session_key P keys wrapped)) (\<lambda>session_key.
      bindP (Some (map_err (\<lambda>_. InvalidEnvelope)
        (aead_aad (authentication_mode config) context frame_header))) (\<lambda>aad.
      bindP (Some (aead_decrypt P algorithm session_key nonce aad ciphertext tag)) (\<lambda>plaintext.
      bindP (Some (map_err (\<lambda>_. InvalidEnvelope)
        (authentication_input (authentication_mode config) context plaintext))) (\<lambda>input.
      if \<not> sm2_verify_with_id P (remote_verification keys) (expected_remote_signer_id config) input sig
      then Some (Inl InvalidEnvelope)
      else Some (Inr plaintext)))))))))))"

section \<open>Frames\<close>

lemmas frame_sizes =
  FRAME_HEADER_BYTES_def TAG_BYTES_def NONCE_BYTES_def FRAME_OVERHEAD_BYTES_def

lemma split_tag_append:
  "length tag = 16 \<Longrightarrow> split_ciphertext_and_tag (c @ tag) = Some (c, tag)"
  by (simp add: split_ciphertext_and_tag_def split_at_def TAG_BYTES_def)

lemma split_tag_Some:
  "split_ciphertext_and_tag j = Some (c, tag) \<longleftrightarrow> j = c @ tag \<and> length tag = 16"
  by (auto simp: split_ciphertext_and_tag_def split_at_def TAG_BYTES_def bind_eq_Some_conv
      split: if_splits)

lemma frame_parts_eq:
  "30 \<le> length frame \<Longrightarrow> frame_parts frame limit =
     Some (if limit + 30 < length frame then Inl InvalidEnvelope
       else Inr (take 14 frame, take (length frame - 30) (drop 14 frame), drop (length frame - 16) frame))"
  by (auto simp: frame_parts_def split_at_def frame_sizes Let_def)

text \<open>A frame of the pinned algorithm, in pieces.\<close>

definition frame_of :: "AeadAlgorithm \<Rightarrow> bytes \<Rightarrow> bytes \<Rightarrow> bytes \<Rightarrow> bytes" where
  "frame_of alg nonce ct tag = [1, algorithm_byte alg] @ nonce @ ct @ tag"

lemma frame_of_parts:
  assumes "length nonce = 12" "length tag = 16" "length ct \<le> limit"
  shows "frame_parts (frame_of alg nonce ct tag) limit =
    Some (Inr ([1, algorithm_byte alg] @ nonce, ct, tag))"
proof -
  define h where "h = [1, algorithm_byte alg] @ nonce"
  have "length h = 14" "frame_of alg nonce ct tag = h @ ct @ tag"
    using assms by (simp_all add: h_def frame_of_def)
  then show ?thesis using assms by (simp add: frame_parts_eq) (simp add: h_def)
qed

lemma frame_split:
  assumes "30 \<le> length frame" "frame ! 0 = 1" "frame ! 1 = algorithm_byte alg"
  obtains nonce ct tag where "frame = frame_of alg nonce ct tag" "length nonce = 12"
    "length tag = 16" "length ct + 30 = length frame"
proof -
  obtain a b r where f: "frame = a # b # r"
    using assms(1) by (cases frame; cases "tl frame") auto
  let ?nonce = "take 12 r" and ?ct = "take (length r - 28) (drop 12 r)" and ?tag = "drop (length r - 16) r"
  have "drop (length r - 28) (drop 12 r) = ?tag" using assms(1) f by simp
  then have "drop 12 r = ?ct @ ?tag" by (metis append_take_drop_id)
  then have "r = ?nonce @ ?ct @ ?tag" by (metis append_take_drop_id)
  then have "frame = frame_of alg ?nonce ?ct ?tag" using assms(2,3) f by (simp add: frame_of_def)
  with assms(1) f show ?thesis by (intro that [of ?nonce ?ct ?tag]) auto
qed

section \<open>Opening\<close>

text \<open>The size gate: what is rejected before anything is decoded.\<close>

definition aead_gate :: "ClientConfig \<Rightarrow> SecureEnvelope \<Rightarrow> bool" where
  "aead_gate config env \<longleftrightarrow>
     str_len (cipher env) \<le> base64_len (saturating_add (max_plaintext_bytes config) 30) \<and>
     str_len (wrapped_session_key env) \<le> MAX_AUXILIARY_BASE64_BYTES \<and>
     str_len (signature env) \<le> MAX_AUXILIARY_BASE64_BYTES"

definition aead_accepts ::
  "('w, 'sk, 'pk) crypto \<Rightarrow> ClientConfig \<Rightarrow> ('sk, 'pk) KeyMaterial \<Rightarrow> SecureEnvelope \<Rightarrow>
    AuthenticationContext \<Rightarrow> AeadAlgorithm \<Rightarrow> bytes \<Rightarrow> bool" where
  "aead_accepts P config keys env context alg p \<longleftrightarrow> aead_gate config env \<and>
     (\<exists>nonce ct tag wrapped key sig aad t.
        base64_decode P (cipher env) = Some (frame_of alg nonce ct tag) \<and>
        length nonce = 12 \<and> length tag = 16 \<and> length ct \<le> max_plaintext_bytes config \<and>
        base64_decode P (wrapped_session_key env) = Some wrapped \<and>
        sm2_decrypt P (local_decryption keys) wrapped = Some key \<and> length key = 16 \<and>
        aead_aad (authentication_mode config) context ([1, algorithm_byte alg] @ nonce) = Inr aad \<and>
        aead_decrypt P alg key nonce aad ct tag = Inr p \<and>
        authentication_input (authentication_mode config) context p = Inr t \<and>
        base64_decode P (signature env) = Some sig \<and>
        sm2_verify_with_id P (remote_verification keys) (expected_remote_signer_id config) t sig)"

lemma aead_open_gate:
  "\<not> aead_gate config env \<Longrightarrow> aead_open P config keys env context alg =
     Some (Inl (if base64_len (saturating_add (max_plaintext_bytes config) 30) < str_len (cipher env)
       then MessageTooLarge (max_plaintext_bytes config) else InvalidEnvelope))"
  by (auto simp: aead_open_def aead_gate_def Let_def frame_sizes)

lemma aead_open_past_gate:
  "aead_gate config env \<Longrightarrow> aead_open P config keys env context alg =
      bindP (Some (decode_base64 P (cipher env))) (\<lambda>frame.
      bindP (Some (decode_base64 P (wrapped_session_key env))) (\<lambda>wrapped.
      bindP (Some (decode_base64 P (signature env))) (\<lambda>sig.
      if length frame < 30 then Some (Inl InvalidEnvelope)
      else if frame ! 0 \<noteq> 1 \<or> frame ! 1 \<noteq> algorithm_byte alg
      then Some (Inl InvalidEnvelope)
      else
      bindP (frame_parts frame (max_plaintext_bytes config)) (\<lambda>(frame_header, ciphertext, tag).
      bindP (Some (unwrap_session_key P keys wrapped)) (\<lambda>session_key.
      bindP (Some (map_err (\<lambda>_. InvalidEnvelope)
        (aead_aad (authentication_mode config) context frame_header))) (\<lambda>aad.
      bindP (Some (aead_decrypt P alg session_key (drop 2 frame_header) aad ciphertext tag)) (\<lambda>plaintext.
      bindP (Some (map_err (\<lambda>_. InvalidEnvelope)
        (authentication_input (authentication_mode config) context plaintext))) (\<lambda>input.
      if \<not> sm2_verify_with_id P (remote_verification keys) (expected_remote_signer_id config) input sig
      then Some (Inl InvalidEnvelope)
      else Some (Inr plaintext)))))))))"
proof -
  assume "aead_gate config env"
  then have gates: "\<not> base64_len (saturating_add (max_plaintext_bytes config) 30) < str_len (cipher env)"
    "\<not> (MAX_AUXILIARY_BASE64_BYTES < str_len (wrapped_session_key env) \<or>
       MAX_AUXILIARY_BASE64_BYTES < str_len (signature env))"
    by (simp_all add: aead_gate_def not_less)
  have overhead: "FRAME_OVERHEAD_BYTES = 30" by (simp add: frame_sizes)
  show ?thesis
    by (simp only: aead_open_def Let_def overhead gates if_False FRAME_VERSION_def)
qed

lemma aead_decrypt_err: "aead_decrypt P alg k n a c t = Inl e \<Longrightarrow> e = InvalidEnvelope"
  by (auto simp: aead_decrypt_def ok_or_eq_Inl split: AeadAlgorithm.splits)

lemma aead_open_no_panic: "\<exists>r. aead_open P config keys env context alg = Some r"
proof (cases "aead_gate config env")
  case True
  have parts: "\<exists>r. frame_parts frame limit = Some r" if "\<not> length frame < 30" for frame limit
    using that by (simp add: frame_parts_eq)
  show ?thesis
    unfolding aead_open_past_gate [OF True] case_prod_beta
    by (intro bindP_returns if_returns parts) blast+
qed (auto simp: aead_open_gate)

lemma aead_open_iff:
  "aead_open P config keys env context alg = Some (Inr p) \<longleftrightarrow>
     aead_accepts P config keys env context alg p"
proof
  assume l: "aead_open P config keys env context alg = Some (Inr p)"
  then have gate: "aead_gate config env" using aead_open_gate by (metis Inl_Inr_False option.inject)
  from l obtain frame wrapped sig hd ct tag key aad t where
    d: "base64_decode P (cipher env) = Some frame"
    "base64_decode P (wrapped_session_key env) = Some wrapped"
    "base64_decode P (signature env) = Some sig" and
    f: "30 \<le> length frame" "frame ! 0 = 1" "frame ! 1 = algorithm_byte alg" and
    parts: "frame_parts frame (max_plaintext_bytes config) = Some (Inr (hd, ct, tag))" and
    rest: "unwrap_session_key P keys wrapped = Inr key"
    "aead_aad (authentication_mode config) context hd = Inr aad"
    "aead_decrypt P alg key (drop 2 hd) aad ct tag = Inr p"
    "authentication_input (authentication_mode config) context p = Inr t"
    "sm2_verify_with_id P (remote_verification keys) (expected_remote_signer_id config) t sig"
    unfolding aead_open_past_gate [OF gate]
    by (auto simp: bindP_eq_Inr decode_iff split: if_splits prod.splits)
  obtain nonce c' tag' where fr: "frame = frame_of alg nonce c' tag'" "length nonce = 12"
    "length tag' = 16" "length c' + 30 = length frame"
    using frame_split [OF f] by metis
  have "length c' \<le> max_plaintext_bytes config"
    using parts f(1) fr(4) by (auto simp: frame_parts_eq split: if_splits)
  then have "hd = [1, algorithm_byte alg] @ nonce" "ct = c'" "tag = tag'"
    using parts frame_of_parts [OF fr(2,3), of c' "max_plaintext_bytes config" alg] fr(1) by auto
  with gate d rest fr \<open>length c' \<le> max_plaintext_bytes config\<close>
  show "aead_accepts P config keys env context alg p"
    unfolding aead_accepts_def unwrap_iff by (intro conjI exI) auto
next
  assume "aead_accepts P config keys env context alg p"
  then obtain nonce ct tag wrapped key sig aad t where gate: "aead_gate config env" and
    d: "decode_base64 P (cipher env) = Inr (frame_of alg nonce ct tag)"
    "decode_base64 P (wrapped_session_key env) = Inr wrapped"
    "decode_base64 P (signature env) = Inr sig" and
    l: "length nonce = 12" "length tag = 16" "length ct \<le> max_plaintext_bytes config" and
    rest: "unwrap_session_key P keys wrapped = Inr key"
    "aead_aad (authentication_mode config) context ([1, algorithm_byte alg] @ nonce) = Inr aad"
    "aead_decrypt P alg key nonce aad ct tag = Inr p"
    "authentication_input (authentication_mode config) context p = Inr t"
    "sm2_verify_with_id P (remote_verification keys) (expected_remote_signer_id config) t sig"
    unfolding aead_accepts_def by (auto simp: unwrap_iff decode_iff)
  have "\<not> length (frame_of alg nonce ct tag) < 30" "frame_of alg nonce ct tag ! 0 = 1"
    "frame_of alg nonce ct tag ! 1 = algorithm_byte alg"
    using l by (simp_all add: frame_of_def)
  then show "aead_open P config keys env context alg = Some (Inr p)"
    using d rest frame_of_parts [OF l] by (simp add: aead_open_past_gate [OF gate])
qed

lemma aead_open_err:
  assumes "aead_open P config keys env context alg = Some (Inl e)"
  shows "e = (if base64_len (saturating_add (max_plaintext_bytes config) 30) < str_len (cipher env)
       then MessageTooLarge (max_plaintext_bytes config) else InvalidEnvelope)"
proof (cases "aead_gate config env")
  case True
  have parts: "frame_parts frame limit = Some (Inl e) \<Longrightarrow> \<not> length frame < 30 \<Longrightarrow> e = InvalidEnvelope"
    for frame limit by (auto simp: frame_parts_eq split: if_splits)
  have "e = InvalidEnvelope"
    using assms unfolding aead_open_past_gate [OF True]
    by (auto simp: bindP_eq_Inl decode_err map_err_eq_Inl split: if_splits prod.splits
        dest: unwrap_err aead_decrypt_err parts)
  with True show ?thesis by (simp add: aead_gate_def)
next
  case False
  with assms show ?thesis by (simp add: aead_open_gate)
qed

section \<open>Sealing\<close>

lemma aead_seal_iff:
  "aead_seal P config keys p context alg w = (Inr env, w') \<longleftrightarrow>
    (\<exists>t key w1 nonce w2 aad ct tag wrapped w3 sig.
       authentication_input (authentication_mode config) context p = Inr t \<and>
       getrandom_fill P 16 w = (Some key, w1) \<and> getrandom_fill P 12 w1 = (Some nonce, w2) \<and>
       aead_aad (authentication_mode config) context ([1, algorithm_byte alg] @ nonce) = Inr aad \<and>
       aead_encrypt P alg key nonce aad p = Inr (ct, tag) \<and> 30 + length ct \<le> usize_MAX \<and>
       sm2_encrypt P (remote_encryption keys) key w2 = (Some wrapped, w3) \<and>
       sm2_sign_with_id P (local_signing keys) (local_signer_id config) t w3 = (Some sig, w') \<and>
       env = \<lparr>cipher = base64_encode P (frame_of alg nonce ct tag),
              wrapped_session_key = base64_encode P wrapped, signature = base64_encode P sig\<rparr>)"
  by (auto simp: aead_seal_def bindW_eq_Inr callW_eq_Inr generate_session_key_def Let_def
      SESSION_KEY_BYTES_def frame_sizes FRAME_VERSION_def frame_of_def checked_add_Some
      split: prod.splits)

lemma aead_encrypt_decrypt:
  assumes "gcm_laws P" "ccm_laws P" "aead_encrypt P alg k n a p = Inr (c, t)"
  shows "aead_decrypt P alg k n a c t = Inr p \<and> length c = length p \<and> length t = 16"
proof (cases alg)
  case Sm4Gcm
  with assms show ?thesis by (auto simp: aead_encrypt_def aead_decrypt_def gcm_laws_def)
next
  case Sm4Ccm
  with assms(3) have j: "ccm_encrypt P k n a p 16 = Some (c @ t)" "length t = 16"
    by (auto simp: aead_encrypt_def bindR_eq_Inr split_tag_Some TAG_BYTES_def)
  have "ccm_decrypt P k n a (c @ t) 16 = Some p \<and> length (c @ t) = length p + 16"
    using assms(2) j(1) unfolding ccm_laws_def by blast
  with Sm4Ccm j show ?thesis by (simp add: aead_decrypt_def TAG_BYTES_def)
qed

end
