(* ===== verification/Envelope.thy ===== *)
theory Envelope
  imports Cbc Aead
begin

text \<open>
  The dispatch of \<^verbatim>\<open>src/envelope_crypto/mod.rs\<close> over the payload modes. The interface
  \<open>envelope_opener\<close> states what every mode promises the client: an accepted envelope carries
  a signature over the transcript of exactly the returned plaintext and the expected
  context, within the size limit, and a refusal has one of two categories. It is
  interpreted for CBC, for both authenticated algorithms and for the dispatch; what it
  implies about peers is proved once.
\<close>

section \<open>The code\<close>

definition envelope_seal ::
  "('w, 'sk, 'pk) crypto \<Rightarrow> ClientConfig \<Rightarrow> ('sk, 'pk) KeyMaterial \<Rightarrow> bytes \<Rightarrow>
    AuthenticationContext \<Rightarrow> ('w, SecureEnvelope, Error) effect" where
  "envelope_seal P config keys plaintext ctx =
     (let plaintext_limit = max_plaintext_bytes config in
      if length plaintext > plaintext_limit then liftW (Inl (MessageTooLarge plaintext_limit))
      else (case envelope_mode config of
              Aead algorithm \<Rightarrow> aead_seal P config keys plaintext ctx algorithm
            | LegacyCbc \<Rightarrow> cbc_seal P config keys plaintext ctx))"

text \<open>The tally of the CBC mode exists in test builds only and does not leave it.\<close>

definition envelope_open ::
  "('w, 'sk, 'pk) crypto \<Rightarrow> ClientConfig \<Rightarrow> ('sk, 'pk) KeyMaterial \<Rightarrow> SecureEnvelope \<Rightarrow>
    AuthenticationContext \<Rightarrow> (bytes, Error) outcome" where
  "envelope_open P config keys env ctx =
     (case envelope_mode config of
        Aead algorithm \<Rightarrow> aead_open P config keys env ctx algorithm
      | LegacyCbc \<Rightarrow> Some (fst (cbc_open P config keys env ctx 0)))"

section \<open>The interface of an opener\<close>

text \<open>A signature over a transcript that the configured peer key accepts.\<close>

definition peer_signed ::
  "('w, 'sk, 'pk) crypto \<Rightarrow> ClientConfig \<Rightarrow> ('sk, 'pk) KeyMaterial \<Rightarrow> bytes \<Rightarrow> bytes \<Rightarrow> bool" where
  "peer_signed P config keys t sig =
     sm2_verify_with_id P (remote_verification keys) (expected_remote_signer_id config) t sig"

locale envelope_opener =
  fixes P :: "('w, 'sk, 'pk) crypto"
    and config :: ClientConfig
    and keys :: "('sk, 'pk) KeyMaterial"
    and opn :: "SecureEnvelope \<Rightarrow> AuthenticationContext \<Rightarrow> (bytes, Error) outcome"
    and bound :: usize
  assumes returns: "\<exists>r. opn env ctx = Some r"
    and accepted: "opn env ctx = Some (Inr p) \<Longrightarrow>
      str_len (cipher env) \<le> bound \<and>
      (\<exists>t sig. authentication_input (authentication_mode config) ctx p = Inr t \<and>
         base64_decode P (signature env) = Some sig \<and> peer_signed P config keys t sig)"
    and within: "aead_sizes P \<Longrightarrow> opn env ctx = Some (Inr p) \<Longrightarrow>
      length p \<le> max_plaintext_bytes config"
    and refused: "opn env ctx = Some (Inl e) \<Longrightarrow>
      e = (if bound < str_len (cipher env) then MessageTooLarge (max_plaintext_bytes config)
           else InvalidEnvelope)"
begin

text \<open>
  Non-injective agreement: when the peer key only verifies transcripts of messages that
  were sealed, an accepted envelope carries one of those messages together with the very
  context it was sealed for.
\<close>

lemma agreement:
  assumes signed: "\<And>t sig. peer_signed P config keys t sig \<Longrightarrow>
      \<exists>(x, q) \<in> M. authentication_input (authentication_mode config) x q = Inr t"
    and accept: "opn env ctx = Some (Inr p)"
  shows "(ctx, p) \<in> M"
proof -
  obtain t sig where t: "authentication_input (authentication_mode config) ctx p = Inr t"
    and "peer_signed P config keys t sig"
    using accepted [OF accept] by auto
  then obtain x q where "(x, q) \<in> M" "authentication_input (authentication_mode config) x q = Inr t"
    using signed by blast
  with t authentication_input_inject show ?thesis by blast
qed

lemma accepted_context:
  assumes "opn env ctx = Some (Inr p)"
  shows "mode_ok (authentication_mode config) \<and> context_matches (authentication_mode config) ctx"
  using accepted [OF assms] authentication_input_okD by blast

end

interpretation cbc: envelope_opener P config keys
  "\<lambda>env ctx. Some (fst (cbc_open P config keys env ctx 0))"
  "base64_len (padded_cipher_len (max_plaintext_bytes config))"
  for P :: "('w, 'sk, 'pk) crypto" and config keys
proof unfold_locales
  fix env ctx p e
  show "\<exists>r. Some (fst (cbc_open P config keys env ctx 0)) = Some r" by blast
  show "Some (fst (cbc_open P config keys env ctx 0)) = Some (Inr p) \<Longrightarrow>
      str_len (cipher env) \<le> base64_len (padded_cipher_len (max_plaintext_bytes config)) \<and>
      (\<exists>t sig. authentication_input (authentication_mode config) ctx p = Inr t \<and>
         base64_decode P (signature env) = Some sig \<and> peer_signed P config keys t sig)"
    by (auto simp: cbc_open_iff cbc_unwrapped_def peer_signed_def)
  show "aead_sizes P \<Longrightarrow> Some (fst (cbc_open P config keys env ctx 0)) = Some (Inr p) \<Longrightarrow>
      length p \<le> max_plaintext_bytes config"
    by (auto simp: cbc_open_iff)
  show "Some (fst (cbc_open P config keys env ctx 0)) = Some (Inl e) \<Longrightarrow>
      e = (if base64_len (padded_cipher_len (max_plaintext_bytes config)) < str_len (cipher env)
           then MessageTooLarge (max_plaintext_bytes config) else InvalidEnvelope)"
    unfolding option.inject by (rule cbc_open_err)
qed

lemma aead_decrypt_length:
  "aead_sizes P \<Longrightarrow> aead_decrypt P alg k n a c t = Inr p \<Longrightarrow> length t = 16 \<Longrightarrow> length p = length c"
  by (cases alg) (fastforce simp: aead_sizes_def aead_decrypt_def TAG_BYTES_def)+

interpretation aead: envelope_opener P config keys
  "\<lambda>env ctx. aead_open P config keys env ctx alg"
  "base64_len (saturating_add (max_plaintext_bytes config) 30)"
  for P :: "('w, 'sk, 'pk) crypto" and config keys alg
proof unfold_locales
  fix env ctx p e
  show "\<exists>r. aead_open P config keys env ctx alg = Some r" by (rule aead_open_no_panic)
  show "aead_open P config keys env ctx alg = Some (Inr p) \<Longrightarrow>
      str_len (cipher env) \<le> base64_len (saturating_add (max_plaintext_bytes config) 30) \<and>
      (\<exists>t sig. authentication_input (authentication_mode config) ctx p = Inr t \<and>
         base64_decode P (signature env) = Some sig \<and> peer_signed P config keys t sig)"
    by (auto simp: aead_open_iff aead_accepts_def aead_gate_def peer_signed_def)
  show "aead_sizes P \<Longrightarrow> aead_open P config keys env ctx alg = Some (Inr p) \<Longrightarrow>
      length p \<le> max_plaintext_bytes config"
    by (auto simp: aead_open_iff aead_accepts_def dest!: aead_decrypt_length)
  show "aead_open P config keys env ctx alg = Some (Inl e) \<Longrightarrow>
      e = (if base64_len (saturating_add (max_plaintext_bytes config) 30) < str_len (cipher env)
           then MessageTooLarge (max_plaintext_bytes config) else InvalidEnvelope)"
    by (rule aead_open_err)
qed

text \<open>The longest cipher text a configuration lets through, and the dispatch.\<close>

definition cipher_bound :: "ClientConfig \<Rightarrow> usize" where
  "cipher_bound config =
     (case envelope_mode config of
        Aead _ \<Rightarrow> base64_len (saturating_add (max_plaintext_bytes config) 30)
      | LegacyCbc \<Rightarrow> base64_len (padded_cipher_len (max_plaintext_bytes config)))"

interpretation env: envelope_opener P config keys "envelope_open P config keys" "cipher_bound config"
  for P :: "('w, 'sk, 'pk) crypto" and config keys
proof (cases "envelope_mode config")
  case LegacyCbc
  then have "envelope_open P config keys =
      (\<lambda>env ctx. Some (fst (cbc_open P config keys env ctx 0)))"
    and "cipher_bound config = base64_len (padded_cipher_len (max_plaintext_bytes config))"
    by (simp_all add: envelope_open_def cipher_bound_def fun_eq_iff)
  then show "envelope_opener P config keys (envelope_open P config keys) (cipher_bound config)"
    using cbc.envelope_opener_axioms by simp
next
  case (Aead alg)
  then have "envelope_open P config keys =
      (\<lambda>env ctx. aead_open P config keys env ctx alg)"
    and "cipher_bound config = base64_len (saturating_add (max_plaintext_bytes config) 30)"
    by (simp_all add: envelope_open_def cipher_bound_def fun_eq_iff)
  then show "envelope_opener P config keys (envelope_open P config keys) (cipher_bound config)"
    using aead.envelope_opener_axioms by simp
qed

end
