(* ===== verification/Exchange.thy ===== *)
theory Exchange
  imports Envelope
begin

text \<open>
  Two endpoints that use the envelope dispatch of \<^verbatim>\<open>src/envelope_crypto/mod.rs\<close>: when sealing
  succeeds and how long the result is, that the configured peer opens exactly what was
  sealed, and what an accepted envelope proves about its origin, context and algorithm.
\<close>

section \<open>Endpoints\<close>

text \<open>The sender's configuration and keys are the ones the receiver expects of its peer.\<close>

definition peers ::
  "('w, 'sk, 'pk) crypto \<Rightarrow> ClientConfig \<Rightarrow> ('sk, 'pk) KeyMaterial \<Rightarrow> ClientConfig \<Rightarrow>
    ('sk, 'pk) KeyMaterial \<Rightarrow> bool" where
  "peers P sc sk rc rk \<longleftrightarrow>
     remote_encryption sk = sm2_public_key P (local_decryption rk) \<and>
     remote_verification rk = sm2_public_key P (local_signing sk) \<and>
     expected_remote_signer_id rc = local_signer_id sc \<and>
     authentication_mode rc = authentication_mode sc \<and> envelope_mode rc = envelope_mode sc \<and>
     iv rc = iv sc \<and> max_plaintext_bytes sc \<le> max_plaintext_bytes rc"

text \<open>Nothing the operating system or the primitives could refuse is refused.\<close>

definition available :: "('w, 'sk, 'pk) crypto \<Rightarrow> bool" where
  "available P \<longleftrightarrow>
     (\<forall>n w. fst (getrandom_fill P n w) \<noteq> None) \<and>
     (\<forall>pk m w. fst (sm2_encrypt P pk m w) \<noteq> None) \<and>
     (\<forall>k n a p. length k = 16 \<longrightarrow> length n = 12 \<longrightarrow> gcm_encrypt P k n a p \<noteq> None) \<and>
     (\<forall>k n a p. length k = 16 \<longrightarrow> length n = 12 \<longrightarrow> length p < 2 ^ 24 \<longrightarrow>
        ccm_encrypt P k n a p 16 \<noteq> None)"

definition signs :: "('w, 'sk, 'pk) crypto \<Rightarrow> ClientConfig \<Rightarrow> ('sk, 'pk) KeyMaterial \<Rightarrow> bytes \<Rightarrow> bool" where
  "signs P config keys t \<longleftrightarrow>
     (\<forall>w. fst (sm2_sign_with_id P (local_signing keys) (local_signer_id config) t w) \<noteq> None)"

text \<open>The length of a cipher text before it is encoded.\<close>

definition sealed_len :: "EnvelopeMode \<Rightarrow> nat \<Rightarrow> nat" where
  "sealed_len m n = (case m of LegacyCbc \<Rightarrow> (n div 16 + 1) * 16 | Aead _ \<Rightarrow> n + 30)"

lemma peer_unwraps:
  "sm2_laws P \<Longrightarrow> peers P sc sk rc rk \<Longrightarrow> sm2_encrypt P (remote_encryption sk) k w = (Some c, w') \<Longrightarrow>
     sm2_decrypt P (local_decryption rk) c = Some k"
  unfolding sm2_laws_def peers_def by metis

lemma peer_verifies:
  "sm2_laws P \<Longrightarrow> peers P sc sk rc rk \<Longrightarrow>
     sm2_sign_with_id P (local_signing sk) (local_signer_id sc) t w = (Some s, w') \<Longrightarrow>
     sm2_verify_with_id P (remote_verification rk) (expected_remote_signer_id rc) t s"
  unfolding sm2_laws_def peers_def by metis

lemma fill_length: "os_laws P \<Longrightarrow> getrandom_fill P n w = (Some r, w') \<Longrightarrow> length r = n"
  unfolding os_laws_def by blast

lemma cbc_lawsD:
  assumes "cbc_laws P" "length k = 16" "length v = 16"
  shows "cbc_decrypt P k v (cbc_encrypt P k v p) = Some p"
    "length (cbc_encrypt P k v p) = (length p div 16 + 1) * 16"
  using assms unfolding cbc_laws_def by blast+

lemma fst_Some: "fst x \<noteq> None \<Longrightarrow> \<exists>a w. x = (Some a, w)"
  by (cases x) auto

lemma availableD:
  assumes "available P"
  shows "\<exists>r w'. getrandom_fill P n w = (Some r, w')"
    "\<exists>c w'. sm2_encrypt P pk m w = (Some c, w')"
  using assms unfolding available_def by (blast intro: fst_Some)+

lemma signsD:
  "signs P config keys t \<Longrightarrow>
     \<exists>s w'. sm2_sign_with_id P (local_signing keys) (local_signer_id config) t w = (Some s, w')"
  unfolding signs_def by (blast intro: fst_Some)

text \<open>The specification of opening.\<close>

definition opens_to ::
  "('w, 'sk, 'pk) crypto \<Rightarrow> ClientConfig \<Rightarrow> ('sk, 'pk) KeyMaterial \<Rightarrow> SecureEnvelope \<Rightarrow>
    AuthenticationContext \<Rightarrow> bytes \<Rightarrow> bool" where
  "opens_to P config keys env ctx p \<longleftrightarrow>
     (case envelope_mode config of
        Aead alg \<Rightarrow> aead_accepts P config keys env ctx alg p
      | LegacyCbc \<Rightarrow>
          (\<exists>ciph sig key t. cbc_unwrapped P config keys env ciph sig key \<and>
             cbc_decrypt P key (iv config) ciph = Some p \<and> length p \<le> max_plaintext_bytes config \<and>
             authentication_input (authentication_mode config) ctx p = Inr t \<and>
             sm2_verify_with_id P (remote_verification keys) (expected_remote_signer_id config) t sig))"

lemma opens_to_iff:
  "envelope_open P config keys env ctx = Some (Inr p) \<longleftrightarrow> opens_to P config keys env ctx p"
  by (simp add: envelope_open_def opens_to_def aead_open_iff cbc_open_iff split: EnvelopeMode.split)

section \<open>Sealing\<close>

lemma cbc_seal_size:
  assumes "crypto_laws P" "length (iv config) = 16" "cbc_seal P config keys p ctx w = (Inr env, w')"
  shows "str_len (cipher env) = 4 * (((length p div 16 + 1) * 16 + 2) div 3)"
proof -
  from assms(3) obtain key w1 where "getrandom_fill P 16 w = (Some key, w1)"
    and env: "cipher env = base64_encode P (cbc_encrypt P key (iv config) p)"
    by (auto simp: cbc_seal_iff)
  then have "length (cbc_encrypt P key (iv config) p) = (length p div 16 + 1) * 16"
    using cbc_lawsD(2) [OF crypto_lawsD(5) [OF assms(1)] _ assms(2)]
      fill_length [OF crypto_lawsD(1) [OF assms(1)]] by simp
  then show ?thesis unfolding env base64_str_len [OF crypto_lawsD(2) [OF assms(1)]] by simp
qed

lemma aead_seal_size:
  assumes "crypto_laws P" "aead_seal P config keys p ctx alg w = (Inr env, w')"
  shows "str_len (cipher env) = 4 * ((length p + 32) div 3)"
proof -
  from assms(2) obtain key w1 nonce w2 aad ct tag where
    "getrandom_fill P 12 w1 = (Some nonce, w2)" "aead_encrypt P alg key nonce aad p = Inr (ct, tag)"
    "cipher env = base64_encode P (frame_of alg nonce ct tag)"
    by (auto simp: aead_seal_iff)
  moreover from this have "length nonce = 12" "length ct = length p" "length tag = 16"
    using fill_length [OF crypto_lawsD(1) [OF assms(1)]]
      aead_encrypt_decrypt [OF crypto_lawsD(6,7) [OF assms(1)]] by simp_all
  ultimately show ?thesis using assms(1) by (simp add: base64_str_len crypto_laws_def frame_of_def)
qed

lemma envelope_seal_within:
  "envelope_seal P config keys p ctx w = (Inr env, w') \<Longrightarrow> length p \<le> max_plaintext_bytes config"
  by (auto simp: envelope_seal_def Let_def split: if_splits)

lemma envelope_seal_mode:
  "length p \<le> max_plaintext_bytes config \<Longrightarrow> envelope_seal P config keys p ctx =
     (case envelope_mode config of
        Aead alg \<Rightarrow> aead_seal P config keys p ctx alg
      | LegacyCbc \<Rightarrow> cbc_seal P config keys p ctx)"
  by (simp add: envelope_seal_def Let_def)

lemma envelope_seal_size:
  assumes "crypto_laws P" "config_ok config" "envelope_seal P config keys p ctx w = (Inr env, w')"
  shows "str_len (cipher env) = 4 * ((sealed_len (envelope_mode config) (length p) + 2) div 3)"
proof -
  have seal: "envelope_seal P config keys p ctx w = (case envelope_mode config of
        Aead alg \<Rightarrow> aead_seal P config keys p ctx alg w
      | LegacyCbc \<Rightarrow> cbc_seal P config keys p ctx w)"
    using envelope_seal_within [OF assms(3)]
    by (simp add: envelope_seal_mode split: EnvelopeMode.split)
  show ?thesis
  proof (cases "envelope_mode config")
    case LegacyCbc
    with seal assms(3) have "cbc_seal P config keys p ctx w = (Inr env, w')" by simp
    from cbc_seal_size [OF assms(1) _ this] assms(2) LegacyCbc show ?thesis
      by (simp add: config_ok_def sealed_len_def)
  next
    case (Aead alg)
    with seal assms(3) have "aead_seal P config keys p ctx alg w = (Inr env, w')" by simp
    from aead_seal_size [OF assms(1) this] Aead show ?thesis by (simp add: sealed_len_def)
  qed
qed

lemma authentication_input_fits:
  assumes "mode_ok m" "context_matches m x"
    "25 + length (mode_domain m) + length (context_bytes x) + length p \<le> usize_MAX"
  shows "\<exists>t. authentication_input m x p = Inr t"
  using assms(2)
proof (cases rule: context_matches_cases)
  case legacy
  then show ?thesis by (simp add: authentication_input_def)
next
  case (bound d c)
  with assms(1,3) show ?thesis by (simp add: authentication_input_bound mode_ok_def)
qed

lemma cbc_seal_live:
  assumes "available P" "signs P config keys t"
    and "authentication_input (authentication_mode config) ctx p = Inr t"
  shows "\<exists>env w'. cbc_seal P config keys p ctx w = (Inr env, w')"
proof -
  obtain key w1 where "getrandom_fill P 16 w = (Some key, w1)" using availableD(1) [OF assms(1)] by blast
  moreover obtain wrapped w2 where "sm2_encrypt P (remote_encryption keys) key w1 = (Some wrapped, w2)"
    using availableD(2) [OF assms(1)] by blast
  moreover obtain sig w3 where
    "sm2_sign_with_id P (local_signing keys) (local_signer_id config) t w2 = (Some sig, w3)"
    using signsD [OF assms(2)] by blast
  ultimately show ?thesis using assms(3) unfolding cbc_seal_iff by metis
qed

lemma aead_encrypt_live:
  assumes "available P" "crypto_laws P" "length key = 16" "length nonce = 12"
    and "alg = Sm4Ccm \<longrightarrow> length p < 2 ^ 24"
  shows "\<exists>ct tag. aead_encrypt P alg key nonce aad p = Inr (ct, tag) \<and> length ct = length p"
proof (cases alg)
  case Sm4Gcm
  then obtain ct tag where "gcm_encrypt P key nonce aad p = Some (ct, tag)"
    using assms(1,3,4) unfolding available_def by fastforce
  then have "aead_encrypt P alg key nonce aad p = Inr (ct, tag)"
    using Sm4Gcm by (simp add: aead_encrypt_def)
  then show ?thesis using aead_encrypt_decrypt crypto_lawsD(6,7) [OF assms(2)] by blast
next
  case Sm4Ccm
  then obtain j where j: "ccm_encrypt P key nonce aad p 16 = Some j"
    using assms(1,3,4,5) unfolding available_def by blast
  then have "length j = length p + 16"
    using crypto_lawsD(7) [OF assms(2)] unfolding ccm_laws_def by blast
  then have "j = take (length p) j @ drop (length p) j" "length (drop (length p) j) = 16" by simp_all
  then have "split_ciphertext_and_tag j = Some (take (length p) j, drop (length p) j)"
    unfolding split_tag_Some by blast
  with Sm4Ccm j \<open>length j = length p + 16\<close> show ?thesis
    by (simp add: aead_encrypt_def TAG_BYTES_def)
qed

lemma aead_seal_live:
  assumes "available P" "crypto_laws P" "signs P config keys t" "config_ok config"
    and t: "authentication_input (authentication_mode config) ctx p = Inr t"
    and alg: "envelope_mode config = Aead alg" and len: "length p \<le> max_plaintext_bytes config"
    and fits: "80 + length (mode_domain (authentication_mode config)) + length (context_bytes ctx) +
      length p \<le> usize_MAX"
  shows "\<exists>env w'. aead_seal P config keys p ctx alg w = (Inr env, w')"
proof -
  have ccm: "alg = Sm4Ccm \<longrightarrow> length p < 2 ^ 24" using assms(4) alg len by (auto simp: config_ok_def)
  obtain key w1 nonce w2 where r: "getrandom_fill P 16 w = (Some key, w1)"
    "getrandom_fill P 12 w1 = (Some nonce, w2)"
    using availableD(1) [OF assms(1)] by metis
  then have l: "length key = 16" "length nonce = 12"
    using fill_length [OF crypto_lawsD(1) [OF assms(2)]] by simp_all
  obtain aad where a: "aead_aad (authentication_mode config) ctx ([1, algorithm_byte alg] @ nonce) = Inr aad"
    using authentication_input_okD [OF t] fits l by (simp add: aead_aad_eq)
  obtain ct tag where c: "aead_encrypt P alg key nonce aad p = Inr (ct, tag)" "length ct = length p"
    using aead_encrypt_live [OF assms(1,2) l ccm] by blast
  obtain wrapped w3 where w: "sm2_encrypt P (remote_encryption keys) key w2 = (Some wrapped, w3)"
    using availableD(2) [OF assms(1)] by blast
  obtain sig w4 where
    "sm2_sign_with_id P (local_signing keys) (local_signer_id config) t w3 = (Some sig, w4)"
    using signsD [OF assms(3)] by blast
  moreover have "30 + length ct \<le> usize_MAX" using c(2) fits by simp
  ultimately show ?thesis using r t a c(1) w unfolding aead_seal_iff by blast
qed

lemma envelope_seal_live:
  assumes "available P" "crypto_laws P" "signs P config keys t" "config_ok config"
    and t: "authentication_input (authentication_mode config) ctx p = Inr t"
    and len: "length p \<le> max_plaintext_bytes config"
    and fits: "80 + length (mode_domain (authentication_mode config)) + length (context_bytes ctx) +
      length p \<le> usize_MAX"
  shows "\<exists>env w'. envelope_seal P config keys p ctx w = (Inr env, w')"
proof (cases "envelope_mode config")
  case LegacyCbc
  then show ?thesis using cbc_seal_live [OF assms(1,3) t] by (simp add: envelope_seal_mode [OF len])
next
  case (Aead alg)
  then show ?thesis using aead_seal_live [OF assms(1-4) t Aead len fits]
    by (simp add: envelope_seal_mode [OF len])
qed

section \<open>Opening what was sealed\<close>

lemma cbc_open_sealed:
  assumes laws: "crypto_laws P" and peers: "peers P sc sk rc rk" and iv: "length (iv sc) = 16"
    and len: "length p \<le> max_plaintext_bytes sc" and fits: "str_len (cipher env) \<le> usize_MAX"
    and seal: "cbc_seal P sc sk p ctx w = (Inr env, w')"
  shows "fst (cbc_open P rc rk env ctx calls) = Inr p"
proof -
  note laws = crypto_lawsD [OF laws]
  from seal obtain t key w1 wrapped w2 sig where
    t: "authentication_input (authentication_mode sc) ctx p = Inr t" and
    key: "getrandom_fill P 16 w = (Some key, w1)" and
    wrap: "sm2_encrypt P (remote_encryption sk) key w1 = (Some wrapped, w2)" and
    sig: "sm2_sign_with_id P (local_signing sk) (local_signer_id sc) t w2 = (Some sig, w')" and
    env: "env = \<lparr>cipher = base64_encode P (cbc_encrypt P key (iv sc) p),
      wrapped_session_key = base64_encode P wrapped, signature = base64_encode P sig\<rparr>"
    by (auto simp: cbc_seal_iff)
  let ?c = "cbc_encrypt P key (iv sc) p"
  have k: "length key = 16" using fill_length [OF laws(1) key] .
  have c: "cbc_decrypt P key (iv sc) ?c = Some p" "length ?c = (length p div 16 + 1) * 16"
    using cbc_lawsD [OF laws(5) k iv] .
  have p: "length p \<le> max_plaintext_bytes rc" using len peers by (simp add: peers_def)
  have "length ?c \<le> usize_MAX"
    using fits laws(2) by (simp add: env base64_str_len)
  then have small: "length ?c \<le> padded_cipher_len (max_plaintext_bytes rc)"
    using padded_cipher_len_mono [OF p] c(2) by (simp add: padded_cipher_len_eq)
  have sizes: "length wrapped \<le> 256" "length sig \<le> 256"
    using laws(4) k wrap sig unfolding sm2_sizes_def by blast+
  have "cbc_unwrapped P rc rk env ?c sig key"
    using laws(2) peer_unwraps [OF laws(3) peers wrap] k small encoded_within [OF laws(2) small] fits
      sizes small_encoded [OF laws(2)]
    by (simp add: cbc_unwrapped_def env base64_laws_def)
  moreover note peer_verifies [OF laws(3) peers sig]
  moreover have "iv rc = iv sc" "authentication_mode rc = authentication_mode sc"
    using peers by (simp_all add: peers_def)
  ultimately show ?thesis
    unfolding cbc_open_iff using c(1) p t
    by (intro exI [of _ ?c] exI [of _ sig] exI [of _ key] exI [of _ t]) simp
qed

lemma aead_open_sealed:
  assumes laws: "crypto_laws P" and peers: "peers P sc sk rc rk"
    and len: "length p \<le> max_plaintext_bytes sc" and fits: "str_len (cipher env) \<le> usize_MAX"
    and seal: "aead_seal P sc sk p ctx alg w = (Inr env, w')"
  shows "aead_open P rc rk env ctx alg = Some (Inr p)"
proof -
  note laws = crypto_lawsD [OF laws]
  from seal obtain t key w1 nonce w2 aad ct tag wrapped w3 sig where
    t: "authentication_input (authentication_mode sc) ctx p = Inr t" and
    key: "getrandom_fill P 16 w = (Some key, w1)" and
    nonce: "getrandom_fill P 12 w1 = (Some nonce, w2)" and
    aad: "aead_aad (authentication_mode sc) ctx ([1, algorithm_byte alg] @ nonce) = Inr aad" and
    ct: "aead_encrypt P alg key nonce aad p = Inr (ct, tag)" and
    wrap: "sm2_encrypt P (remote_encryption sk) key w2 = (Some wrapped, w3)" and
    sig: "sm2_sign_with_id P (local_signing sk) (local_signer_id sc) t w3 = (Some sig, w')" and
    env: "env = \<lparr>cipher = base64_encode P (frame_of alg nonce ct tag),
      wrapped_session_key = base64_encode P wrapped, signature = base64_encode P sig\<rparr>"
    by (auto simp: aead_seal_iff)
  let ?f = "frame_of alg nonce ct tag"
  have k: "length key = 16" "length nonce = 12" using fill_length [OF laws(1) key] fill_length [OF laws(1) nonce] .
  have d: "aead_decrypt P alg key nonce aad ct tag = Inr p" "length ct = length p" "length tag = 16"
    using aead_encrypt_decrypt [OF laws(6,7) ct] by simp_all
  have p: "length p \<le> max_plaintext_bytes rc" using len peers by (simp add: peers_def)
  have f: "length ?f = length p + 30" using k d by (simp add: frame_of_def)
  moreover have "length ?f \<le> usize_MAX" using fits laws(2) by (simp add: env base64_str_len)
  ultimately have small: "length ?f \<le> saturating_add (max_plaintext_bytes rc) 30"
    using p by (simp add: saturating_add_def)
  have sizes: "length wrapped \<le> 256" "length sig \<le> 256"
    using laws(4) k wrap sig unfolding sm2_sizes_def by blast+
  have gate: "aead_gate rc env"
    using encoded_within [OF laws(2) small] fits small_encoded [OF laws(2)] sizes
    by (simp add: aead_gate_def env)
  note peer_unwraps [OF laws(3) peers wrap] peer_verifies [OF laws(3) peers sig]
  moreover have "base64_decode P (base64_encode P b) = Some b" for b
    using laws(2) by (simp add: base64_laws_def)
  moreover have "authentication_mode rc = authentication_mode sc" using peers by (simp add: peers_def)
  ultimately have "aead_accepts P rc rk env ctx alg p"
    unfolding aead_accepts_def using gate k d p t aad
    by - (rule conjI, assumption, rule exI [of _ nonce], rule exI [of _ ct],
        rule exI [of _ tag], rule exI [of _ wrapped], rule exI [of _ key],
        rule exI [of _ sig], rule exI [of _ aad], rule exI [of _ t], simp add: env)
  then show ?thesis by (simp add: aead_open_iff)
qed

lemma envelope_open_sealed:
  assumes "crypto_laws P" "config_ok sc" "peers P sc sk rc rk" "str_len (cipher env) \<le> usize_MAX"
    and seal: "envelope_seal P sc sk p ctx w = (Inr env, w')"
  shows "envelope_open P rc rk env ctx = Some (Inr p)"
proof -
  have mode: "envelope_mode rc = envelope_mode sc" using assms(3) by (simp add: peers_def)
  note len = envelope_seal_within [OF seal]
  show ?thesis
  proof (cases "envelope_mode sc")
    case LegacyCbc
    then have "cbc_seal P sc sk p ctx w = (Inr env, w')" using seal len by (simp add: envelope_seal_mode)
    moreover have "length (iv sc) = 16" using assms(2) by (simp add: config_ok_def)
    ultimately show ?thesis
      using cbc_open_sealed [OF assms(1,3) _ len assms(4)] mode LegacyCbc by (simp add: envelope_open_def)
  next
    case (Aead alg)
    then have "aead_seal P sc sk p ctx alg w = (Inr env, w')" using seal len by (simp add: envelope_seal_mode)
    then show ?thesis
      using aead_open_sealed [OF assms(1,3) len assms(4)] mode Aead by (simp add: envelope_open_def)
  qed
qed

section \<open>A pair of endpoints\<close>

definition alice_keys :: "(byte, byte) KeyMaterial" where
  "alice_keys = \<lparr>local_signing = 1, local_decryption = 2, remote_verification = 3,
     remote_encryption = 4, remote_verification_source = Spki, remote_encryption_source = Spki,
     shared_roles = False\<rparr>"

definition bob_keys :: "(byte, byte) KeyMaterial" where
  "bob_keys = \<lparr>local_signing = 3, local_decryption = 4, remote_verification = 1,
     remote_encryption = 2, remote_verification_source = Spki, remote_encryption_source = Spki,
     shared_roles = False\<rparr>"

definition bob_config :: ClientConfig where
  "bob_config = sample_config \<lparr>local_signer_id := blit ''t'', expected_remote_signer_id := blit ''s''\<rparr>"

definition sample_context :: AuthenticationContext where
  "sample_context = AuthenticationContext (Bound (blit ''c''))"

text \<open>Primitives whose signer signs one transcript only.\<close>

definition one_message :: "bytes \<Rightarrow> (nat, byte, byte) crypto" where
  "one_message t = plain_crypto
     \<lparr>sm2_sign_with_id := (\<lambda>sk i m w. (if m = t then Some [sk, checksum i, checksum m] else None, w + 1)),
      sm2_verify_with_id := (\<lambda>pk i m s. m = t \<and> s = [pk, checksum i, checksum m])\<rparr>"

lemma one_message_laws: "crypto_laws (one_message t)"
  using plain_crypto_laws
  by (auto simp: crypto_laws_def one_message_def os_laws_def base64_laws_def sm2_laws_def sm2_sizes_def
      cbc_laws_def gcm_laws_def ccm_laws_def plain_crypto_def)

lemma samples_available:
  "available plain_crypto" "available (one_message t)" "signs plain_crypto config keys t"
  "signs (one_message t) config keys t"
  by (auto simp: available_def signs_def one_message_def plain_crypto_def counting_os_def)

lemma sample_peers:
  "peers plain_crypto sample_config alice_keys bob_config bob_keys"
  "peers (one_message t) sample_config alice_keys bob_config bob_keys"
  by (simp_all add: peers_def alice_keys_def bob_keys_def bob_config_def one_message_def
      plain_crypto_def sample_config_def)

lemma sample_fits:
  "80 + length (mode_domain (authentication_mode sample_config)) +
     length (context_bytes sample_context) + length [1, 2 :: byte] \<le> usize_MAX"
  "\<exists>t. authentication_input (authentication_mode sample_config) sample_context [1, 2] = Inr t"
  "length [1, 2 :: byte] \<le> max_plaintext_bytes sample_config"
  by (simp_all add: sample_config_def sample_context_def blit_def usize_MAX_def
      authentication_input_bound)

lemma sample_sealed:
  obtains t env w' where "authentication_input (authentication_mode sample_config) sample_context [1, 2] = Inr t"
    "envelope_seal (one_message t) sample_config alice_keys [1, 2] sample_context w = (Inr env, w')"
    "str_len (cipher env) \<le> usize_MAX"
proof -
  obtain t where t: "authentication_input (authentication_mode sample_config) sample_context [1, 2] = Inr t"
    using sample_fits(2) by blast
  obtain env w' where s: "envelope_seal (one_message t) sample_config alice_keys [1, 2] sample_context w = (Inr env, w')"
    using envelope_seal_live [OF samples_available(2) one_message_laws samples_available(4)
        sample_config_ok t sample_fits(3,1)] by blast
  have "str_len (cipher env) \<le> usize_MAX"
    unfolding envelope_seal_size [OF one_message_laws sample_config_ok s]
    by (simp add: sealed_len_def sample_config_def usize_MAX_def)
  with that t s show ?thesis by blast
qed

section \<open>Properties\<close>

text \<open>
  Property C1: the configured peer opens exactly what was sealed. Whatever the payload mode,
  the plaintext and the authentication context, an envelope that sealing returns opens at
  the peer, under the same context, to the same bytes.
\<close>

theorem seal_open_roundtrip:
  assumes "crypto_laws P" "config_ok sc" "peers P sc sk rc rk"
    and "envelope_seal P sc sk p ctx w = (Inr env, w')" "str_len (cipher env) \<le> usize_MAX"
  shows "envelope_open P rc rk env ctx = Some (Inr p)"
  using envelope_open_sealed [OF assms(1-3,5,4)] .

theorem seal_open_roundtrip_witness:
  "\<exists>(P :: (nat, byte, byte) crypto) env w'. envelope_seal P sample_config alice_keys [1, 2] sample_context 0 = (Inr env, w') \<and>
     envelope_open P bob_config bob_keys env sample_context = Some (Inr [1, 2])"
proof -
  obtain t env w' where "envelope_seal (one_message t) sample_config alice_keys [1, 2] sample_context 0 = (Inr env, w')"
    "str_len (cipher env) \<le> usize_MAX"
    by (rule sample_sealed)
  with seal_open_roundtrip [OF one_message_laws sample_config_ok sample_peers(2)] show ?thesis by blast
qed

text \<open>
  Property C2: an accepted envelope was sealed by the peer, for this very context. If the
  expected remote key verifies only transcripts of messages in \<open>M\<close> under the configured
  authentication mode, opening returns only a plaintext that is in \<open>M\<close> together with the
  context the receiver expects: no forgery, no replay under another context, in any mode.
\<close>

theorem open_agreement:
  assumes "\<And>t sig. sm2_verify_with_id P (remote_verification keys) (expected_remote_signer_id config) t sig \<Longrightarrow>
      \<exists>(x, q) \<in> M. authentication_input (authentication_mode config) x q = Inr t"
    and "envelope_open P config keys env ctx = Some (Inr p)"
  shows "(ctx, p) \<in> M"
  using env.agreement [OF _ assms(2)] assms(1) by (simp add: peer_signed_def)

theorem open_agreement_witness:
  "\<exists>(P :: (nat, byte, byte) crypto) env. envelope_open P bob_config bob_keys env sample_context = Some (Inr [1, 2]) \<and>
     (sample_context, [1, 2]) \<in> {(sample_context, [1, 2] :: bytes)}"
proof -
  obtain t env w' where t: "authentication_input (authentication_mode sample_config) sample_context [1, 2] = Inr t"
    and s: "envelope_seal (one_message t) sample_config alice_keys [1, 2] sample_context 0 = (Inr env, w')"
    "str_len (cipher env) \<le> usize_MAX"
    by (rule sample_sealed)
  from s have o: "envelope_open (one_message t) bob_config bob_keys env sample_context = Some (Inr [1, 2])"
    using envelope_open_sealed [OF one_message_laws sample_config_ok sample_peers(2)] by blast
  have m: "authentication_mode bob_config = authentication_mode sample_config" by (simp add: bob_config_def)
  have "\<And>u sig. sm2_verify_with_id (one_message t) (remote_verification bob_keys)
      (expected_remote_signer_id bob_config) u sig \<Longrightarrow>
      \<exists>(x, q) \<in> {(sample_context, [1, 2])}. authentication_input (authentication_mode bob_config) x q = Inr u"
    using t by (simp add: one_message_def m)
  from open_agreement [OF this o] o show ?thesis by blast
qed

text \<open>
  Property C4: opening always returns, and a refusal says one of two things only. The
  message-too-large error is returned exactly for cipher texts longer than the configured
  limit allows, before anything is decoded; every other failure, whether of encoding,
  framing, key unwrapping, decryption, padding, context or signature, is the same error.
\<close>

theorem open_refusals_uniform:
  "(\<exists>p. envelope_open P config keys env ctx = Some (Inr p) \<and> str_len (cipher env) \<le> cipher_bound config) \<or>
   envelope_open P config keys env ctx =
     Some (Inl (if cipher_bound config < str_len (cipher env)
       then MessageTooLarge (max_plaintext_bytes config) else InvalidEnvelope))"
proof -
  obtain r where r: "envelope_open P config keys env ctx = Some r" using env.returns by blast
  show ?thesis
  proof (cases r)
    case (Inl e)
    with r env.refused show ?thesis by blast
  next
    case (Inr p)
    with r env.accepted show ?thesis by blast
  qed
qed

text \<open>
  Property C3: opening implements the declarative specification of its payload mode. It
  returns a plaintext exactly when the sizes are within their limits, all three parts
  decode, the session key unwraps to 16 bytes, the payload decrypts to that plaintext
  within the limit, and the signature verifies over its transcript for this context.
\<close>

theorem open_refines_spec:
  "envelope_open P config keys env ctx = Some (Inr p) \<longleftrightarrow> opens_to P config keys env ctx p"
  by (rule opens_to_iff)

text \<open>
  Property C11: opening a CBC envelope verifies exactly one signature once the session key
  is in hand, whether or not padding, length, context and signature are good, and reports
  every one of these failures identically, so a sender of malformed cipher texts learns
  nothing about the padding; before that point no signature is verified.
\<close>

theorem cbc_verifies_exactly_once:
  "if cbc_reaches_verify P config keys env
   then snd (cbc_open P config keys env ctx calls) = record_verify_call calls \<and>
     fst (cbc_open P config keys env ctx calls) \<in> insert (Inl InvalidEnvelope) (range Inr)
   else cbc_open P config keys env ctx calls =
     (Inl (if cipher_bound (config \<lparr>envelope_mode := LegacyCbc\<rparr>) < str_len (cipher env)
       then MessageTooLarge (max_plaintext_bytes config) else InvalidEnvelope), calls)"
proof (cases "cbc_reaches_verify P config keys env")
  case True
  then obtain ciph sig key where "cbc_unwrapped P config keys env ciph sig key"
    by (auto simp: reaches_verify_iff)
  with True show ?thesis
    by (auto simp: cbc_open_reached cbc_finish_def split: option.split sum.split)
qed (simp add: cbc_open_not_reached cipher_bound_def)

text \<open>
  Property C12: the authenticated algorithm is pinned. An envelope that any client opened
  under one algorithm is refused by every client configured for the other one, whatever
  its keys, limit, context and authentication mode.
\<close>

theorem open_algorithm_pinned:
  assumes "envelope_open P c1 k1 env x1 = Some (Inr p)" "envelope_mode c1 = Aead alg"
    and "envelope_mode c2 = Aead alg'" "alg' \<noteq> alg"
  shows "\<exists>e. envelope_open P c2 k2 env x2 = Some (Inl e)"
proof -
  have frame: "base64_decode P (cipher env) = Some f \<Longrightarrow> f ! 1 = algorithm_byte a"
    if "aead_accepts P c k env x a q" for c k x a q f
    using that by (auto simp: aead_accepts_def frame_of_def)
  have decodes: "\<exists>f. base64_decode P (cipher env) = Some f"
    and acc: "aead_accepts P c1 k1 env x1 alg p"
    using assms(1,2) by (auto simp: envelope_open_def aead_open_iff aead_accepts_def)
  have "algorithm_byte alg' \<noteq> algorithm_byte alg"
    using assms(4) by (cases alg; cases alg') (simp_all add: ALGORITHM_SM4_GCM_def ALGORITHM_SM4_CCM_def)
  then have none: "\<not> aead_accepts P c2 k2 env x2 alg' q" for q
    using frame [OF acc] frame [of c2 k2 x2 alg' q] decodes by auto
  obtain r where "envelope_open P c2 k2 env x2 = Some r" using env.returns by blast
  with none assms(3) show ?thesis
    by (cases r) (auto simp: envelope_open_def aead_open_iff)
qed

theorem open_algorithm_pinned_witness:
  "\<exists>(P :: (nat, byte, byte) crypto) env e.
     envelope_open P bob_config bob_keys env sample_context = Some (Inr [1, 2]) \<and>
     envelope_open P (bob_config \<lparr>envelope_mode := Aead Sm4Gcm\<rparr>) bob_keys env sample_context = Some (Inl e)"
proof -
  obtain t env w' where s: "envelope_seal (one_message t) sample_config alice_keys [1, 2] sample_context 0 = (Inr env, w')"
    "str_len (cipher env) \<le> usize_MAX"
    by (rule sample_sealed)
  have o: "envelope_open (one_message t) bob_config bob_keys env sample_context = Some (Inr [1, 2])"
    using envelope_open_sealed [OF one_message_laws sample_config_ok sample_peers(2) s(2,1)] .
  have "envelope_mode bob_config = Aead Sm4Ccm" by (simp add: bob_config_def sample_config_def)
  from open_algorithm_pinned [OF o this, of "bob_config \<lparr>envelope_mode := Aead Sm4Gcm\<rparr>" Sm4Gcm
      bob_keys sample_context] o show ?thesis by auto
qed





text \<open>
  Property C30: the length limits fit each other. The cipher text of a sealed envelope has
  exactly the length the payload mode prescribes, and, as long as it is a string that
  fits in memory, it never exceeds the bound the receiving side enforces on its input.
\<close>

theorem sealed_length_within_bound:
  assumes "crypto_laws P" "config_ok config" "envelope_seal P config keys p ctx w = (Inr env, w')"
  shows "str_len (cipher env) = 4 * ((sealed_len (envelope_mode config) (length p) + 2) div 3) \<and>
    (str_len (cipher env) \<le> usize_MAX \<longrightarrow> str_len (cipher env) \<le> cipher_bound config)"
proof -
  let ?n = "sealed_len (envelope_mode config) (length p)"
    and ?m = "sealed_len (envelope_mode config) (max_plaintext_bytes config)"
  note len = envelope_seal_within [OF assms(3)] and size = envelope_seal_size [OF assms]
  have mono: "?n \<le> ?m"
    using len by (auto simp: sealed_len_def div_le_mono split: EnvelopeMode.split)
  have bound: "cipher_bound config = base64_len (min ?m usize_MAX)"
    by (simp add: cipher_bound_def sealed_len_def padded_cipher_len_eq saturating_add_def
        split: EnvelopeMode.split)
  have "4 * ((?n + 2) div 3) \<le> base64_len (min ?m usize_MAX)" if "4 * ((?n + 2) div 3) \<le> usize_MAX"
  proof -
    have "?n \<le> usize_MAX" using that by simp
    with mono have "?n \<le> min ?m usize_MAX" by simp
    then have "4 * ((?n + 2) div 3) \<le> 4 * ((min ?m usize_MAX + 2) div 3)"
      by (intro mult_le_mono2 div_le_mono) simp
    with that show ?thesis by (simp add: base64_len_eq)
  qed
  with size bound show ?thesis by simp
qed

theorem sealed_length_within_bound_witness:
  "\<exists>(P :: (nat, byte, byte) crypto) env w'. envelope_seal P sample_config alice_keys [1, 2] sample_context 0 = (Inr env, w') \<and>
     str_len (cipher env) = 44 \<and> str_len (cipher env) \<le> cipher_bound sample_config"
proof -
  obtain t env w' where s: "envelope_seal (one_message t) sample_config alice_keys [1, 2] sample_context 0 = (Inr env, w')"
    and "str_len (cipher env) \<le> usize_MAX"
    by (rule sample_sealed)
  with sealed_length_within_bound [OF one_message_laws sample_config_ok s] show ?thesis
    by (intro exI [of _ "one_message t"] exI [of _ env] exI [of _ w'])
      (simp add: sealed_len_def sample_config_def)
qed

text \<open>
  The limits on encoded input are exact and saturate. The Base64 bound is four
  characters for every started group of three bytes, the CBC bound the next multiple of
  the block size above the limit, each capped at the largest \<^verbatim>\<open>usize\<close> instead of wrapping.
\<close>

lemma length_limits_exact:
  "base64_len n = min (4 * ((n + 2) div 3)) usize_MAX \<and>
   padded_cipher_len n = min ((n div 16 + 1) * 16) usize_MAX"
  by (simp add: base64_len_eq padded_cipher_len_eq)

end
