(* ===== verification/Client.thy ===== *)
theory Client
  imports Exchange
begin

text \<open>
  \<^verbatim>\<open>src/client.rs\<close> and \<^verbatim>\<open>src/request.rs\<close>: the client facade that composes configuration, keys,
  protocol adapter and envelopes, and its fluent request builder. An adapter is any record
  of pure functions; the JSON encoder and decoder of \<^verbatim>\<open>serde_json\<close> are parameters. The lemmas
  show that the adapter's pinned kind rules out every later mismatch, that both ways to
  build a request agree, and how requests and responses compose with the envelopes.
\<close>

section \<open>The client\<close>

record ('sk, 'pk) SecureClient =
  config :: ClientConfig
  keys :: "('sk, 'pk) KeyMaterial"
  adapter :: ProtocolAdapter

fun authentication_matches_pin :: "AuthenticationMode \<Rightarrow> AdapterAuthentication \<Rightarrow> bool" where
  "authentication_matches_pin LegacyPlaintext PinLegacyPlaintext = True"
| "authentication_matches_pin (ContextBound _) PinContextBound = True"
| "authentication_matches_pin _ _ = False"

definition SecureClient_new ::
  "ClientConfig \<Rightarrow> ('sk, 'pk) KeyMaterial \<Rightarrow> ProtocolAdapter \<Rightarrow> ('sk, 'pk) SecureClient Result" where
  "SecureClient_new c k a =
     (case pinned_authentication a of
        Some pinned \<Rightarrow>
          if \<not> authentication_matches_pin (authentication_mode c) pinned
          then Inl AuthenticationContextError
          else Inr \<lparr>config = c, keys = k, adapter = a\<rparr>
      | None \<Rightarrow> Inr \<lparr>config = c, keys = k, adapter = a\<rparr>)"

definition SecureClient_config :: "('sk, 'pk) SecureClient \<Rightarrow> ClientConfig" where
  "SecureClient_config self = config self"

definition SecureClient_seal ::
  "('w, 'sk, 'pk) crypto \<Rightarrow> ('sk, 'pk) SecureClient \<Rightarrow> bytes \<Rightarrow> AuthenticationContext \<Rightarrow>
    ('w, SecureEnvelope, Error) effect" where
  "SecureClient_seal P self plaintext ctx = envelope_seal P (config self) (keys self) plaintext ctx"

definition SecureClient_open ::
  "('w, 'sk, 'pk) crypto \<Rightarrow> ('sk, 'pk) SecureClient \<Rightarrow> SecureEnvelope \<Rightarrow> AuthenticationContext \<Rightarrow>
    (bytes, Error) outcome" where
  "SecureClient_open P self env ctx = envelope_open P (config self) (keys self) env ctx"

definition SecureClient_build_request ::
  "('w, 'sk, 'pk) crypto \<Rightarrow> ('sk, 'pk) SecureClient \<Rightarrow> bytes \<Rightarrow> RequestContext \<Rightarrow>
    ('w, RequestParts, Error) effect" where
  "SecureClient_build_request P self plaintext request_context =
     (let (protocol_context, additional) = RequestContext_into_parts request_context in
      bindW (liftW (map_err (\<lambda>_. ProtocolAdapterError)
        (request_authentication_context (adapter self) (identity (config self)) protocol_context)))
        (\<lambda>authentication_context.
      bindW (SecureClient_seal P self plaintext authentication_context) (\<lambda>env.
      bindW (liftW (map_err (\<lambda>_. ProtocolAdapterError)
        (adapter_build_request (adapter self) (identity (config self)) protocol_context env)))
        (\<lambda>request.
      bindW (liftW (RequestParts_validate request)) (\<lambda>_.
      liftW (run_local (RequestParts_append_checked additional) request))))))"

section \<open>JSON\<close>

text \<open>\<^verbatim>\<open>serde_json\<close> for one type of values: serialisation and deserialisation may fail.\<close>

record 'v json =
  to_json :: "'v \<Rightarrow> bytes option"
  from_json :: "bytes \<Rightarrow> 'v option"

definition serialize_json :: "('v, 'x) json_scheme \<Rightarrow> 'v \<Rightarrow> bytes Result" where
  "serialize_json J value = ok_or Serialization (to_json J value)"

definition SecureClient_build_json_request ::
  "('w, 'sk, 'pk) crypto \<Rightarrow> ('v, 'x) json_scheme \<Rightarrow> ('sk, 'pk) SecureClient \<Rightarrow> 'v \<Rightarrow> RequestContext \<Rightarrow>
    ('w, RequestParts, Error) effect" where
  "SecureClient_build_json_request P J self value request_context =
     bindW (liftW (serialize_json J value)) (\<lambda>plaintext.
     SecureClient_build_request P self plaintext request_context)"

definition SecureClient_open_response ::
  "('w, 'sk, 'pk) crypto \<Rightarrow> ('sk, 'pk) SecureClient \<Rightarrow> ResponseParts \<Rightarrow> (bytes, Error) outcome" where
  "SecureClient_open_response P self response =
     bindP (Some (map_err (\<lambda>_. ProtocolAdapterError) (parse_response (adapter self) response))) (\<lambda>parsed.
     if remote_signing_certificate_id parsed \<noteq>
        expected_remote_signing_certificate_id (identity (config self))
     then Some (Inl ProtocolAdapterError)
     else SecureClient_open P self (envelope parsed) (authentication_context parsed))"

definition SecureClient_open_json_response ::
  "('w, 'sk, 'pk) crypto \<Rightarrow> ('v, 'x) json_scheme \<Rightarrow> ('sk, 'pk) SecureClient \<Rightarrow> ResponseParts \<Rightarrow>
    ('v, Error) outcome" where
  "SecureClient_open_json_response P J self response =
     bindP (SecureClient_open_response P self response) (\<lambda>plaintext.
     Some (ok_or Serialization (from_json J plaintext)))"

section \<open>The request builder\<close>

record ('sk, 'pk) RequestBuilder =
  rb_client :: "('sk, 'pk) SecureClient"
  rb_operation :: str
  rb_metadata :: "RequestMetadata option"
  rb_headers :: HeaderCollection

definition RequestBuilder_new :: "('sk, 'pk) SecureClient \<Rightarrow> str \<Rightarrow> ('sk, 'pk) RequestBuilder" where
  "RequestBuilder_new client op =
     \<lparr>rb_client = client, rb_operation = op, rb_metadata = None, rb_headers = HeaderCollection_default\<rparr>"

definition SecureClient_request :: "('sk, 'pk) SecureClient \<Rightarrow> str \<Rightarrow> ('sk, 'pk) RequestBuilder" where
  "SecureClient_request self op = RequestBuilder_new self op"

definition RequestBuilder_metadata ::
  "('sk, 'pk) RequestBuilder \<Rightarrow> RequestMetadata \<Rightarrow> ('sk, 'pk) RequestBuilder" where
  "RequestBuilder_metadata self md = self\<lparr>rb_metadata := Some md\<rparr>"

definition RequestBuilder_header ::
  "('sk, 'pk) RequestBuilder \<Rightarrow> str \<Rightarrow> str \<Rightarrow> ('sk, 'pk) RequestBuilder Result" where
  "RequestBuilder_header self name value =
     bindR (run_local (HeaderCollection_insert name value) (rb_headers self)) (\<lambda>hs.
     Inr (self\<lparr>rb_headers := hs\<rparr>))"

definition RequestBuilder_into_context ::
  "('w, 'x) os_scheme \<Rightarrow> ('sk, 'pk) RequestBuilder \<Rightarrow>
    ('w, ('sk, 'pk) SecureClient \<times> RequestContext, Error) effect" where
  "RequestBuilder_into_context os self =
     bindW (metadata_or_generate os (rb_metadata self)) (\<lambda>md.
     bindW (liftW (RequestContext_from_parts (rb_operation self) md
       (HeaderCollection_into_pairs (rb_headers self)))) (\<lambda>ctx.
     liftW (Inr (rb_client self, ctx))))"

definition RequestBuilder_bytes ::
  "('w, 'sk, 'pk) crypto \<Rightarrow> ('sk, 'pk) RequestBuilder \<Rightarrow> bytes \<Rightarrow> ('w, RequestParts, Error) effect" where
  "RequestBuilder_bytes P self plaintext =
     bindW (RequestBuilder_into_context P self) (\<lambda>(client, ctx).
     SecureClient_build_request P client plaintext ctx)"

definition RequestBuilder_json ::
  "('w, 'sk, 'pk) crypto \<Rightarrow> ('v, 'x) json_scheme \<Rightarrow> ('sk, 'pk) RequestBuilder \<Rightarrow> 'v \<Rightarrow>
    ('w, RequestParts, Error) effect" where
  "RequestBuilder_json P J self value =
     bindW (RequestBuilder_into_context P self) (\<lambda>(client, ctx).
     bindW (liftW (serialize_json J value)) (\<lambda>plaintext.
     SecureClient_build_request P client plaintext ctx))"

section \<open>Pinned adapters\<close>

lemma pin_matches_kind: "authentication_matches_pin m (kind_of x) \<longleftrightarrow> context_matches m x"
  by (cases "(m, x)" rule: context_matches.cases) auto

lemma SecureClient_new_iff:
  "SecureClient_new c k a = Inr cl \<longleftrightarrow>
     (\<forall>pin. pinned_authentication a = Some pin \<longrightarrow> authentication_matches_pin (authentication_mode c) pin) \<and>
     cl = \<lparr>config = c, keys = k, adapter = a\<rparr>"
  by (auto simp: SecureClient_new_def split: option.splits)

context pinned_adapter
begin

text \<open>What the client relies on: a pin that was accepted at construction decides every context.\<close>

lemma pin_decides:
  assumes "SecureClient_new c k adapter = Inr cl" "pinned_authentication adapter \<noteq> None"
  shows "request_authentication_context adapter i pc = Inr x \<Longrightarrow> context_matches (authentication_mode c) x"
    "parse_response adapter r = Inr q \<Longrightarrow> context_matches (authentication_mode c) (authentication_context q)"
  using assms request_kind response_kind
  by (fastforce simp: SecureClient_new_iff pin_matches_kind [symmetric])+

end

lemma header_adapter_pinned: "pinned_authentication (header_adapter a) \<noteq> None"
  by (simp add: header_adapter_def HeaderProtocolAdapter_pinned_authentication_def)

section \<open>Requests\<close>

lemma build_request_iff:
  "SecureClient_build_request P cl p rc w = (Inr parts, w') \<longleftrightarrow>
    (\<exists>x env req.
       request_authentication_context (adapter cl) (identity (config cl)) (protocol rc) = Inr x \<and>
       envelope_seal P (config cl) (keys cl) p x w = (Inr env, w') \<and>
       adapter_build_request (adapter cl) (identity (config cl)) (protocol rc) env = Inr req \<and>
       RequestParts_validate req = Inr () \<and>
       RequestParts_append_checked (additional_headers rc) req = (Inr (), parts))"
  by (auto simp: SecureClient_build_request_def RequestContext_into_parts_def SecureClient_seal_def
      bindW_eq_Inr run_local_eq_Inr)

lemma sealed_len_le: "sealed_len m n \<le> n + 30"
proof (cases m)
  case LegacyCbc
  have "n div 16 * 16 \<le> n" by (rule div_times_less_eq_dividend)
  then have "n div 16 * 16 \<le> 14 + n" by (rule trans_le_add2)
  with LegacyCbc show ?thesis by (simp add: sealed_len_def)
qed (simp add: sealed_len_def)

lemma sealed_parts:
  assumes "envelope_seal P c k p x w = (Inr env, w')"
  shows "\<exists>key v v1 ct wr v2 v3 t sg. getrandom_fill P 16 v = (Some key, v1) \<and>
    sm2_encrypt P (remote_encryption k) key v2 = (Some wr, v3) \<and>
    sm2_sign_with_id P (local_signing k) (local_signer_id c) t v3 = (Some sg, w') \<and>
    env = \<lparr>cipher = base64_encode P ct, wrapped_session_key = base64_encode P wr,
      signature = base64_encode P sg\<rparr>"
  using assms envelope_seal_within [OF assms]
  by (cases "envelope_mode c") (auto simp: envelope_seal_mode cbc_seal_iff aead_seal_iff, blast+)

text \<open>What sealing returns is fit for a header and survives trimming.\<close>

definition wire_ok :: "str \<Rightarrow> bool" where
  "wire_ok v \<longleftrightarrow> valid_value v \<and> trim v = v \<and> v \<noteq> []"

lemma sealed_wire_ok:
  assumes "crypto_laws P" "config_ok c" "envelope_seal P c k p x w = (Inr env, w')"
  shows "wire_ok (signature env)" "wire_ok (wrapped_session_key env)" "wire_ok (cipher env)"
proof -
  note laws = crypto_lawsD [OF assms(1)]
  have c: "cipher env \<noteq> []"
    using envelope_seal_size [OF assms] by (auto simp: sealed_len_def str_len_def as_bytes_def split: EnvelopeMode.splits)
  obtain key v v1 ct wr v2 v3 t sg where key: "getrandom_fill P 16 v = (Some key, v1)"
    and wr: "sm2_encrypt P (remote_encryption k) key v2 = (Some wr, v3)"
    and sg: "sm2_sign_with_id P (local_signing k) (local_signer_id c) t v3 = (Some sg, w')"
    and env: "env = \<lparr>cipher = base64_encode P ct, wrapped_session_key = base64_encode P wr,
      signature = base64_encode P sg\<rparr>"
    using sealed_parts [OF assms(3)] by blast
  have "0 < length wr" "0 < length sg"
    using laws(4) fill_length [OF laws(1) key] wr sg unfolding sm2_sizes_def by blast+
  with c show "wire_ok (signature env)" "wire_ok (wrapped_session_key env)" "wire_ok (cipher env)"
    using base64_text_ok [OF laws(2)] by (simp_all add: wire_ok_def env base64_empty [OF laws(2)])
qed

lemma sealed_str_ok:
  assumes "crypto_laws P" "envelope_seal P c k p x w = (Inr env, w')"
  shows "str_ok (signature env)" "str_ok (wrapped_session_key env)" "str_ok (cipher env)"
  using sealed_parts [OF assms(2)] base64_text_ok(3) [OF crypto_lawsD(2) [OF assms(1)]] by auto

text \<open>The identity and context values that headers can carry.\<close>

definition sendable :: "ClientIdentity \<Rightarrow> ProtocolRequestContext \<Rightarrow> bool" where
  "sendable i pc \<longleftrightarrow> list_all valid_value
     [local_identity_id i, operation pc, request_id (metadata pc), request_time (metadata pc),
      api_version i, local_certificate_id i, expected_remote_signing_certificate_id i,
      remote_encryption_certificate_id i]"

lemma request_pairs_valid:
  assumes "schema_ok s" "wire_ok (signature env)" "wire_ok (wrapped_session_key env)" "wire_ok (cipher env)"
  shows "list_all (\<lambda>p. valid_value (snd p)) (request_pairs s i pc env) \<longleftrightarrow> sendable i pc"
proof -
  have "list_all (\<lambda>p. valid_value (snd p)) (map pair_of (static_request_headers s))"
    using assms(1) by (auto simp: schema_ok_def static_value_ok_def list_all_iff pair_of_def)
  moreover have "list_all (\<lambda>p. valid_value (snd p)) (map (\<lambda>n. (original n, cipher env)) ns)" for ns
    using assms(4) by (simp add: list_all_iff wire_ok_def)
  ultimately show ?thesis
    using assms(2,3) by (auto simp: request_pairs_def sendable_def wire_ok_def)
qed

lemma header_adapter_simps [simp]:
  "request_authentication_context (header_adapter a) = HeaderProtocolAdapter_request_authentication_context a"
  "adapter_build_request (header_adapter a) = HeaderProtocolAdapter_build_request a"
  "parse_response (header_adapter a) = HeaderProtocolAdapter_parse_response a"
  by (simp_all add: header_adapter_def)

lemma header_request:
  assumes "schema_ok (schema a)" "wire_ok (signature env)" "wire_ok (wrapped_session_key env)"
    "wire_ok (cipher env)"
  shows "HeaderProtocolAdapter_build_request a i pc env =
    (if sendable i pc
     then Inr \<lparr>headers = \<lparr>entries = map entry_of (request_pairs (schema a) i pc env)\<rparr>,
               body = request_body (schema a) env\<rparr>
     else Inl (AdapterError InvalidField))"
  using assms(2-4) by (simp add: build_request_eq [OF assms(1)] request_pairs_valid [OF assms] wire_ok_def)

lemma request_entries_ok:
  assumes "schema_ok s" "wire_ok (signature env)" "wire_ok (wrapped_session_key env)"
    "wire_ok (cipher env)" "sendable i pc"
  shows "HeaderCollection_from_pairs (request_pairs s i pc env) =
      Inr \<lparr>entries = map entry_of (request_pairs s i pc env)\<rparr>"
    and "hc_ok \<lparr>entries = map entry_of (request_pairs s i pc env)\<rparr>"
    and "header_key ` set (map entry_of (request_pairs s i pc env)) = canonical ` set (request_names s)"
proof -
  show c: "HeaderCollection_from_pairs (request_pairs s i pc env) =
      Inr \<lparr>entries = map entry_of (request_pairs s i pc env)\<rparr>"
    using assms by (simp add: request_collection request_pairs_valid)
  then show "hc_ok \<lparr>entries = map entry_of (request_pairs s i pc env)\<rparr>" by (rule from_pairs_ok)
  have "list_all name_ok (request_names s)" using assms(1) by (simp add: schema_ok_def)
  then have "canonical ` set (request_names s) = to_ascii_lowercase ` original ` set (request_names s)"
    by (force simp: list_all_iff name_ok_def)
  also have "original ` set (request_names s) = fst ` set (request_pairs s i pc env)"
    by (metis map_fst_request_pairs set_map)
  finally show "header_key ` set (map entry_of (request_pairs s i pc env)) = canonical ` set (request_names s)"
    by (simp add: image_image)
qed

text \<open>The whole outcome of building a request once the envelope is sealed.\<close>

lemma client_request_outcome:
  assumes "crypto_laws P" "config_ok (config cl)" "adapter cl = header_adapter a" "schema_ok (schema a)"
    and rc: "context_ok rc"
    and x: "request_authentication_context (adapter cl) (identity (config cl)) (protocol rc) = Inr x"
    and seal: "envelope_seal P (config cl) (keys cl) p x w = (Inr env, w')"
  shows "SecureClient_build_request P cl p rc w =
    (if \<not> sendable (identity (config cl)) (protocol rc) then Inl ProtocolAdapterError
     else if canonical ` set (request_names (schema a)) \<inter>
       header_key ` set (entries (additional_headers rc)) \<noteq> {} then Inl HeaderConflict
     else Inr \<lparr>headers = \<lparr>entries =
         map entry_of (request_pairs (schema a) (identity (config cl)) (protocol rc) env) @
         entries (additional_headers rc)\<rparr>, body = request_body (schema a) env\<rparr>, w')"
proof -
  note wire = sealed_wire_ok [OF assms(1,2) seal]
  let ?i = "identity (config cl)" and ?pc = "protocol rc"
  let ?es = "map entry_of (request_pairs (schema a) ?i ?pc env)"
  have add: "hc_ok (additional_headers rc)" using rc by (simp add: context_ok_def)
  have x': "HeaderProtocolAdapter_request_authentication_context a ?i ?pc = Inr x"
    using x assms(3) by simp
  have steps: "SecureClient_build_request P cl p rc w =
      (case HeaderProtocolAdapter_build_request a ?i ?pc env of
         Inl _ \<Rightarrow> (Inl ProtocolAdapterError, w')
       | Inr req \<Rightarrow> (bindR (RequestParts_validate req) (\<lambda>_.
           run_local (RequestParts_append_checked (additional_headers rc)) req), w'))"
    using x' seal
    by (auto simp: SecureClient_build_request_def RequestContext_into_parts_def SecureClient_seal_def
        bindW_def assms(3) bindR_def split: sum.split)
  show ?thesis
  proof (cases "sendable ?i ?pc")
    case True
    note ok = request_entries_ok [OF assms(4) wire True]
    have "RequestParts_validate \<lparr>headers = \<lparr>entries = ?es\<rparr>, body = request_body (schema a) env\<rparr> = Inr ()"
      using ok(2) by (simp add: RequestParts_validate_def revalidate_hc_ok)
    moreover have "HeaderCollection_append_checked (additional_headers rc) \<lparr>entries = ?es\<rparr> =
        (if canonical ` set (request_names (schema a)) \<inter>
           header_key ` set (entries (additional_headers rc)) = {}
         then (Inr (), \<lparr>entries = ?es @ entries (additional_headers rc)\<rparr>)
         else (Inl HeaderConflict, \<lparr>entries = ?es\<rparr>))"
      using append_checked_iff [OF ok(2) add] append_checked_conflict [OF ok(2) add] ok(3) by auto
    ultimately show ?thesis
      using True
      by (auto simp: steps header_request [OF assms(4) wire] run_local_def RequestParts_append_checked_def)
  next
    case False
    then show ?thesis by (simp add: steps header_request [OF assms(4) wire])
  qed
qed

section \<open>Responses\<close>

lemma open_response_iff:
  "SecureClient_open_response P cl r = Some (Inr p) \<longleftrightarrow>
    (\<exists>q. parse_response (adapter cl) r = Inr q \<and>
       remote_signing_certificate_id q = expected_remote_signing_certificate_id (identity (config cl)) \<and>
       envelope_open P (config cl) (keys cl) (envelope q) (authentication_context q) = Some (Inr p))"
  by (auto simp: SecureClient_open_response_def SecureClient_open_def bindP_eq_Inr)

lemma header_response_signed:
  assumes "adapter cl = header_adapter a" "authentication (schema a) = HeaderContextBound"
    and "SecureClient_open_response P cl r = Some (Inr p)"
  shows "\<exists>rid x. occurrences (schema a) (response_headers r) SlotRequestId = [rid] \<and>
    encode_response_context rid = Inr x \<and>
    (\<exists>env. envelope_open P (config cl) (keys cl) env x = Some (Inr p))"
  using assms by (auto simp: open_response_iff parse_response_iff response_context_def)

text \<open>A response that carries an envelope in the fields its schema names, among any others.\<close>

definition carries :: "HeaderSchema \<Rightarrow> ResponseParts \<Rightarrow> SecureEnvelope \<Rightarrow> str \<Rightarrow> AuthenticationContext \<Rightarrow> bool" where
  "carries s r env cert x \<longleftrightarrow>
     occurrences s (response_headers r) SlotSignature = [signature env] \<and>
     occurrences s (response_headers r) SlotWrappedKey = [wrapped_session_key env] \<and>
     occurrences s (response_headers r) SlotCertificate = [cert] \<and>
     (case response_cipher s of
        Body \<Rightarrow> response_body r = cipher env
      | InHeader _ \<Rightarrow> occurrences s (response_headers r) SlotCipher = [cipher env]) \<and>
     response_context s r x"

lemma carried_response_parses:
  assumes "carries (schema a) r env cert x" "wire_ok cert"
    and "wire_ok (signature env)" "wire_ok (wrapped_session_key env)" "wire_ok (cipher env)"
  shows "HeaderProtocolAdapter_parse_response a r =
    Inr \<lparr>envelope = env, remote_signing_certificate_id = cert, authentication_context = x\<rparr>"
proof -
  have "field_ok v \<and> trim v = v" if "wire_ok v" for v
    using that by (simp add: wire_ok_def field_ok_def)
  with assms show ?thesis
    unfolding parse_response_iff
    by - (rule exI [of _ "signature env"], rule exI [of _ "wrapped_session_key env"],
        rule exI [of _ cert], rule exI [of _ "cipher env"], rule exI [of _ x],
        auto simp: carries_def response_cipher_text_def wire_ok_def split: CipherLocation.splits)
qed

lemma peer_response_opens:
  assumes "crypto_laws P" "config_ok (config srv)" "adapter cl = header_adapter a"
    and "peers P (config srv) (keys srv) (config cl) (keys cl)"
    and "wire_ok (expected_remote_signing_certificate_id (identity (config cl)))"
    and seal: "SecureClient_seal P srv p x w = (Inr env, w')"
    and carry: "carries (schema a) r env (expected_remote_signing_certificate_id (identity (config cl))) x"
    and fits: "str_len (cipher env) \<le> usize_MAX"
  shows "SecureClient_open_response P cl r = Some (Inr p)"
proof -
  have s: "envelope_seal P (config srv) (keys srv) p x w = (Inr env, w')"
    using seal by (simp add: SecureClient_seal_def)
  show ?thesis
    using envelope_open_sealed [OF assms(1,2,4) fits s]
      carried_response_parses [OF carry assms(5) sealed_wire_ok [OF assms(1,2) s]] assms(3)
    by (simp add: open_response_iff)
qed

section \<open>The fluent builder\<close>

lemma request_header_chain:
  "add_headers RequestBuilder_header ps b =
     bindR (run_local (for_eachW (\<lambda>(n, v). HeaderCollection_insert n v) ps) (rb_headers b))
       (\<lambda>hs. Inr (b\<lparr>rb_headers := hs\<rparr>))"
proof (induction ps arbitrary: b)
  case Nil
  then show ?case by (simp add: run_local_def)
next
  case (Cons p ps)
  obtain n v where p: "p = (n, v)" by force
  obtain r c where i: "HeaderCollection_insert n v (rb_headers b) = (r, c)" by force
  have "RequestBuilder_header b n v =
      (case r of Inl e \<Rightarrow> Inl e | Inr _ \<Rightarrow> Inr (b\<lparr>rb_headers := c\<rparr>))"
    by (cases r) (simp_all add: RequestBuilder_header_def run_local_def i)
  then show ?case
    by (cases r) (simp_all add: p Cons.IH run_local_def i bindW_step)
qed

lemma request_chain_from_pairs:
  "add_headers RequestBuilder_header ps (SecureClient_request cl op) =
     bindR (HeaderCollection_from_pairs ps) (\<lambda>hs.
       Inr \<lparr>rb_client = cl, rb_operation = op, rb_metadata = None, rb_headers = hs\<rparr>)"
  by (simp add: request_header_chain SecureClient_request_def RequestBuilder_new_def
      HeaderCollection_from_pairs_def)

lemma bindW_assoc: "bindW (bindW m f) g = bindW m (\<lambda>a. bindW (f a) g)"
  by (rule ext) (simp add: bindW_def split: prod.split sum.split)

lemma into_context_eq:
  "RequestBuilder_into_context os b =
     bindW (RequestContextBuilder_build os
       \<lparr>builder_operation = rb_operation b, builder_metadata = rb_metadata b, builder_headers = rb_headers b\<rparr>)
       (\<lambda>ctx. liftW (Inr (rb_client b, ctx)))"
  by (simp add: RequestBuilder_into_context_def RequestContextBuilder_build_def bindW_assoc)

section \<open>A pair of clients\<close>

definition sample_adapter :: HeaderProtocolAdapter where
  "sample_adapter = \<lparr>schema = sample_schema HeaderContextBound\<rparr>"

definition alice :: "(byte, byte) SecureClient" where
  "alice = \<lparr>config = sample_config, keys = alice_keys, adapter = header_adapter sample_adapter\<rparr>"

definition bob :: "(byte, byte) SecureClient" where
  "bob = \<lparr>config = bob_config, keys = bob_keys, adapter = header_adapter sample_adapter\<rparr>"

definition sample_request :: RequestContext where
  "sample_request =
     \<lparr>protocol = \<lparr>operation = lit ''o'', metadata = \<lparr>request_id = lit ''r'', request_time = lit ''t''\<rparr>\<rparr>,
      additional_headers = \<lparr>entries = [entry_of (lit ''X'', lit ''1'')]\<rparr>\<rparr>"

lemma sample_clients:
  "SecureClient_new sample_config alice_keys (header_adapter sample_adapter) = Inr alice"
  "SecureClient_new bob_config bob_keys (header_adapter sample_adapter) = Inr bob"
  by (simp_all add: SecureClient_new_def header_adapter_def sample_adapter_def alice_def bob_def
      HeaderProtocolAdapter_pinned_authentication_def sample_schema_def sample_config_def bob_config_def)

lemma sample_request_ok: "context_ok sample_request" "sendable (identity sample_config) (protocol sample_request)"
  by (simp_all add: sample_request_def context_ok_def protocol_ok_def metadata_ok_def context_value_ok_def
      hc_ok_def entry_ok_entry_of header_eval sendable_def sample_config_def trim_def trim_start_def
      trim_end_def is_whitespace_def contains_any_def)

lemma sample_contexts:
  "\<exists>c. HeaderProtocolAdapter_request_authentication_context sample_adapter i (protocol sample_request) =
     Inr (AuthenticationContext (Bound c)) \<and> length c = 20"
  "\<exists>c. encode_response_context (lit ''r'') = Inr (AuthenticationContext (Bound c)) \<and> length c = 11"
  by (auto simp: HeaderProtocolAdapter_request_authentication_context_def sample_adapter_def
      sample_schema_def sample_request_def encode_request_context_iff encode_response_context_iff
      len_prefixed_def exact_value_def str_eval u64_try_from_def u64_to_be_bytes_def trim_def
      trim_start_def trim_end_def is_whitespace_def)

definition sample_response :: "SecureEnvelope \<Rightarrow> ResponseParts" where
  "sample_response env =
     \<lparr>response_headers = [(lit ''rid'', lit ''r''), (lit ''Other'', lit ''1''), (lit ''SG'', signature env),
        (lit ''Rc'', lit ''r''), (lit ''Wk'', wrapped_session_key env)],
      response_body = cipher env\<rparr>"

lemma sample_targets:
  "response_target (sample_schema HeaderContextBound) (lit ''rid'') = Some SlotRequestId"
  "response_target (sample_schema HeaderContextBound) (lit ''Other'') = None"
  "response_target (sample_schema HeaderContextBound) (lit ''SG'') = Some SlotSignature"
  "response_target (sample_schema HeaderContextBound) (lit ''Rc'') = Some SlotCertificate"
  "response_target (sample_schema HeaderContextBound) (lit ''Wk'') = Some SlotWrappedKey"
  by (simp_all add: response_target_def sample_schema_eval HeaderName_as_str_def)

lemma sample_response_carries:
  assumes "encode_response_context (lit ''r'') = Inr x"
  shows "carries (schema sample_adapter) (sample_response env) env (lit ''r'') x"
proof -
  have "schema sample_adapter = sample_schema HeaderContextBound" by (simp add: sample_adapter_def)
  moreover have "response_cipher (sample_schema HeaderContextBound) = Body"
    "authentication (sample_schema HeaderContextBound) = HeaderContextBound"
    by (simp_all add: sample_schema_def)
  moreover have "valid_value (lit ''r'')" by (simp add: header_eval)
  ultimately show ?thesis
    using assms by (simp add: carries_def sample_response_def response_context_def sample_targets)
qed

lemma one_seals:
  assumes "config_ok c" "authentication_input (authentication_mode c) x p = Inr t"
    and "length p \<le> max_plaintext_bytes c"
    and "80 + length (mode_domain (authentication_mode c)) + length (context_bytes x) + length p \<le> usize_MAX"
  shows "\<exists>env w'. envelope_seal (one_message t) c k p x w = (Inr env, w')"
  using envelope_seal_live [OF samples_available(2) one_message_laws samples_available(4) assms] .

lemma bob_facts:
  "config_ok (config bob)" "peers plain_crypto (config bob) (keys bob) (config alice) (keys alice)"
  "peers (one_message t) (config bob) (keys bob) (config alice) (keys alice)"
  "wire_ok (expected_remote_signing_certificate_id (identity (config alice)))"
  "expected_remote_signing_certificate_id (identity (config alice)) = lit ''r''"
proof -
  show "config_ok (config bob)"
    using sample_config_ok
    by (simp add: bob_def bob_config_def config_ok_def sample_config_def signer_id_ok_def blit_def)
  show "peers plain_crypto (config bob) (keys bob) (config alice) (keys alice)"
    "peers (one_message t) (config bob) (keys bob) (config alice) (keys alice)"
    by (simp_all add: peers_def alice_def bob_def alice_keys_def bob_keys_def bob_config_def
        one_message_def plain_crypto_def sample_config_def)
  show "wire_ok (expected_remote_signing_certificate_id (identity (config alice)))"
    "expected_remote_signing_certificate_id (identity (config alice)) = lit ''r''"
    by (simp_all add: alice_def sample_config_def wire_ok_def header_eval trim_def trim_start_def
        trim_end_def is_whitespace_def)
qed

lemma bob_answers:
  obtains x t env w' where "encode_response_context (lit ''r'') = Inr x"
    "authentication_input (authentication_mode (config alice)) x [1, 2] = Inr t"
    "SecureClient_seal (one_message t) bob [1, 2] x 0 = (Inr env, w')" "str_len (cipher env) \<le> usize_MAX"
    "carries (schema sample_adapter) (sample_response env)
       env (expected_remote_signing_certificate_id (identity (config alice))) x"
proof -
  obtain c where c: "encode_response_context (lit ''r'') = Inr (AuthenticationContext (Bound c))" "length c = 11"
    using sample_contexts(2) by blast
  let ?x = "AuthenticationContext (Bound c)"
  have mode: "authentication_mode (config alice) = authentication_mode (config bob)"
    by (simp add: alice_def bob_def bob_config_def)
  have fits: "80 + length (mode_domain (authentication_mode (config bob))) + length (context_bytes ?x) +
      length [1, 2 :: byte] \<le> usize_MAX" "length [1, 2 :: byte] \<le> max_plaintext_bytes (config bob)"
    using c(2) by (simp_all add: bob_def bob_config_def sample_config_def blit_def usize_MAX_def)
  have "context_matches (authentication_mode (config bob)) ?x"
    by (simp add: bob_def bob_config_def sample_config_def)
  then obtain t where t: "authentication_input (authentication_mode (config bob)) ?x [1, 2] = Inr t"
    using authentication_input_fits [of "authentication_mode (config bob)" ?x "[1, 2]"] fits(1) bob_facts(1)
    by (auto simp: config_ok_def)
  obtain env w' where s: "envelope_seal (one_message t) (config bob) (keys bob) [1, 2] ?x 0 = (Inr env, w')"
    using one_seals [OF bob_facts(1) t fits(2,1)] by blast
  have "str_len (cipher env) \<le> usize_MAX"
    using envelope_seal_size [OF one_message_laws bob_facts(1) s]
    by (simp add: sealed_len_def bob_def bob_config_def sample_config_def usize_MAX_def)
  with that c(1) t s sample_response_carries [OF c(1)] show ?thesis
    by (simp add: SecureClient_seal_def mode bob_facts(5))
qed

lemma plain_seals:
  assumes "config_ok c" "context_matches (authentication_mode c) x" "length p \<le> max_plaintext_bytes c"
    and "80 + length (mode_domain (authentication_mode c)) + length (context_bytes x) + length p \<le> usize_MAX"
  shows "\<exists>env w'. envelope_seal plain_crypto c k p x w = (Inr env, w')"
proof -
  have "\<exists>t. authentication_input (authentication_mode c) x p = Inr t"
    using assms by (intro authentication_input_fits) (simp_all add: config_ok_def)
  then show ?thesis
    using envelope_seal_live [OF samples_available(1) plain_crypto_laws samples_available(3) assms(1)]
      assms(3,4) by blast
qed

lemma alice_seals:
  obtains x env w' where
    "request_authentication_context (adapter alice) (identity (config alice)) (protocol sample_request) = Inr x"
    "envelope_seal plain_crypto (config alice) (keys alice) [1, 2] x w = (Inr env, w')"
proof -
  obtain c where x: "request_authentication_context (adapter alice) (identity (config alice))
      (protocol sample_request) = Inr (AuthenticationContext (Bound c))" "length c = 20"
    using sample_contexts(1) by (auto simp: alice_def)
  then have "\<exists>env w'. envelope_seal plain_crypto (config alice) (keys alice) [1, 2]
      (AuthenticationContext (Bound c)) w = (Inr env, w')"
    by (intro plain_seals) (simp_all add: alice_def sample_config_ok, simp_all add: sample_config_def blit_def usize_MAX_def)
  with that x show ?thesis by blast
qed

lemma alice_facts:
  "config_ok (config alice)" "adapter alice = header_adapter sample_adapter" "schema_ok (schema sample_adapter)"
  "sendable (identity (config alice)) (protocol sample_request)"
  "canonical ` set (request_names (schema sample_adapter)) \<inter>
     header_key ` set (entries (additional_headers sample_request)) = {}"
  by (simp_all add: alice_def sample_adapter_def sample_config_ok sample_schema_ok sample_request_ok)
    (simp add: sample_request_def request_names_def sample_schema_eval)

lemma alice_builds:
  "\<exists>parts w'. SecureClient_build_request plain_crypto alice [1, 2] sample_request 0 = (Inr parts, w')"
proof -
  obtain x env w' where
    x: "request_authentication_context (adapter alice) (identity (config alice)) (protocol sample_request) = Inr x"
    and seal: "envelope_seal plain_crypto (config alice) (keys alice) [1, 2] x 0 = (Inr env, w')"
    by (rule alice_seals)
  show ?thesis
    using client_request_outcome [OF plain_crypto_laws alice_facts(1-3) sample_request_ok(1) x seal] alice_facts(4,5)
    by simp
qed

section \<open>Properties\<close>

text \<open>
  Once a client exists, the authentication kind of its schema adapter agrees
  with its configuration: every request context and every parsed response context the
  adapter ever returns is of the kind the configured mode signs, so sealing and opening
  never fail for a context of the wrong kind. A disagreeing adapter is refused up front.
\<close>

lemma pinned_client_contexts_match:
  assumes "SecureClient_new c k (header_adapter a) = r"
  shows "case r of
    Inl e \<Rightarrow> e = AuthenticationContextError \<and>
      \<not> authentication_matches_pin (authentication_mode c)
          (if authentication (schema a) = HeaderLegacy then PinLegacyPlaintext else PinContextBound)
  | Inr cl \<Rightarrow> config cl = c \<and> keys cl = k \<and> adapter cl = header_adapter a \<and>
      (\<forall>i pc x. request_authentication_context (adapter cl) i pc = Inr x \<longrightarrow>
         context_matches (authentication_mode c) x) \<and>
      (\<forall>s q. parse_response (adapter cl) s = Inr q \<longrightarrow>
         context_matches (authentication_mode c) (authentication_context q))"
proof (cases r)
  case (Inl e)
  with assms show ?thesis
    by (auto simp: SecureClient_new_def header_adapter_def HeaderProtocolAdapter_pinned_authentication_def
        split: if_splits HeaderAuthentication.splits)
next
  case (Inr cl)
  with assms have new: "SecureClient_new c k (header_adapter a) = Inr cl" by simp
  then have "config cl = c" "keys cl = k" "adapter cl = header_adapter a"
    by (simp_all add: SecureClient_new_iff)
  with Inr show ?thesis
    using ha.pin_decides [OF new header_adapter_pinned] by (simp del: header_adapter_simps)
qed

text \<open>
  Property C14: the outcome of building a request, once its envelope is sealed, exactly. A
  value that headers cannot carry is an adapter failure, a caller header under any name of
  the schema, in any casing, is a conflict; otherwise the request holds the schema's
  headers first and unchanged, then the caller's, and the body the schema prescribes.
\<close>

theorem build_request_exact:
  assumes "crypto_laws P" "config_ok (config cl)" "adapter cl = header_adapter a" "schema_ok (schema a)"
    and "context_ok rc"
    and "request_authentication_context (adapter cl) (identity (config cl)) (protocol rc) = Inr x"
    and "envelope_seal P (config cl) (keys cl) p x w = (Inr env, w')"
  shows "SecureClient_build_request P cl p rc w =
    (if \<not> sendable (identity (config cl)) (protocol rc) then Inl ProtocolAdapterError
     else if canonical ` set (request_names (schema a)) \<inter>
       header_key ` set (entries (additional_headers rc)) \<noteq> {} then Inl HeaderConflict
     else Inr \<lparr>headers = \<lparr>entries =
         map entry_of (request_pairs (schema a) (identity (config cl)) (protocol rc) env) @
         entries (additional_headers rc)\<rparr>, body = request_body (schema a) env\<rparr>, w')"
  using assms by (rule client_request_outcome)

theorem build_request_exact_witness:
  "\<exists>parts w'. SecureClient_build_request plain_crypto alice [1, 2] sample_request 0 = (Inr parts, w')"
proof -
  obtain x env w' where
    x: "request_authentication_context (adapter alice) (identity (config alice)) (protocol sample_request) = Inr x"
    and seal: "envelope_seal plain_crypto (config alice) (keys alice) [1, 2] x 0 = (Inr env, w')"
    by (rule alice_seals)
  show ?thesis
    using build_request_exact [OF plain_crypto_laws alice_facts(1-3) sample_request_ok(1) x seal] alice_facts(4,5)
    by simp
qed

text \<open>
  Property C6: a request the client builds reaches the peer whole. The fields of one sealed
  envelope stand under the headers the schema names, every header of the caller is there,
  and the peer that rebuilds the request's context from the operation and the request
  identifier opens the envelope to the very plaintext.
\<close>

theorem request_end_to_end:
  assumes "crypto_laws P" "config_ok (config cl)" "adapter cl = header_adapter a" "schema_ok (schema a)"
    and "context_ok rc" "peers P (config cl) (keys cl) (config srv) (keys srv)"
    and built: "SecureClient_build_request P cl p rc w = (Inr parts, w')"
    and fits: "4 * ((length p + 32) div 3) \<le> usize_MAX"
  shows "\<exists>env x.
    RequestParts_header parts (original (request_signature_header (schema a))) = Some (signature env) \<and>
    RequestParts_header parts (original (request_wrapped_key_header (schema a))) = Some (wrapped_session_key env) \<and>
    (case request_cipher (schema a) of
       Body \<Rightarrow> body parts = cipher env
     | InHeader h \<Rightarrow> RequestParts_header parts (original h) = Some (cipher env)) \<and>
    (\<forall>(n, v) \<in> set (entries (additional_headers rc)).
       RequestParts_header parts (original n) = Some (value_str v)) \<and>
    request_authentication_context (adapter cl) (identity (config srv)) (protocol rc) = Inr x \<and>
    SecureClient_open P srv env x = Some (Inr p)"
proof -
  obtain x env where
    x: "request_authentication_context (adapter cl) (identity (config cl)) (protocol rc) = Inr x"
    and seal: "envelope_seal P (config cl) (keys cl) p x w = (Inr env, w')"
    using built by (auto simp: build_request_iff)
  let ?ps = "request_pairs (schema a) (identity (config cl)) (protocol rc) env"
  let ?hs = "\<lparr>entries = map entry_of ?ps @ entries (additional_headers rc)\<rparr>"
  note outcome = client_request_outcome [OF assms(1-5) x seal] and wire = sealed_wire_ok [OF assms(1,2) seal]
  have send: "sendable (identity (config cl)) (protocol rc)"
    and disj: "canonical ` set (request_names (schema a)) \<inter>
      header_key ` set (entries (additional_headers rc)) = {}"
    and parts: "parts = \<lparr>headers = ?hs, body = request_body (schema a) env\<rparr>"
    using built unfolding outcome by (auto split: if_splits)
  note ok = request_entries_ok [OF assms(4) wire send]
  have add: "hc_ok (additional_headers rc)" using assms(5) by (simp add: context_ok_def)
  have "HeaderCollection_append_checked (additional_headers rc) \<lparr>entries = map entry_of ?ps\<rparr> = (Inr (), ?hs)"
    unfolding append_checked_iff [OF ok(2) add] using ok(3) disj by simp
  then have hc: "hc_ok ?hs" by (rule hc_ok_append [OF ok(2) add])
  have get: "RequestParts_header parts (original n) = Some (value_str v)"
    if "(n, v) \<in> set (entries ?hs)" for n v
  proof -
    have "entry_ok (n, v)" using hc that unfolding hc_ok_def list_all_iff by blast
    then have "canonical n = to_ascii_lowercase (original n)" by (simp add: entry_ok_def)
    with that have "HeaderCollection_get ?hs (original n) = Some v"
      unfolding get_iff [OF hc] by blast
    then show ?thesis by (simp add: parts RequestParts_header_def HeaderValue_as_str_def)
  qed
  have pair: "RequestParts_header parts n = Some v" if "(n, v) \<in> set ?ps" for n v
  proof -
    have "entry_of (n, v) \<in> entry_of ` set ?ps" using that by (rule imageI)
    then show ?thesis
      using get [of "fst (entry_of (n, v))" "snd (entry_of (n, v))"] by (simp add: entry_of_def)
  qed
  from sealed_len_le have "4 * ((sealed_len (envelope_mode (config cl)) (length p) + 2) div 3) \<le> 4 * ((length p + 32) div 3)"
    by (intro mult_le_mono2 div_le_mono) (simp add: add.commute)
  then have "str_len (cipher env) \<le> usize_MAX"
    using fits by (simp add: envelope_seal_size [OF assms(1,2) seal])
  from envelope_open_sealed [OF assms(1,2,6) this seal]
  have "SecureClient_open P srv env x = Some (Inr p)" by (simp add: SecureClient_open_def)
  moreover have "request_authentication_context (adapter cl) (identity (config srv)) (protocol rc) = Inr x"
    using x assms(3) by (simp add: HeaderProtocolAdapter_request_authentication_context_def)
  moreover have "case request_cipher (schema a) of
       Body \<Rightarrow> body parts = cipher env
     | InHeader h \<Rightarrow> RequestParts_header parts (original h) = Some (cipher env)"
  proof (cases "request_cipher (schema a)")
    case Body
    then show ?thesis by (simp add: parts request_body_def)
  next
    case (InHeader h)
    then have "(original h, cipher env) \<in> set ?ps" by (simp add: request_pairs_def)
    with InHeader pair show ?thesis by simp
  qed
  moreover have "(original (request_signature_header (schema a)), signature env) \<in> set ?ps"
    "(original (request_wrapped_key_header (schema a)), wrapped_session_key env) \<in> set ?ps"
    by (simp_all add: request_pairs_def)
  note this [THEN pair]
  moreover have "\<forall>(n, v) \<in> set (entries (additional_headers rc)).
       RequestParts_header parts (original n) = Some (value_str v)"
    using get by fastforce
  ultimately show ?thesis by blast
qed

theorem request_end_to_end_witness:
  "\<exists>parts w' env x. SecureClient_build_request plain_crypto alice [1, 2] sample_request 0 = (Inr parts, w') \<and>
     RequestParts_header parts (lit ''Sg'') = Some (signature env) \<and>
     SecureClient_open plain_crypto bob env x = Some (Inr [1, 2])"
proof -
  have peers: "peers plain_crypto (config alice) (keys alice) (config bob) (keys bob)"
    by (simp add: alice_def bob_def sample_peers)
  obtain parts w' where b: "SecureClient_build_request plain_crypto alice [1, 2] sample_request 0 = (Inr parts, w')"
    using alice_builds by blast
  have "original (request_signature_header (schema sample_adapter)) = lit ''Sg''"
    by (simp add: sample_adapter_def sample_schema_def hname_def)
  with request_end_to_end [OF plain_crypto_laws alice_facts(1-3) sample_request_ok(1) peers b] b show ?thesis
    by (fastforce simp: usize_MAX_def)
qed

text \<open>
  Property C7: a response the peer seals reaches the caller whole. When its fields stand,
  each once and in any order among other headers, where the schema expects them, the
  certificate claim is the configured one and the context is the response's own, the
  client returns exactly the plaintext the peer sealed.
\<close>

theorem response_end_to_end:
  assumes "crypto_laws P" "config_ok (config srv)" "adapter cl = header_adapter a"
    and "peers P (config srv) (keys srv) (config cl) (keys cl)"
    and "wire_ok (expected_remote_signing_certificate_id (identity (config cl)))"
    and "SecureClient_seal P srv p x w = (Inr env, w')"
    and "carries (schema a) r env (expected_remote_signing_certificate_id (identity (config cl))) x"
    and "str_len (cipher env) \<le> usize_MAX"
  shows "SecureClient_open_response P cl r = Some (Inr p)"
  using assms by (rule peer_response_opens)

theorem response_end_to_end_witness:
  "\<exists>(P :: (nat, byte, byte) crypto) env x w'. SecureClient_seal P bob [1, 2] x 0 = (Inr env, w') \<and>
     SecureClient_open_response P alice (sample_response env) = Some (Inr [1, 2])"
proof -
  obtain x t env w' where s: "SecureClient_seal (one_message t) bob [1, 2] x 0 = (Inr env, w')"
    "str_len (cipher env) \<le> usize_MAX"
    "carries (schema sample_adapter) (sample_response env)
       env (expected_remote_signing_certificate_id (identity (config alice))) x"
    by (rule bob_answers)
  from response_end_to_end [OF one_message_laws bob_facts(1) alice_facts(2) bob_facts(3,4) s(1,3,2)] s(1)
  show ?thesis by blast
qed

text \<open>
  Property C8: an accepted response answers the request it names. If the peer's key verifies
  only transcripts of responses in \<open>M\<close>, pairs of a request identifier and a plaintext, then
  the plaintext the client returns was signed as the answer to the identifier the response
  echoes, so an answer cannot be moved to another request identifier.
\<close>

theorem response_answers_request:
  assumes "adapter cl = header_adapter a" "authentication (schema a) = HeaderContextBound"
    and "list_all (\<lambda>h. str_ok (snd h)) (response_headers r)"
    and signed: "\<And>t sig. sm2_verify_with_id P (remote_verification (keys cl))
        (expected_remote_signer_id (config cl)) t sig \<Longrightarrow>
      \<exists>rid q x. (rid, q) \<in> M \<and> str_ok rid \<and> encode_response_context rid = Inr x \<and>
        authentication_input (authentication_mode (config cl)) x q = Inr t"
    and accept: "SecureClient_open_response P cl r = Some (Inr p)"
  shows "\<exists>rid. occurrences (schema a) (response_headers r) SlotRequestId = [rid] \<and> (rid, p) \<in> M"
proof -
  obtain rid x e where rid: "occurrences (schema a) (response_headers r) SlotRequestId = [rid]"
    and x: "encode_response_context rid = Inr x"
    and o: "envelope_open P (config cl) (keys cl) e x = Some (Inr p)"
    using header_response_signed [OF assms(1,2) accept] by blast
  let ?M = "{(x, q). \<exists>rid. (rid, q) \<in> M \<and> str_ok rid \<and> encode_response_context rid = Inr x}"
  have "(x, p) \<in> ?M"
    by (rule env.agreement [OF _ o]) (use signed in \<open>fastforce simp: peer_signed_def\<close>)
  then obtain rid' where m: "(rid', p) \<in> M" "str_ok rid'" "encode_response_context rid' = Inr x" by blast
  have "rid \<in> set (occurrences (schema a) (response_headers r) SlotRequestId)" by (simp add: rid)
  then have "str_ok rid" using assms(3) by (auto simp: occurrences_def list_all_iff)
  with encode_response_inject [OF _ m(2) x m(3)] m(1) rid show ?thesis by blast
qed

theorem response_answers_request_witness:
  "\<exists>(P :: (nat, byte, byte) crypto) r rid. SecureClient_open_response P alice r = Some (Inr [1, 2]) \<and>
     occurrences (schema sample_adapter) (response_headers r) SlotRequestId = [rid] \<and> rid = lit ''r''"
proof -
  obtain x t env w' where x: "encode_response_context (lit ''r'') = Inr x"
    and t: "authentication_input (authentication_mode (config alice)) x [1, 2] = Inr t"
    and s: "SecureClient_seal (one_message t) bob [1, 2] x 0 = (Inr env, w')" "str_len (cipher env) \<le> usize_MAX"
    "carries (schema sample_adapter) (sample_response env)
       env (expected_remote_signing_certificate_id (identity (config alice))) x"
    by (rule bob_answers)
  have o: "SecureClient_open_response (one_message t) alice (sample_response env) = Some (Inr [1, 2])"
    using peer_response_opens [OF one_message_laws bob_facts(1) alice_facts(2) bob_facts(3,4) s(1,3,2)] .
  have wire: "str_ok (signature env)" "str_ok (wrapped_session_key env)"
    using sealed_str_ok [OF one_message_laws] s(1) by (simp_all add: SecureClient_seal_def)
  have "list_all (\<lambda>h. str_ok (snd h)) (response_headers (sample_response env))"
    using wire by (simp add: sample_response_def) (simp add: str_ok_def is_scalar_def lit_def)
  moreover have "authentication (schema sample_adapter) = HeaderContextBound"
    by (simp add: sample_adapter_def sample_schema_def)
  moreover have "\<exists>rid q y. (rid, q) \<in> {(lit ''r'', [1, 2])} \<and> str_ok rid \<and> encode_response_context rid = Inr y \<and>
      authentication_input (authentication_mode (config alice)) y q = Inr u"
    if "sm2_verify_with_id (one_message t) (remote_verification (keys alice))
      (expected_remote_signer_id (config alice)) u sig" for u sig
    using that x t by (auto simp: one_message_def) (simp_all add: str_ok_def is_scalar_def lit_def)
  ultimately have "\<exists>rid. occurrences (schema sample_adapter) (response_headers (sample_response env)) SlotRequestId = [rid] \<and>
      (rid, [1, 2]) \<in> {(lit ''r'', [1, 2 :: byte])}"
    by (intro response_answers_request [OF alice_facts(2) _ _ _ o])
  with o show ?thesis by blast
qed



text \<open>
  Property C17: the fluent builder of a client and the explicit request context are the same
  interface. For any headers, with given or generated metadata, for bytes and for JSON,
  they give the same request or the same error and consume the same randomness.
\<close>

theorem request_builder_agrees:
  "bindW (liftW (add_headers RequestBuilder_header hs (SecureClient_request cl op))) (\<lambda>b.
     RequestBuilder_bytes P (case md of None \<Rightarrow> b | Some m \<Rightarrow> RequestBuilder_metadata b m) p) =
   bindW (liftW (add_headers RequestContextBuilder_header hs (RequestContext_builder op))) (\<lambda>b.
     bindW (RequestContextBuilder_build P (case md of None \<Rightarrow> b | Some m \<Rightarrow> RequestContextBuilder_metadata b m))
       (SecureClient_build_request P cl p)) \<and>
   bindW (liftW (add_headers RequestBuilder_header hs (SecureClient_request cl op))) (\<lambda>b.
     RequestBuilder_json P J (case md of None \<Rightarrow> b | Some m \<Rightarrow> RequestBuilder_metadata b m) v) =
   bindW (liftW (add_headers RequestContextBuilder_header hs (RequestContext_builder op))) (\<lambda>b.
     bindW (RequestContextBuilder_build P (case md of None \<Rightarrow> b | Some m \<Rightarrow> RequestContextBuilder_metadata b m))
       (SecureClient_build_json_request P J cl v))"
proof (cases "HeaderCollection_from_pairs hs")
  case (Inl e)
  then show ?thesis by (simp add: request_chain_from_pairs chain_from_pairs)
next
  case (Inr c)
  then show ?thesis
    by (cases md)
      (simp_all add: request_chain_from_pairs chain_from_pairs RequestBuilder_bytes_def RequestBuilder_json_def
        into_context_eq bindW_assoc RequestBuilder_metadata_def RequestContextBuilder_metadata_def
        SecureClient_build_json_request_def [abs_def])
qed


text \<open>
  Property C31: a configured certificate identifier with surrounding white space passes
  validation, yet such a client can open no response through the schema adapter: the
  claim is trimmed when it is parsed and then compared with the untrimmed configuration.
\<close>

theorem padded_certificate_never_opens:
  assumes "adapter cl = header_adapter a"
    and "trim (expected_remote_signing_certificate_id (identity (config cl))) \<noteq>
      expected_remote_signing_certificate_id (identity (config cl))"
  shows "SecureClient_open_response P cl r = Some (Inl ProtocolAdapterError)"
proof (cases "HeaderProtocolAdapter_parse_response a r")
  case (Inl e)
  with assms(1) show ?thesis by (simp add: SecureClient_open_response_def)
next
  case (Inr q)
  then have "trim (remote_signing_certificate_id q) = remote_signing_certificate_id q"
    by (auto simp: parse_response_iff)
  then have "remote_signing_certificate_id q \<noteq> expected_remote_signing_certificate_id (identity (config cl))"
    using assms(2) by metis
  with Inr assms(1) show ?thesis by (simp add: SecureClient_open_response_def)
qed

definition padded_config :: ClientConfig where
  "padded_config = sample_config
     \<lparr>identity := (identity sample_config) \<lparr>expected_remote_signing_certificate_id := lit '' r''\<rparr>\<rparr>"

theorem padded_certificate_never_opens_witness:
  "ClientConfigBuilder_build True (configure padded_config) = Inr padded_config \<and>
   SecureClient_open_response plain_crypto (alice\<lparr>config := padded_config\<rparr>)
     (ResponseParts_new [(lit ''Sg'', lit ''s''), (lit ''Wk'', lit ''k''), (lit ''Rc'', lit '' r''), (lit ''Rid'', lit ''i'')] (lit ''b'')) =
     Some (Inl ProtocolAdapterError)"
proof -
  have "config_ok padded_config"
    using sample_config_ok
    by (simp add: config_ok_def identity_ok_def padded_config_def context_value_ok_def lit_def contains_any_def
        trim_def trim_start_def trim_end_def is_whitespace_def)
  then have "ClientConfigBuilder_build True (configure padded_config) = Inr padded_config"
    by (rule build_configure)
  moreover have "adapter (alice\<lparr>config := padded_config\<rparr>) = header_adapter sample_adapter"
    by (simp add: alice_def)
  ultimately show ?thesis
    using padded_certificate_never_opens [of "alice\<lparr>config := padded_config\<rparr>" sample_adapter plain_crypto]
    by (simp add: padded_config_def lit_def trim_def trim_start_def trim_end_def is_whitespace_def)
qed

text \<open>
  Property C32: an identity value with a control character other than a line break passes
  validation, yet no request can be built with it: a header value refuses every control
  character but the tab, so the schema adapter fails on each request, after sealing.
\<close>

theorem control_character_never_sends:
  assumes "crypto_laws P" "config_ok (config cl)" "adapter cl = header_adapter a" "schema_ok (schema a)"
    and "context_ok rc" "\<not> valid_value (local_identity_id (identity (config cl)))"
  shows "\<not> is_ok (fst (SecureClient_build_request P cl p rc w))"
proof
  assume "is_ok (fst (SecureClient_build_request P cl p rc w))"
  then obtain parts w' where built: "SecureClient_build_request P cl p rc w = (Inr parts, w')"
    by (metis is_ok_iff prod.collapse)
  then obtain x env where
    "request_authentication_context (adapter cl) (identity (config cl)) (protocol rc) = Inr x"
    "envelope_seal P (config cl) (keys cl) p x w = (Inr env, w')"
    by (auto simp: build_request_iff)
  from client_request_outcome [OF assms(1-5) this] built assms(6) show False
    by (simp add: sendable_def)
qed

definition control_config :: ClientConfig where
  "control_config = sample_config \<lparr>identity := (identity sample_config) \<lparr>local_identity_id := [97, 0]\<rparr>\<rparr>"

theorem control_character_never_sends_witness:
  "ClientConfigBuilder_build True (configure control_config) = Inr control_config \<and>
   \<not> is_ok (fst (SecureClient_build_request plain_crypto (alice\<lparr>config := control_config\<rparr>) [1, 2] sample_request 0))"
proof -
  have ok: "config_ok control_config"
    using sample_config_ok
    by (simp add: config_ok_def identity_ok_def control_config_def context_value_ok_def contains_any_def
        trim_def trim_start_def trim_end_def is_whitespace_def)
  moreover have "adapter (alice\<lparr>config := control_config\<rparr>) = header_adapter sample_adapter"
    by (simp add: alice_def)
  moreover have "\<not> valid_value (local_identity_id (identity control_config))"
    by (simp add: control_config_def valid_value_def is_disallowed_value_character_def)
  ultimately show ?thesis
    using build_configure [OF ok] control_character_never_sends [OF plain_crypto_laws _ _ alice_facts(3)
        sample_request_ok(1), of "alice\<lparr>config := control_config\<rparr>"] by simp
qed

end
