(* ===== verification/Redaction.thy ===== *)
theory Redaction
  imports Client Rust_Fmt
begin

text \<open>
  The \<^verbatim>\<open>Debug\<close> implementations of the crate, from \<^verbatim>\<open>src/header.rs\<close>, \<^verbatim>\<open>src/auth.rs\<close>,
  \<^verbatim>\<open>src/message.rs\<close>, \<^verbatim>\<open>src/adapter.rs\<close> and \<^verbatim>\<open>src/keys.rs\<close>. A value is formatted to the tree its
  implementation hands to the formatter; \<open>render\<close> is the single-line text of a tree, with the
  escaping of string literals as a parameter. The lemmas show that the text depends on the
  shape of the value only, never on cipher texts, keys, header values or bodies.
\<close>

section \<open>Formatter trees\<close>

text \<open>
  A string, a number, a flag, a list, and \<^verbatim>\<open>debug_tuple\<close> and \<^verbatim>\<open>debug_struct\<close> with their fields;
  a unit variant is a tuple without fields.
\<close>

datatype debug =
    DStr str
  | DNum nat
  | DBool bool
  | DList "debug list"
  | DTuple string "debug list"
  | DStruct string "(string \<times> debug) list"

abbreviation debug_lit :: "string \<Rightarrow> debug" where
  "debug_lit s \<equiv> DStr (lit s)"

fun intersperse :: "str \<Rightarrow> str list \<Rightarrow> str" where
  "intersperse sep [] = []"
| "intersperse sep [x] = x"
| "intersperse sep (x # y # xs) = x @ sep @ intersperse sep (y # xs)"

fun render :: "(str \<Rightarrow> str) \<Rightarrow> debug \<Rightarrow> str" where
  "render esc (DStr s) = [34] @ esc s @ [34]"
| "render esc (DNum n) = fmt_nat n"
| "render esc (DBool b) = lit (if b then ''true'' else ''false'')"
| "render esc (DList xs) = lit ''['' @ intersperse (lit '', '') (map (render esc) xs) @ lit '']''"
| "render esc (DTuple name xs) =
     (if xs = [] then lit name
      else lit name @ lit ''('' @ intersperse (lit '', '') (map (render esc) xs) @ lit '')'')"
| "render esc (DStruct name fs) =
     (if fs = [] then lit name
      else lit name @ lit '' { '' @
        intersperse (lit '', '') (map (\<lambda>(f, d). lit f @ lit '': '' @ render esc d) fs) @ lit '' }'')"

section \<open>The implementations\<close>

definition HeaderName_debug :: "HeaderName \<Rightarrow> debug" where
  "HeaderName_debug self = DTuple ''HeaderName'' [DStr (original self)]"

definition HeaderValue_debug :: "HeaderValue \<Rightarrow> debug" where
  "HeaderValue_debug self = DTuple ''HeaderValue'' [debug_lit ''<redacted>'']"

fun AuthenticationMode_debug :: "AuthenticationMode \<Rightarrow> debug" where
  "AuthenticationMode_debug LegacyPlaintext =
     DStruct ''AuthenticationMode'' [(''kind'', debug_lit ''LegacyPlaintext'')]"
| "AuthenticationMode_debug (ContextBound d) =
     DStruct ''AuthenticationMode''
       [(''kind'', debug_lit ''ContextBound''), (''domain_separator_len'', DNum (length d))]"

fun AuthenticationContext_debug :: "AuthenticationContext \<Rightarrow> debug" where
  "AuthenticationContext_debug (AuthenticationContext Legacy) =
     DStruct ''AuthenticationContext'' [(''kind'', debug_lit ''Legacy'')]"
| "AuthenticationContext_debug (AuthenticationContext (Bound c)) =
     DStruct ''AuthenticationContext''
       [(''kind'', debug_lit ''ContextBound''), (''context_len'', DNum (length c))]"

definition SecureEnvelope_debug :: "SecureEnvelope \<Rightarrow> debug" where
  "SecureEnvelope_debug self =
     DStruct ''SecureEnvelope''
       [(''cipher_len'', DNum (str_len (cipher self))),
        (''wrapped_session_key_len'', DNum (str_len (wrapped_session_key self))),
        (''signature_len'', DNum (str_len (signature self)))]"

definition RequestParts_debug :: "RequestParts \<Rightarrow> debug" where
  "RequestParts_debug self =
     (let header_names = map (\<lambda>(name, _). HeaderName_as_str name) (entries (headers self)) in
      DStruct ''RequestParts''
        [(''header_count'', DNum (length header_names)),
         (''header_names'', DList (map DStr header_names)),
         (''body_len'', DNum (str_len (body self)))])"

definition ResponseParts_debug :: "ResponseParts \<Rightarrow> debug" where
  "ResponseParts_debug self =
     (let header_names = map (\<lambda>(name, _). name) (response_headers self) in
      DStruct ''ResponseParts''
        [(''header_count'', DNum (length header_names)),
         (''header_names'', DList (map DStr header_names)),
         (''body_len'', DNum (str_len (response_body self)))])"

definition ParsedResponse_debug :: "ParsedResponse \<Rightarrow> debug" where
  "ParsedResponse_debug self =
     DStruct ''ParsedResponse''
       [(''envelope'', SecureEnvelope_debug (envelope self)),
        (''remote_signing_certificate_id_len'', DNum (str_len (remote_signing_certificate_id self))),
        (''authentication_context'', AuthenticationContext_debug (authentication_context self))]"

text \<open>Derived implementations that the others reach.\<close>

fun PeerKeySource_debug :: "PeerKeySource \<Rightarrow> debug" where
  "PeerKeySource_debug Spki = DTuple ''Spki'' []"
| "PeerKeySource_debug Certificate = DTuple ''Certificate'' []"

fun CipherLocation_debug :: "CipherLocation \<Rightarrow> debug" where
  "CipherLocation_debug Body = DTuple ''Body'' []"
| "CipherLocation_debug (InHeader n) = DTuple ''Header'' [HeaderName_debug n]"

fun option_debug :: "('a \<Rightarrow> debug) \<Rightarrow> 'a option \<Rightarrow> debug" where
  "option_debug f None = DTuple ''None'' []"
| "option_debug f (Some x) = DTuple ''Some'' [f x]"

definition PublicKey_debug :: "'pk PublicKey \<Rightarrow> debug" where
  "PublicKey_debug self = DStruct ''PublicKey'' [(''source'', PeerKeySource_debug (source self))]"

definition is_set :: "'a option \<Rightarrow> debug" where
  "is_set x = DBool (x \<noteq> None)"

definition HeaderSchemaBuilder_debug :: "HeaderSchemaBuilder \<Rightarrow> debug" where
  "HeaderSchemaBuilder_debug self =
     DStruct ''HeaderSchemaBuilder''
       [(''static_request_header_count'', DNum (length (b_static_request_headers self))),
        (''local_identity_header_set'', is_set (b_local_identity_header self)),
        (''operation_header_set'', is_set (b_operation_header self)),
        (''request_id_header_set'', is_set (b_request_id_header self)),
        (''request_time_header_set'', is_set (b_request_time_header self)),
        (''api_version_header_set'', is_set (b_api_version_header self)),
        (''local_certificate_header_set'', is_set (b_local_certificate_header self)),
        (''remote_signing_certificate_header_set'', is_set (b_remote_signing_certificate_header self)),
        (''remote_encryption_certificate_header_set'', is_set (b_remote_encryption_certificate_header self)),
        (''request_signature_header_set'', is_set (b_request_signature_header self)),
        (''request_wrapped_key_header_set'', is_set (b_request_wrapped_key_header self)),
        (''request_cipher'', option_debug CipherLocation_debug (b_request_cipher self)),
        (''response_signature_header_set'', is_set (b_response_signature_header self)),
        (''response_wrapped_key_header_set'', is_set (b_response_wrapped_key_header self)),
        (''response_remote_signing_certificate_header_set'', is_set (b_response_remote_signing_certificate_header self)),
        (''response_cipher'', option_debug CipherLocation_debug (b_response_cipher self)),
        (''legacy_authentication'', DBool (b_legacy_authentication self)),
        (''context_bound_authentication'', DBool (b_context_bound_authentication self))]"

section \<open>Redaction\<close>

text \<open>The same number of bytes, and none of the content.\<close>

definition blank :: "str \<Rightarrow> str" where
  "blank s = replicate (str_len s) 120"

lemma str_len_blank [simp]: "str_len (blank s) = str_len s"
  by (simp add: blank_def str_len_ascii list_all_iff)

definition blank_envelope :: "SecureEnvelope \<Rightarrow> SecureEnvelope" where
  "blank_envelope e = \<lparr>cipher = blank (cipher e), wrapped_session_key = blank (wrapped_session_key e),
     signature = blank (signature e)\<rparr>"

fun blank_context :: "AuthenticationContext \<Rightarrow> AuthenticationContext" where
  "blank_context (AuthenticationContext Legacy) = AuthenticationContext Legacy"
| "blank_context (AuthenticationContext (Bound c)) = AuthenticationContext (Bound (replicate (length c) 0))"

fun blank_mode :: "AuthenticationMode \<Rightarrow> AuthenticationMode" where
  "blank_mode LegacyPlaintext = LegacyPlaintext"
| "blank_mode (ContextBound d) = ContextBound (replicate (length d) 0)"

definition blank_builder :: "HeaderSchemaBuilder \<Rightarrow> HeaderSchemaBuilder" where
  "blank_builder b = b
     \<lparr>b_static_request_headers := map (\<lambda>_. ([], [])) (b_static_request_headers b),
      b_local_identity_header := map_option (\<lambda>_. []) (b_local_identity_header b),
      b_operation_header := map_option (\<lambda>_. []) (b_operation_header b),
      b_request_id_header := map_option (\<lambda>_. []) (b_request_id_header b),
      b_request_time_header := map_option (\<lambda>_. []) (b_request_time_header b),
      b_api_version_header := map_option (\<lambda>_. []) (b_api_version_header b),
      b_local_certificate_header := map_option (\<lambda>_. []) (b_local_certificate_header b),
      b_remote_signing_certificate_header := map_option (\<lambda>_. []) (b_remote_signing_certificate_header b),
      b_remote_encryption_certificate_header := map_option (\<lambda>_. []) (b_remote_encryption_certificate_header b),
      b_request_signature_header := map_option (\<lambda>_. []) (b_request_signature_header b),
      b_request_wrapped_key_header := map_option (\<lambda>_. []) (b_request_wrapped_key_header b),
      b_response_signature_header := map_option (\<lambda>_. []) (b_response_signature_header b),
      b_response_wrapped_key_header := map_option (\<lambda>_. []) (b_response_wrapped_key_header b),
      b_response_remote_signing_certificate_header := map_option (\<lambda>_. []) (b_response_remote_signing_certificate_header b)\<rparr>"

lemma blank_debug:
  "SecureEnvelope_debug (blank_envelope e) = SecureEnvelope_debug e"
  "AuthenticationContext_debug (blank_context x) = AuthenticationContext_debug x"
  "AuthenticationMode_debug (blank_mode m) = AuthenticationMode_debug m"
proof -
  show "SecureEnvelope_debug (blank_envelope e) = SecureEnvelope_debug e"
    by (simp add: SecureEnvelope_debug_def blank_envelope_def)
  show "AuthenticationContext_debug (blank_context x) = AuthenticationContext_debug x"
    by (cases x rule: blank_context.cases) simp_all
  show "AuthenticationMode_debug (blank_mode m) = AuthenticationMode_debug m"
    by (cases m) simp_all
qed

lemma is_set_blank: "is_set (map_option f x) = is_set x"
  by (cases x) (simp_all add: is_set_def)

section \<open>Properties\<close>

text \<open>
  Property C25: nothing that is formatted for diagnostics reveals content. The text of an
  envelope, of request and response parts, of a parsed response, of an authentication mode
  or context, of a header value, of a peer key and of a schema builder stays the same when
  every cipher text, key, signature, header value, body, certificate claim, domain and
  context is replaced by filler of the same length; only header names remain.
\<close>

theorem debug_reveals_shape_only:
  "render esc (SecureEnvelope_debug e) = render esc (SecureEnvelope_debug (blank_envelope e)) \<and>
   render esc (RequestParts_debug p) = render esc (RequestParts_debug
     \<lparr>headers = \<lparr>entries = map (\<lambda>(n, _). (n, HeaderValue [])) (entries (headers p))\<rparr>, body = blank (body p)\<rparr>) \<and>
   render esc (ResponseParts_debug r) = render esc (ResponseParts_debug
     \<lparr>response_headers = map (\<lambda>(n, _). (n, [])) (response_headers r), response_body = blank (response_body r)\<rparr>) \<and>
   render esc (ParsedResponse_debug q) = render esc (ParsedResponse_debug
     \<lparr>envelope = blank_envelope (envelope q),
      remote_signing_certificate_id = blank (remote_signing_certificate_id q),
      authentication_context = blank_context (authentication_context q)\<rparr>) \<and>
   render esc (AuthenticationContext_debug x) = render esc (AuthenticationContext_debug (blank_context x)) \<and>
   render esc (AuthenticationMode_debug m) = render esc (AuthenticationMode_debug (blank_mode m)) \<and>
   render esc (HeaderValue_debug v) = render esc (HeaderValue_debug (HeaderValue [])) \<and>
   render esc (PublicKey_debug k) = render esc (PublicKey_debug (k\<lparr>inner := other\<rparr>)) \<and>
   render esc (HeaderSchemaBuilder_debug b) = render esc (HeaderSchemaBuilder_debug (blank_builder b))"
proof -
  have names: "map (\<lambda>(n, _). HeaderName_as_str n) (map (\<lambda>(n, _). (n, HeaderValue [])) es) =
      map (\<lambda>(n, _). HeaderName_as_str n) es" for es :: "(HeaderName \<times> HeaderValue) list"
    by auto
  have raw: "map (\<lambda>(n, _). n) (map (\<lambda>(n, _). (n, [])) hs) = map (\<lambda>(n, _). n) hs" for hs :: "(str \<times> str) list"
    by auto
  have "RequestParts_debug \<lparr>headers = \<lparr>entries = map (\<lambda>(n, _). (n, HeaderValue [])) (entries (headers p))\<rparr>,
      body = blank (body p)\<rparr> = RequestParts_debug p"
    by (simp only: RequestParts_debug_def RequestParts.simps HeaderCollection.simps names str_len_blank)
  moreover have "ResponseParts_debug \<lparr>response_headers = map (\<lambda>(n, _). (n, [])) (response_headers r),
      response_body = blank (response_body r)\<rparr> = ResponseParts_debug r"
    by (simp only: ResponseParts_debug_def ResponseParts.simps raw str_len_blank)
  moreover have "HeaderSchemaBuilder_debug (blank_builder b) = HeaderSchemaBuilder_debug b"
    by (simp add: HeaderSchemaBuilder_debug_def blank_builder_def is_set_blank)
  ultimately show ?thesis
    by (simp add: blank_debug ParsedResponse_debug_def HeaderValue_debug_def PublicKey_debug_def
        del: render.simps)
qed

end
