(* ===== verification/Network.thy ===== *)
theory Network
  imports Client
begin

text \<open>
  Two clients on a network an attacker controls: an interleaving of sealing, requests,
  deliveries of arbitrary envelopes and arbitrary responses, as an inductive step relation
  over the world of the operating system and a log of what was sealed and what was accepted.
  The attacker may deliver anything, except an envelope whose signature verifies over a
  transcript that the peer never signed. The invariants hold in every reachable state: what
  is accepted was sealed by the peer for the very same context, and no two envelopes share a
  session key while the random generator does not repeat itself.
\<close>

section \<open>States and steps\<close>

datatype party = Initiator | Responder

fun other :: "party \<Rightarrow> party" where
  "other Initiator = Responder"
| "other Responder = Initiator"

lemma other_other [simp]: "other (other a) = a"
  by (cases a) simp_all

record 'w net =
  world :: 'w
  sent :: "(party \<times> bytes \<times> AuthenticationContext \<times> SecureEnvelope) list"
  got :: "(party \<times> bytes \<times> AuthenticationContext) list"

type_synonym ('sk, 'pk) clients = "party \<Rightarrow> ('sk, 'pk) SecureClient"

text \<open>The transcripts a party has signed, and what the attacker cannot deliver.\<close>

definition signed_transcripts :: "('sk, 'pk) clients \<Rightarrow> 'w net \<Rightarrow> party \<Rightarrow> bytes set" where
  "signed_transcripts cl s a =
     {t. \<exists>(b, p, x, env) \<in> set (sent s).
        b = a \<and> authentication_input (authentication_mode (config (cl a))) x p = Inr t}"

definition unforged ::
  "('w, 'sk, 'pk) crypto \<Rightarrow> ('sk, 'pk) clients \<Rightarrow> 'w net \<Rightarrow> party \<Rightarrow> SecureEnvelope \<Rightarrow> bool" where
  "unforged P cl s b env \<longleftrightarrow>
     (\<forall>t sig. base64_decode P (signature env) = Some sig \<longrightarrow>
        peer_signed P (config (cl b)) (keys (cl b)) t sig \<longrightarrow> t \<in> signed_transcripts cl s (other b))"

inductive net_step ::
  "('w, 'sk, 'pk) crypto \<Rightarrow> ('sk, 'pk) clients \<Rightarrow> 'w net \<Rightarrow> 'w net \<Rightarrow> bool" for P cl where
  sealing:
    "SecureClient_seal P (cl a) p x (world s) = (Inr env, w) \<Longrightarrow>
     net_step P cl s (s\<lparr>world := w, sent := (a, p, x, env) # sent s\<rparr>)"
| seal_refused:
    "SecureClient_seal P (cl a) p x (world s) = (Inl e, w) \<Longrightarrow> net_step P cl s (s\<lparr>world := w\<rparr>)"
| requesting:
    "SecureClient_build_request P (cl a) p rc (world s) = (Inr parts, w) \<Longrightarrow>
     request_authentication_context (adapter (cl a)) (identity (config (cl a))) (protocol rc) = Inr x \<Longrightarrow>
     SecureClient_seal P (cl a) p x (world s) = (Inr env, w) \<Longrightarrow>
     net_step P cl s (s\<lparr>world := w, sent := (a, p, x, env) # sent s\<rparr>)"
| request_refused:
    "SecureClient_build_request P (cl a) p rc (world s) = (Inl e, w) \<Longrightarrow> net_step P cl s (s\<lparr>world := w\<rparr>)"
| accepting:
    "unforged P cl s b env \<Longrightarrow> SecureClient_open P (cl b) env x = Some (Inr p) \<Longrightarrow>
     net_step P cl s (s\<lparr>got := (b, p, x) # got s\<rparr>)"
| accepting_response:
    "parse_response (adapter (cl b)) r = Inr q \<Longrightarrow> unforged P cl s b (envelope q) \<Longrightarrow>
     SecureClient_open_response P (cl b) r = Some (Inr p) \<Longrightarrow>
     net_step P cl s (s\<lparr>got := (b, p, authentication_context q) # got s\<rparr>)"

inductive net_reach ::
  "('w, 'sk, 'pk) crypto \<Rightarrow> ('sk, 'pk) clients \<Rightarrow> 'w \<Rightarrow> 'w net \<Rightarrow> bool" for P cl w0 where
  start: "net_reach P cl w0 \<lparr>world = w0, sent = [], got = []\<rparr>"
| step: "net_reach P cl w0 s \<Longrightarrow> net_step P cl s s' \<Longrightarrow> net_reach P cl w0 s'"

section \<open>Agreement\<close>

definition agreed :: "'w net \<Rightarrow> bool" where
  "agreed s \<longleftrightarrow> (\<forall>(b, p, x) \<in> set (got s). \<exists>env. (other b, p, x, env) \<in> set (sent s))"

text \<open>One acceptance: the agreement of the opener, for the messages the peer has sealed.\<close>

lemma acceptance_agrees:
  assumes mode: "\<And>a b. authentication_mode (config (cl a)) = authentication_mode (config (cl b))"
    and "unforged P cl s b env" "SecureClient_open P (cl b) env x = Some (Inr p)"
  shows "\<exists>e. (other b, p, x, e) \<in> set (sent s)"
proof -
  from assms(3) have o: "envelope_open P (config (cl b)) (keys (cl b)) env x = Some (Inr p)"
    by (simp add: SecureClient_open_def)
  from env.accepted [OF o] obtain t sig where
    t: "authentication_input (authentication_mode (config (cl b))) x p = Inr t"
    and "base64_decode P (signature env) = Some sig"
    and "peer_signed P (config (cl b)) (keys (cl b)) t sig" by blast
  with assms(2) have "t \<in> signed_transcripts cl s (other b)" unfolding unforged_def by blast
  then obtain q y e where "(other b, q, y, e) \<in> set (sent s)"
    and "authentication_input (authentication_mode (config (cl b))) y q = Inr t"
    using mode [of "other b" b] by (auto simp: signed_transcripts_def)
  with authentication_input_inject [OF t] show ?thesis by blast
qed

lemma agreed_accept:
  "agreed s \<Longrightarrow> (other b, p, x, e) \<in> set (sent s) \<Longrightarrow> agreed (s\<lparr>got := (b, p, x) # got s\<rparr>)"
  by (auto simp: agreed_def)

lemma agreed_grow: "agreed s \<Longrightarrow> agreed (s\<lparr>world := w, sent := m # sent s\<rparr>)" "agreed s \<Longrightarrow> agreed (s\<lparr>world := w\<rparr>)"
  by (fastforce simp: agreed_def)+

lemma net_step_agreed:
  assumes mode: "\<And>a b. authentication_mode (config (cl a)) = authentication_mode (config (cl b))"
  shows "net_step P cl s s' \<Longrightarrow> agreed s \<Longrightarrow> agreed s'"
proof (induction rule: net_step.induct)
  case (accepting s b env x p)
  from acceptance_agrees [OF mode accepting(1,2)] obtain e where "(other b, p, x, e) \<in> set (sent s)" ..
  with accepting(3) show ?case by (rule agreed_accept)
next
  case (accepting_response b r q s p)
  then have "SecureClient_open P (cl b) (envelope q) (authentication_context q) = Some (Inr p)"
    by (simp add: open_response_iff SecureClient_open_def)
  from acceptance_agrees [OF mode accepting_response(2) this]
  obtain e where "(other b, p, authentication_context q, e) \<in> set (sent s)" ..
  with accepting_response(4) show ?case by (rule agreed_accept)
qed (simp_all add: agreed_grow)

lemma net_reach_agreed:
  assumes mode: "\<And>a b. authentication_mode (config (cl a)) = authentication_mode (config (cl b))"
  shows "net_reach P cl w0 s \<Longrightarrow> agreed s"
proof (induction rule: net_reach.induct)
  case start
  show ?case by (simp add: agreed_def)
next
  case (step s s')
  show ?case by (rule net_step_agreed [OF mode step.hyps(2) step.IH])
qed

section \<open>Freshness of session keys\<close>

text \<open>
  A generator that does not repeat itself: drawing makes the world older, nothing makes it
  younger, and two draws of a session key, or of a nonce, at different ages up to \<open>n\<close> differ.
\<close>

definition fresh_source :: "('w, 'sk, 'pk) crypto \<Rightarrow> ('w \<Rightarrow> nat) \<Rightarrow> nat \<Rightarrow> bool" where
  "fresh_source P age n \<longleftrightarrow>
     (\<forall>k w. age w < age (snd (getrandom_fill P k w))) \<and>
     (\<forall>pk m w. age w \<le> age (snd (sm2_encrypt P pk m w))) \<and>
     (\<forall>sk i m w. age w \<le> age (snd (sm2_sign_with_id P sk i m w))) \<and>
     (\<forall>m w w' k k'. 12 \<le> m \<longrightarrow> age w < age w' \<longrightarrow> age w' \<le> n \<longrightarrow>
        fst (getrandom_fill P m w) = Some k \<longrightarrow> fst (getrandom_fill P m w') = Some k' \<longrightarrow> k \<noteq> k')"

definition ages :: "('w \<Rightarrow> nat) \<Rightarrow> ('w, 'a, 'e) effect \<Rightarrow> bool" where
  "ages age m \<longleftrightarrow> (\<forall>w. age w \<le> age (snd (m w)))"

named_theorems ages_intros

lemma ages_bindW [ages_intros]: "ages age m \<Longrightarrow> (\<And>a. ages age (f a)) \<Longrightarrow> ages age (bindW m f)"
  unfolding ages_def bindW_def
  by (auto split: prod.split sum.split) (metis order_trans snd_conv)+

lemma ages_liftW [ages_intros]: "ages age (liftW r)"
  by (simp add: ages_def)

lemma ages_callW [ages_intros]: "(\<And>w. age w \<le> age (snd (m w))) \<Longrightarrow> ages age (callW e m)"
  by (auto simp: ages_def callW_def split: prod.split option.split) (metis snd_conv)+

lemma ages_primitives [ages_intros]:
  assumes "fresh_source P age n"
  shows "age w \<le> age (snd (getrandom_fill P k w))" "age w \<le> age (snd (sm2_encrypt P pk m w))"
    "age w \<le> age (snd (sm2_sign_with_id P sk i m w))"
  using assms unfolding fresh_source_def by (auto intro: less_imp_le)

lemma ages_seal [ages_intros]:
  assumes "fresh_source P age n"
  shows "ages age (envelope_seal P c k p x)"
  unfolding envelope_seal_def cbc_seal_def aead_seal_def Let_def generate_session_key_def
  by (auto split: EnvelopeMode.split prod.split intro!: ages_intros assms)

lemma ages_build_request:
  assumes "fresh_source P age n"
  shows "ages age (SecureClient_build_request P c p rc)"
  unfolding SecureClient_build_request_def SecureClient_seal_def Let_def
  by (auto split: prod.split intro!: ages_intros assms)

text \<open>A sealed envelope wraps the first draw from the world it was sealed in.\<close>

definition session_key_of ::
  "('w, 'sk, 'pk) crypto \<Rightarrow> ('sk, 'pk) SecureClient \<Rightarrow> SecureEnvelope \<Rightarrow> bytes option" where
  "session_key_of P cl env =
     Option.bind (base64_decode P (wrapped_session_key env)) (sm2_decrypt P (local_decryption (keys cl)))"

lemma sealed_draws:
  assumes "SecureClient_seal P a p x w = (Inr env, w')"
  obtains key w1 w2 wrapped w3 t sig where "getrandom_fill P 16 w = (Some key, w1)"
    "w2 = w1 \<or> w2 = snd (getrandom_fill P 12 w1)"
    "sm2_encrypt P (remote_encryption (keys a)) key w2 = (Some wrapped, w3)"
    "sm2_sign_with_id P (local_signing (keys a)) (local_signer_id (config a)) t w3 = (Some sig, w')"
    "wrapped_session_key env = base64_encode P wrapped"
proof -
  have s: "envelope_seal P (config a) (keys a) p x w = (Inr env, w')"
    using assms by (simp add: SecureClient_seal_def)
  show ?thesis
  proof (cases "envelope_mode (config a)")
    case LegacyCbc
    then have "cbc_seal P (config a) (keys a) p x w = (Inr env, w')"
      using s envelope_seal_within [OF s] by (simp add: envelope_seal_mode)
    then obtain key w1 wrapped w2 t sig where
      "getrandom_fill P 16 w = (Some key, w1)"
      "sm2_encrypt P (remote_encryption (keys a)) key w1 = (Some wrapped, w2)"
      "sm2_sign_with_id P (local_signing (keys a)) (local_signer_id (config a)) t w2 = (Some sig, w')"
      "wrapped_session_key env = base64_encode P wrapped"
      unfolding cbc_seal_iff by auto
    then show ?thesis using that [of key w1 w1] by simp
  next
    case (Aead alg)
    then have "aead_seal P (config a) (keys a) p x alg w = (Inr env, w')"
      using s envelope_seal_within [OF s] by (simp add: envelope_seal_mode)
    then obtain key w1 nonce w2 wrapped w3 t sig where
      "getrandom_fill P 16 w = (Some key, w1)" "getrandom_fill P 12 w1 = (Some nonce, w2)"
      "sm2_encrypt P (remote_encryption (keys a)) key w2 = (Some wrapped, w3)"
      "sm2_sign_with_id P (local_signing (keys a)) (local_signer_id (config a)) t w3 = (Some sig, w')"
      "wrapped_session_key env = base64_encode P wrapped"
      unfolding aead_seal_iff by auto
    then show ?thesis using that [of key w1 w2] by simp
  qed
qed

lemma sealed_session_key:
  assumes "crypto_laws P" "peers P (config a) (keys a) (config b) (keys b)"
    and seal: "SecureClient_seal P a p x w = (Inr env, w')"
  shows "\<exists>key. fst (getrandom_fill P 16 w) = Some key \<and> session_key_of P b env = Some key"
proof -
  obtain key w1 w2 wrapped w3 where "getrandom_fill P 16 w = (Some key, w1)"
    and wrap: "sm2_encrypt P (remote_encryption (keys a)) key w2 = (Some wrapped, w3)"
    and "wrapped_session_key env = base64_encode P wrapped"
    using seal by (rule sealed_draws)
  moreover have "base64_decode P (base64_encode P wrapped) = Some wrapped"
    using crypto_lawsD(2) [OF assms(1)] by (simp add: base64_laws_def)
  ultimately show ?thesis
    using peer_unwraps [OF crypto_lawsD(3) [OF assms(1)] assms(2) wrap] by (simp add: session_key_of_def)
qed

lemma seal_ages:
  assumes "fresh_source P age n" "SecureClient_seal P a p x w = (Inr env, w')"
  shows "age w < age w'"
proof -
  note le = ages_primitives [OF assms(1)]
  obtain key w1 w2 wrapped w3 t sig where d: "getrandom_fill P 16 w = (Some key, w1)"
    "w2 = w1 \<or> w2 = snd (getrandom_fill P 12 w1)"
    "sm2_encrypt P (remote_encryption (keys a)) key w2 = (Some wrapped, w3)"
    "sm2_sign_with_id P (local_signing (keys a)) (local_signer_id (config a)) t w3 = (Some sig, w')"
    using assms(2) by (rule sealed_draws)
  have "age w < age (snd (getrandom_fill P 16 w))"
    using assms(1) unfolding fresh_source_def by blast
  then have "age w < age w1" by (simp add: d(1))
  also have "age w1 \<le> age w2" using d(2) le(1) by blast
  also have "age w2 \<le> age w3" using le(2) [of w2] d(3) by (metis snd_conv)
  also have "age w3 \<le> age w'" using le(3) [of w3] d(4) by (metis snd_conv)
  finally show ?thesis .
qed

text \<open>The worlds in which the logged envelopes were sealed, latest first.\<close>

definition drawn ::
  "('w, 'sk, 'pk) crypto \<Rightarrow> ('sk, 'pk) clients \<Rightarrow> ('w \<Rightarrow> nat) \<Rightarrow> 'w net \<Rightarrow> 'w list \<Rightarrow> bool" where
  "drawn P cl age s ws \<longleftrightarrow>
     sorted_wrt (\<lambda>v w. age v > age w) (world s # ws) \<and>
     list_all2 (\<lambda>(a, p, x, env) w. \<exists>key. fst (getrandom_fill P 16 w) = Some key \<and>
        session_key_of P (cl (other a)) env = Some key) (sent s) ws"

lemma drawn_older:
  "drawn P cl age s ws \<Longrightarrow> age (world s) \<le> age w \<Longrightarrow> drawn P cl age (s\<lparr>world := w\<rparr>) ws"
  by (fastforce simp: drawn_def)

lemma drawn_sealing:
  assumes "crypto_laws P" "fresh_source P age n"
    and peer: "\<And>a. peers P (config (cl a)) (keys (cl a)) (config (cl (other a))) (keys (cl (other a)))"
    and "drawn P cl age s ws" "SecureClient_seal P (cl a) p x (world s) = (Inr env, w)"
  shows "drawn P cl age (s\<lparr>world := w, sent := (a, p, x, env) # sent s\<rparr>) (world s # ws)"
proof -
  from seal_ages [OF assms(2,5)] assms(4) have "sorted_wrt (\<lambda>v w. age v > age w) (w # world s # ws)"
    by (auto simp: drawn_def)
  with sealed_session_key [OF assms(1) peer assms(5)] assms(4) show ?thesis by (simp add: drawn_def)
qed

lemma net_step_drawn:
  assumes "crypto_laws P" "fresh_source P age n"
    and peer: "\<And>a. peers P (config (cl a)) (keys (cl a)) (config (cl (other a))) (keys (cl (other a)))"
  shows "net_step P cl s s' \<Longrightarrow> drawn P cl age s ws \<Longrightarrow> \<exists>ws'. drawn P cl age s' ws'"
proof (induction rule: net_step.induct)
  case (sealing a p x s env w)
  show ?case by (rule exI) (rule drawn_sealing [OF assms(1,2) _ sealing(2,1)], rule peer)
next
  case (requesting a p rc s parts w x env)
  show ?case by (rule exI) (rule drawn_sealing [OF assms(1,2) _ requesting(4,3)], rule peer)
next
  case (seal_refused a p x s e w)
  then have "age (world s) \<le> age w"
    using ages_seal [OF assms(2)] unfolding ages_def SecureClient_seal_def by (metis snd_conv)
  with seal_refused(2) show ?case by (intro exI drawn_older)
next
  case (request_refused a p rc s e w)
  then have "age (world s) \<le> age w"
    using ages_build_request [OF assms(2)] unfolding ages_def by (metis snd_conv)
  with request_refused(2) show ?case by (intro exI drawn_older)
qed (auto simp: drawn_def)

lemma net_reach_drawn:
  assumes "crypto_laws P" "fresh_source P age n"
    and peer: "\<And>a. peers P (config (cl a)) (keys (cl a)) (config (cl (other a))) (keys (cl (other a)))"
  shows "net_reach P cl w0 s \<Longrightarrow> \<exists>ws. drawn P cl age s ws"
proof (induction rule: net_reach.induct)
  case start
  show ?case by (rule exI [of _ "[]"]) (simp add: drawn_def)
next
  case (step s s')
  then obtain ws where "drawn P cl age s ws" by blast
  with step.hyps(2) show ?case by (rule net_step_drawn [OF assms(1,2), rotated]) (rule peer)
qed

lemma fresh_draws:
  assumes "fresh_source P age n" "12 \<le> m" "age w < age w'" "age w' \<le> n"
    and "fst (getrandom_fill P m w) = Some k" "fst (getrandom_fill P m w') = Some k'"
  shows "k \<noteq> k'"
  using assms unfolding fresh_source_def by blast

lemma drawn_distinct:
  assumes fresh: "fresh_source P age n"
    and all: "list_all2 (\<lambda>k w. fst (getrandom_fill P 16 w) = Some k) ks ws"
    and sorted: "sorted_wrt (\<lambda>v w. age v > age w) ws" and bound: "\<forall>w \<in> set ws. age w \<le> n"
  shows "distinct ks"
  unfolding distinct_conv_nth
proof (intro allI impI)
  fix i j
  assume ij: "i < length ks" "j < length ks" "i \<noteq> j"
  have len: "length ks = length ws" using all by (rule list_all2_lengthD)
  have draw: "fst (getrandom_fill P 16 (ws ! m)) = Some (ks ! m)" if "m < length ks" for m
    using list_all2_nthD [OF all that] .
  have apart: "ks ! m \<noteq> ks ! l" if "l < m" "m < length ks" for l m
  proof -
    have "age (ws ! m) < age (ws ! l)" "age (ws ! l) \<le> n"
      using sorted_wrt_nth_less [OF sorted that(1)] that bound len by simp_all
    from fresh_draws [OF fresh _ this draw draw] that show ?thesis by simp
  qed
  show "ks ! i \<noteq> ks ! j" using apart [of i j] apart [of j i] ij by (metis linorder_neqE_nat)
qed

text \<open>The session keys of the logged envelopes, as the receivers unwrap them.\<close>

definition session_keys ::
  "('w, 'sk, 'pk) crypto \<Rightarrow> ('sk, 'pk) clients \<Rightarrow> 'w net \<Rightarrow> bytes option list" where
  "session_keys P cl s = map (\<lambda>(a, p, x, env). session_key_of P (cl (other a)) env) (sent s)"

lemma drawn_session_keys:
  "drawn P cl age s ws \<Longrightarrow> \<exists>ks. session_keys P cl s = map Some ks \<and>
    list_all2 (\<lambda>k w. fst (getrandom_fill P 16 w) = Some k) ks ws"
proof -
  assume "drawn P cl age s ws"
  then have "list_all2 (\<lambda>(a, p, x, env) w. \<exists>key. fst (getrandom_fill P 16 w) = Some key \<and>
      session_key_of P (cl (other a)) env = Some key) (sent s) ws" by (simp add: drawn_def)
  then show ?thesis
    unfolding session_keys_def
  proof (induction rule: list_all2_induct)
    case (Cons m ms w ws)
    then obtain ks key where "map (\<lambda>(a, p, x, env). session_key_of P (cl (other a)) env) ms = map Some ks"
      "list_all2 (\<lambda>k w. fst (getrandom_fill P 16 w) = Some k) ks ws"
      "fst (getrandom_fill P 16 w) = Some key"
      "(\<lambda>(a, p, x, env). session_key_of P (cl (other a)) env) m = Some key"
      by auto
    then show ?case by (intro exI [of _ "key # ks"]) simp
  qed simp
qed

section \<open>Properties\<close>

text \<open>
  Property C5: agreement over every interleaving. In each state that two clients with the
  same authentication mode and an attacker can reach, by any sequence of sealing, requests,
  deliveries and responses, every accepted plaintext was sealed by the peer, under exactly
  the context it was accepted for, as long as no signature is forged.
\<close>

theorem network_agreement:
  assumes "net_reach P cl w0 s"
    and "authentication_mode (config (cl Responder)) = authentication_mode (config (cl Initiator))"
    and "(b, p, x) \<in> set (got s)"
  shows "\<exists>env. (other b, p, x, env) \<in> set (sent s)"
proof -
  have "authentication_mode (config (cl a)) = authentication_mode (config (cl a'))" for a a'
    using assms(2) by (cases a; cases a') simp_all
  from net_reach_agreed [OF this assms(1)] assms(3) show ?thesis by (auto simp: agreed_def)
qed

definition sample_pair :: "(byte, byte) clients" where
  "sample_pair a = (case a of Initiator \<Rightarrow> alice | Responder \<Rightarrow> bob)"

text \<open>Bob seals, and the response reaches Alice twice: nothing stops a replay.\<close>

lemma sample_replay:
  obtains t x s where "net_reach (one_message t) sample_pair 0 s"
    "got s = [(Initiator, [1, 2], x), (Initiator, [1, 2], x)]" "length (sent s) = 1"
proof -
  obtain x t env w' where x: "encode_response_context (lit ''r'') = Inr x"
    and t: "authentication_input (authentication_mode (config alice)) x [1, 2] = Inr t"
    and seal: "SecureClient_seal (one_message t) bob [1, 2] x 0 = (Inr env, w')"
    and fits: "str_len (cipher env) \<le> usize_MAX"
    by (rule bob_answers)
  let ?P = "one_message t"
  let ?s0 = "\<lparr>world = 0 :: nat, sent = [], got = []\<rparr>"
  let ?s1 = "?s0\<lparr>world := w', sent := (Responder, [1, 2], x, env) # sent ?s0\<rparr>"
  let ?s2 = "?s1\<lparr>got := (Initiator, [1, 2], x) # got ?s1\<rparr>"
  let ?s3 = "?s2\<lparr>got := (Initiator, [1, 2], x) # got ?s2\<rparr>"
  have sealed: "envelope_seal ?P (config bob) (keys bob) [1, 2] x 0 = (Inr env, w')"
    using seal by (simp add: SecureClient_seal_def)
  have opens: "SecureClient_open ?P (sample_pair Initiator) env x = Some (Inr [1, 2])"
    using envelope_open_sealed [OF one_message_laws bob_facts(1,3) fits sealed]
    by (simp add: SecureClient_open_def sample_pair_def)
  have mode: "authentication_mode (config bob) = authentication_mode (config alice)"
    by (simp add: alice_def bob_def bob_config_def)
  have unforged: "unforged ?P sample_pair s Initiator env" if "sent s = sent ?s1" for s :: "nat net"
    using that t by (auto simp: unforged_def signed_transcripts_def peer_signed_def one_message_def
        sample_pair_def mode)
  have "net_step ?P sample_pair ?s0 ?s1"
    by (rule sealing) (simp add: sample_pair_def seal)
  moreover have "net_step ?P sample_pair ?s1 ?s2" "net_step ?P sample_pair ?s2 ?s3"
    by (rule accepting [OF unforged opens], simp)+
  ultimately have "net_reach ?P sample_pair 0 ?s3" by (blast intro: net_reach.intros)
  then show ?thesis by (rule that) simp_all
qed

theorem network_agreement_witness:
  "\<exists>t x s env. net_reach (one_message t) sample_pair 0 s \<and> (Initiator, [1, 2], x) \<in> set (got s) \<and>
     (Responder, [1, 2], x, env) \<in> set (sent s)"
proof -
  obtain t x s where s: "net_reach (one_message t) sample_pair 0 s"
    "got s = [(Initiator, [1, 2], x), (Initiator, [1, 2], x)]"
    by (rule sample_replay)
  moreover have "authentication_mode (config (sample_pair Responder)) =
      authentication_mode (config (sample_pair Initiator))"
    by (simp add: sample_pair_def alice_def bob_def bob_config_def)
  ultimately obtain env where "(Responder, [1, 2], x, env) \<in> set (sent s)"
    using network_agreement [of "one_message t" sample_pair 0 s Initiator "[1, 2]" x] by auto
  with s have "net_reach (one_message t) sample_pair 0 s \<and> (Initiator, [1, 2], x) \<in> set (got s) \<and>
      (Responder, [1, 2], x, env) \<in> set (sent s)" by simp
  then show ?thesis by - (rule exI [of _ t], rule exI [of _ x], rule exI [of _ s], rule exI [of _ env])
qed

text \<open>
  Property C13: no two envelopes share a session key. While the operating system's generator
  does not repeat itself, all envelopes sealed in any interleaving of two clients wrap
  different session keys of sixteen bytes, so no pair of key and nonce, and no pair of key
  and fixed initialisation vector, is ever used twice.
\<close>

theorem session_keys_never_repeat:
  assumes "crypto_laws P" "fresh_source P age n" "net_reach P cl w0 s" "age (world s) \<le> n"
    and peer: "\<And>a. peers P (config (cl a)) (keys (cl a)) (config (cl (other a))) (keys (cl (other a)))"
  shows "distinct (session_keys P cl s) \<and>
    (\<forall>k \<in> set (session_keys P cl s). \<exists>key. k = Some key \<and> length key = 16)"
proof -
  obtain ws where ws: "drawn P cl age s ws"
    using net_reach_drawn [OF assms(1,2) peer assms(3)] ..
  from drawn_session_keys [OF this] obtain ks where ks: "session_keys P cl s = map Some ks"
    and all: "list_all2 (\<lambda>k w. fst (getrandom_fill P 16 w) = Some k) ks ws" by auto
  have sorted: "sorted_wrt (\<lambda>v w. age v > age w) ws" and "\<forall>w \<in> set ws. age w < age (world s)"
    using ws by (simp_all add: drawn_def)
  then have "\<forall>w \<in> set ws. age w \<le> n" using assms(4) by auto
  from drawn_distinct [OF assms(2) all sorted this] have "distinct ks" .
  moreover have "length k = 16" if k: "k \<in> set ks" for k
  proof -
    obtain i where i: "i < length ks" "ks ! i = k" using k by (auto simp: in_set_conv_nth)
    from list_all2_nthD [OF all i(1)] obtain w' where "getrandom_fill P 16 (ws ! i) = (Some k, w')"
      using i(2) by (cases "getrandom_fill P 16 (ws ! i)") simp
    then show ?thesis by (rule fill_length [OF crypto_lawsD(1) [OF assms(1)]])
  qed
  ultimately show ?thesis by (simp add: ks distinct_map)
qed

lemma counting_fresh: "fresh_source plain_crypto (\<lambda>w. w) 255"
proof -
  have "(word_of_nat w :: byte) \<noteq> word_of_nat w'" if "w < w'" "w' \<le> 255" for w w'
    using that by (simp add: word_of_nat_eq_iff take_bit_nat_eq_self)
  then show ?thesis
    by (auto simp: fresh_source_def plain_crypto_def counting_os_def)
qed

lemma sample_pair_peers:
  "peers plain_crypto (config (sample_pair a)) (keys (sample_pair a))
     (config (sample_pair (other a))) (keys (sample_pair (other a)))"
  by (cases a) (simp_all add: sample_pair_def peers_def alice_def bob_def alice_keys_def bob_keys_def
      bob_config_def plain_crypto_def sample_config_def)

lemma plain_seal_world:
  "envelope_seal plain_crypto c k p x w = (Inr env, w') \<Longrightarrow> w' \<le> w + 4"
proof -
  assume s: "envelope_seal plain_crypto c k p x w = (Inr env, w')"
  then show ?thesis
    using envelope_seal_within [OF s]
    by (cases "envelope_mode c")
      (auto simp: envelope_seal_mode cbc_seal_iff aead_seal_iff plain_crypto_def counting_os_def)
qed

theorem session_keys_never_repeat_witness:
  "\<exists>s. net_reach plain_crypto sample_pair 0 s \<and> length (sent s) = 2 \<and>
     distinct (session_keys plain_crypto sample_pair s)"
proof -
  have seals: "\<exists>x env w'. SecureClient_seal plain_crypto (sample_pair Initiator) [1, 2] x w = (Inr env, w') \<and> w' \<le> w + 4"
    for w
    by (rule alice_seals [of w]) (auto simp: SecureClient_seal_def sample_pair_def dest: plain_seal_world)
  obtain x env w where one: "SecureClient_seal plain_crypto (sample_pair Initiator) [1, 2] x 0 = (Inr env, w)" "w \<le> 4"
    using seals [of 0] by auto
  obtain y env' w' where two: "SecureClient_seal plain_crypto (sample_pair Initiator) [1, 2] y w = (Inr env', w')" "w' \<le> 8"
    using seals [of w] one(2) by fastforce
  let ?s1 = "\<lparr>world = w, sent = [(Initiator, [1, 2], x, env)], got = []\<rparr>"
  let ?s2 = "\<lparr>world = w', sent = [(Initiator, [1, 2], y, env'), (Initiator, [1, 2], x, env)], got = []\<rparr>"
  have "net_step plain_crypto sample_pair \<lparr>world = 0, sent = [], got = []\<rparr> ?s1"
    using sealing [of plain_crypto sample_pair Initiator "[1, 2]" x "\<lparr>world = 0, sent = [], got = []\<rparr>" env w] one
    by simp
  moreover have "net_step plain_crypto sample_pair ?s1 ?s2"
    using sealing [of plain_crypto sample_pair Initiator "[1, 2]" y ?s1 env' w'] two by simp
  ultimately have r: "net_reach plain_crypto sample_pair 0 ?s2" by (blast intro: net_reach.intros)
  have "distinct (session_keys plain_crypto sample_pair ?s2)"
    using session_keys_never_repeat [OF plain_crypto_laws counting_fresh r _ sample_pair_peers] two(2) by simp
  with r show ?thesis by (intro exI [of _ ?s2]) simp
qed

end
