(* ===== verification/Examples.thy ===== *)
theory Examples
  imports Client
begin

text \<open>
  The custom adapter and the client of \<^verbatim>\<open>examples/build_request.rs\<close>, which
  \<^verbatim>\<open>examples/open_response.rs\<close> repeats word for word: a second implementation of the adapter
  interface, without a pinned kind. The lemmas show that its client can be built and seals
  what it should, and where its textual contexts are weaker than the schema adapter's.
\<close>

section \<open>The adapter\<close>

definition ExampleContextAdapter_request_authentication_context ::
  "ClientIdentity \<Rightarrow> ProtocolRequestContext \<Rightarrow> AuthenticationContext AdapterResult" where
  "ExampleContextAdapter_request_authentication_context ident ctx =
     map_err (\<lambda>_. AdapterError_new InvalidField)
       (AuthenticationContext_context_bound (as_bytes
         (lit ''operation='' @ operation ctx @ lit ''&request-id='' @ request_id (metadata ctx))))"

definition ExampleContextAdapter_build_request ::
  "ClientIdentity \<Rightarrow> ProtocolRequestContext \<Rightarrow> SecureEnvelope \<Rightarrow> RequestParts AdapterResult" where
  "ExampleContextAdapter_build_request ident ctx env =
     map_err (\<lambda>_. AdapterError_new InvalidField)
       (RequestParts_new
         [(lit ''Content-Type'', lit ''application/example-envelope''),
          (lit ''X-Envelope-Local-Identity'', local_identity_id ident),
          (lit ''X-Envelope-Api-Version'', api_version ident),
          (lit ''X-Envelope-Local-Certificate'', local_certificate_id ident),
          (lit ''X-Envelope-Operation'', operation ctx),
          (lit ''X-Envelope-Request-Id'', request_id (metadata ctx)),
          (lit ''X-Envelope-Request-Time'', request_time (metadata ctx)),
          (lit ''X-Envelope-Request-Signature'', signature env),
          (lit ''X-Envelope-Request-Wrapped-Key'', wrapped_session_key env)]
         (cipher env))"

text \<open>The closure that looks a header up: the first one under the name, in any casing.\<close>

definition example_header :: "ResponseParts \<Rightarrow> string \<Rightarrow> str AdapterResult" where
  "example_header response name =
     ok_or (AdapterError_new MissingField)
       (map_option snd
         (List.find (\<lambda>(candidate, _). eq_ignore_ascii_case candidate (lit name)) (response_headers response)))"

definition ExampleContextAdapter_parse_response :: "ResponseParts \<Rightarrow> ParsedResponse AdapterResult" where
  "ExampleContextAdapter_parse_response response =
     bindR (example_header response ''X-Envelope-Response-Wrapped-Key'') (\<lambda>wrapped.
     bindR (example_header response ''X-Envelope-Response-Signature'') (\<lambda>sig.
     (let env = \<lparr>cipher = response_body response, wrapped_session_key = wrapped, signature = sig\<rparr> in
     bindR (example_header response ''X-Envelope-Response-Remote-Signing-Certificate'') (\<lambda>cert.
     bindR (example_header response ''X-Envelope-Request-Id'') (\<lambda>rid.
     bindR (map_err (\<lambda>_. AdapterError_new InvalidField)
       (AuthenticationContext_context_bound (as_bytes (lit ''request-id='' @ rid)))) (\<lambda>ctx.
     ParsedResponse_new env cert ctx))))))"

definition ExampleContextAdapter :: ProtocolAdapter where
  "ExampleContextAdapter =
     \<lparr>request_authentication_context = ExampleContextAdapter_request_authentication_context,
      adapter_build_request = ExampleContextAdapter_build_request,
      parse_response = ExampleContextAdapter_parse_response,
      pinned_authentication = None\<rparr>"

section \<open>The client\<close>

definition example_client :: "('sk, 'pk) KeyMaterial \<Rightarrow> ('sk, 'pk) SecureClient Result" where
  "example_client k =
     bindR (AuthenticationMode_context_bound (blit ''example-app/envelope/v1'')) (\<lambda>mode.
     bindR (ClientConfigBuilder_build True
        (ClientConfigBuilder_envelope_mode (Aead Sm4Gcm)
        (ClientConfigBuilder_authentication_mode mode
        (ClientConfigBuilder_expected_remote_signer_id (blit ''demo-remote-signer'')
        (ClientConfigBuilder_local_signer_id (blit ''demo-local-signer'')
        (ClientConfigBuilder_remote_encryption_certificate_id (lit ''example-remote-encryption-certificate'')
        (ClientConfigBuilder_expected_remote_signing_certificate_id (lit ''example-remote-signing-certificate'')
        (ClientConfigBuilder_local_certificate_id (lit ''example-local-signing-certificate'')
        (ClientConfigBuilder_api_version (lit ''example-v1'')
        (ClientConfigBuilder_local_identity_id (lit ''demo-client'') ClientConfig_builder))))))))))
       (\<lambda>c. SecureClient_new c k ExampleContextAdapter))"

section \<open>Lemmas\<close>

lemma example_adapter_simps [simp]:
  "request_authentication_context ExampleContextAdapter = ExampleContextAdapter_request_authentication_context"
  "adapter_build_request ExampleContextAdapter = ExampleContextAdapter_build_request"
  "parse_response ExampleContextAdapter = ExampleContextAdapter_parse_response"
  "pinned_authentication ExampleContextAdapter = None"
  by (simp_all add: ExampleContextAdapter_def)

text \<open>The contract of a pinned adapter holds without a pin.\<close>

interpretation example: pinned_adapter ExampleContextAdapter
  by unfold_locales simp_all

lemma example_request_context:
  "ExampleContextAdapter_request_authentication_context ident ctx =
     Inr (AuthenticationContext (Bound (as_bytes
       (lit ''operation='' @ operation ctx @ lit ''&request-id='' @ request_id (metadata ctx)))))"
  by (simp add: ExampleContextAdapter_request_authentication_context_def AuthenticationContext_context_bound_def
      lit_def)

lemma example_config_text:
  "list_all context_value_ok
     [lit ''demo-client'', lit ''example-v1'', lit ''example-local-signing-certificate'',
      lit ''example-remote-signing-certificate'', lit ''example-remote-encryption-certificate'']"
  by (simp add: lit_def visible_value_ok)

definition example_config :: ClientConfig where
  "example_config =
     \<lparr>identity = \<lparr>local_identity_id = lit ''demo-client'', api_version = lit ''example-v1'',
        local_certificate_id = lit ''example-local-signing-certificate'',
        expected_remote_signing_certificate_id = lit ''example-remote-signing-certificate'',
        remote_encryption_certificate_id = lit ''example-remote-encryption-certificate''\<rparr>,
      local_signer_id = blit ''demo-local-signer'', expected_remote_signer_id = blit ''demo-remote-signer'',
      authentication_mode = ContextBound (blit ''example-app/envelope/v1''), iv = replicate 16 0,
      envelope_mode = Aead Sm4Gcm, max_plaintext_bytes = 16777216\<rparr>"

lemma example_client_eq:
  "example_client k = Inr \<lparr>config = example_config, keys = k, adapter = ExampleContextAdapter\<rparr>"
  "config_ok example_config"
proof -
  have vals: "context_value_ok (lit ''demo-client'')" "context_value_ok (lit ''example-v1'')"
    "context_value_ok (lit ''example-local-signing-certificate'')"
    "context_value_ok (lit ''example-remote-signing-certificate'')"
    "context_value_ok (lit ''example-remote-encryption-certificate'')"
    using example_config_text by simp_all
  have signers: "signer_id_ok (blit ''demo-local-signer'')" "signer_id_ok (blit ''demo-remote-signer'')"
    "blit ''example-app/envelope/v1'' \<noteq> []"
    "mode_ok (ContextBound (blit ''example-app/envelope/v1''))"
    by (simp_all add: signer_id_ok_def blit_def mode_ok_def)
  show "example_client k = Inr \<lparr>config = example_config, keys = k, adapter = ExampleContextAdapter\<rparr>"
    by (simp add: example_client_def AuthenticationMode_context_bound_def SecureClient_new_def
        build_eq_table first_failure_iff config_checks_def config_of_def vals signers setter_defs
        opt_ok_def asked_mode_def asked_limit_def bindR_eq_Inr example_config_def)
  show "config_ok example_config"
    by (simp add: config_ok_def identity_ok_def vals signers example_config_def)
qed

lemma example_builds:
  "\<exists>cl. example_client k = Inr cl \<and> config_ok (config cl) \<and> keys cl = k \<and>
     adapter cl = ExampleContextAdapter \<and> envelope_mode (config cl) = Aead Sm4Gcm \<and>
     authentication_mode (config cl) = ContextBound (blit ''example-app/envelope/v1'')"
  by (simp add: example_client_eq) (simp add: example_config_def)

section \<open>Properties\<close>

text \<open>
  Property C35: the textual context of the example adapter does not determine what it is
  meant to bind. Two requests with different operations and different identifiers, both
  with values the crate accepts, are signed under one and the same context, so a peer
  that verifies the signature has not committed to either pair.
\<close>

theorem example_contexts_collide:
  "\<exists>m1 m2 c1 c2. RequestMetadata_new (lit ''b&request-id=c'') (lit ''t'') = Inr m1 \<and>
     RequestMetadata_new (lit ''c'') (lit ''t'') = Inr m2 \<and>
     ProtocolRequestContext_new (lit ''a'') m1 = Inr c1 \<and>
     ProtocolRequestContext_new (lit ''a&request-id=b'') m2 = Inr c2 \<and>
     operation c1 \<noteq> operation c2 \<and> request_id (metadata c1) \<noteq> request_id (metadata c2) \<and>
     request_authentication_context ExampleContextAdapter ident c1 =
       request_authentication_context ExampleContextAdapter ident c2"
proof -
  have ok: "context_value_ok (lit ''b&request-id=c'')" "context_value_ok (lit ''t'')" "context_value_ok (lit ''c'')"
    "context_value_ok (lit ''a'')" "context_value_ok (lit ''a&request-id=b'')"
    by (simp_all add: lit_def visible_value_ok)
  have same: "lit ''a'' @ lit ''&request-id='' @ lit ''b&request-id=c'' =
      lit ''a&request-id=b'' @ lit ''&request-id='' @ lit ''c''"
    by (simp add: lit_def)
  have different: "lit ''a'' \<noteq> lit ''a&request-id=b''" "lit ''b&request-id=c'' \<noteq> lit ''c''"
    by (simp_all add: lit_def)
  show ?thesis
    using arg_cong [OF same, of as_bytes]
    by (simp add: RequestMetadata_new_eq ProtocolRequestContext_new_eq ok example_request_context different)
qed

text \<open>
  The client of the examples is well formed, uses SM4-GCM and a bound mode, and
  every context its adapter derives fits that mode although the adapter pins no kind; and
  no request context of it is a response context, so requests are not reflected.
\<close>

lemma example_client_sound:
  "\<exists>cl. example_client k = Inr cl \<and> config_ok (config cl) \<and> envelope_mode (config cl) = Aead Sm4Gcm \<and>
     (\<forall>i pc r. \<exists>x. request_authentication_context (adapter cl) i pc = Inr x \<and>
        context_matches (authentication_mode (config cl)) x \<and>
        (case parse_response (adapter cl) r of
           Inl _ \<Rightarrow> True
         | Inr q \<Rightarrow> context_matches (authentication_mode (config cl)) (authentication_context q) \<and>
             authentication_context q \<noteq> x))"
proof -
  obtain cl where cl: "example_client k = Inr cl" "config_ok (config cl)" "adapter cl = ExampleContextAdapter"
    "envelope_mode (config cl) = Aead Sm4Gcm"
    "authentication_mode (config cl) = ContextBound (blit ''example-app/envelope/v1'')"
    using example_builds by blast
  have "\<exists>rid. authentication_context q = AuthenticationContext (Bound (as_bytes (lit ''request-id='' @ rid)))"
    if "ExampleContextAdapter_parse_response r = Inr q" for r q
    using that
    by (auto simp: ExampleContextAdapter_parse_response_def bindR_eq_Inr Let_def ParsedResponse_new_def
        AuthenticationContext_context_bound_def split: if_splits)
  moreover have "as_bytes (lit ''request-id='' @ rid) \<noteq> as_bytes (lit ''operation='' @ rest)" for rid rest
    by (simp add: as_bytes_def lit_def utf8_nats.simps)
  ultimately have "case ExampleContextAdapter_parse_response r of
      Inl _ \<Rightarrow> True
    | Inr q \<Rightarrow> context_matches (ContextBound d) (authentication_context q) \<and>
        authentication_context q \<noteq> AuthenticationContext (Bound (as_bytes (lit ''operation='' @ rest)))"
    for r d rest
    by (cases "ExampleContextAdapter_parse_response r") (simp, fastforce simp del: as_bytes_simps)
  then have "\<forall>i pc r. \<exists>x. request_authentication_context (adapter cl) i pc = Inr x \<and>
      context_matches (authentication_mode (config cl)) x \<and>
      (case parse_response (adapter cl) r of
         Inl _ \<Rightarrow> True
       | Inr q \<Rightarrow> context_matches (authentication_mode (config cl)) (authentication_context q) \<and>
           authentication_context q \<noteq> x)"
    unfolding cl(3,5) example_adapter_simps example_request_context by (intro allI) fastforce
  with cl(1,2,4) show ?thesis by blast
qed

end
