(* ===== verification/Example_Programs.thy ===== *)
theory Example_Programs
  imports Examples
begin

text \<open>
  The \<^verbatim>\<open>main\<close> functions of \<^verbatim>\<open>examples/build_request.rs\<close> and \<^verbatim>\<open>examples/open_response.rs\<close>. The command
  line, the environment, the file system and \<^verbatim>\<open>serde_json\<close> are parameters; the result is the
  list of printed lines, or the boxed error. The lemmas follow a whole run: the first
  program prints header names and a length and nothing else, the second reports a length
  only for a message that the configured peer signed.
\<close>

section \<open>Errors and arguments\<close>

text \<open>
  What \<^verbatim>\<open>Box<dyn Error>\<close> holds here: a message, an error of the crate, an I/O error or an error
  of \<^verbatim>\<open>serde_json\<close>. The last constructor is a panic.
\<close>

datatype main_error = Text string | Crate Error | FileError io_error | JsonError | Panicked

text \<open>
  An \<^verbatim>\<open>OsString\<close> is the list of its units; those that are not text are numbers outside the
  Unicode scalar values.
\<close>

definition into_string :: "str \<Rightarrow> str option" where
  "into_string s = (if str_ok s then Some s else None)"

definition next_arg :: "string \<Rightarrow> (str list, str, main_error) effect" where
  "next_arg message = (\<lambda>args. case args of [] \<Rightarrow> (Inl (Text message), []) | a # r \<Rightarrow> (Inr a, r))"

definition no_more_args :: "(str list, unit, main_error) effect" where
  "no_more_args = (\<lambda>args. case args of [] \<Rightarrow> (Inr (), []) | _ # r \<Rightarrow> (Inl (Text ''too many arguments''), r))"

definition key_args :: "(str list, str \<times> str \<times> str \<times> str, main_error) effect" where
  "key_args =
     bindW (next_arg ''missing local signing key argument'') (\<lambda>local_signing_path.
     bindW (next_arg ''missing local decryption key argument'') (\<lambda>local_decryption_path.
     bindW (next_arg ''missing remote verification key argument'') (\<lambda>remote_verification_path.
     bindW (next_arg ''missing remote encryption key argument'') (\<lambda>remote_encryption_path.
     bindW no_more_args (\<lambda>_.
     liftW (Inr (local_signing_path, local_decryption_path, remote_verification_path, remote_encryption_path)))))))"

definition build_request_args :: "(str list, str \<times> str \<times> str \<times> str \<times> str \<times> str, main_error) effect" where
  "build_request_args =
     bindW (next_arg ''missing payload file argument'') (\<lambda>payload_path.
     bindW (next_arg ''missing operation argument'') (\<lambda>op.
     bindW (liftW (ok_or (Text ''operation must be valid UTF-8'') (into_string op))) (\<lambda>op.
     bindW key_args (\<lambda>paths.
     liftW (Inr (payload_path, op, paths))))))"

definition open_response_args :: "(str list, str \<times> str \<times> str \<times> str \<times> str, main_error) effect" where
  "open_response_args =
     bindW (next_arg ''missing response JSON argument'') (\<lambda>response_path.
     bindW key_args (\<lambda>paths.
     liftW (Inr (response_path, paths))))"

section \<open>The programs\<close>

definition crateW :: "('w, 'a, Error) effect \<Rightarrow> ('w, 'a, main_error) effect" where
  "crateW m = (\<lambda>w. case m w of (r, w') \<Rightarrow> (map_err Crate r, w'))"

definition panicW :: "('a, Error) outcome \<Rightarrow> ('w, 'a, main_error) effect" where
  "panicW r = liftW (case r of None \<Rightarrow> Inl Panicked | Some x \<Rightarrow> map_err Crate x)"

definition fs_read :: "'w read_fn \<Rightarrow> str \<Rightarrow> ('w, bytes, main_error) effect" where
  "fs_read rd path = (\<lambda>w. case rd path w of (r, w') \<Rightarrow> (map_err FileError r, w'))"

definition load_keys ::
  "('sk, 'pk, 'cert) key_lib \<Rightarrow> 'w read_fn \<Rightarrow> str \<times> str \<times> str \<times> str \<Rightarrow> bytes \<Rightarrow>
    ('w, ('sk, 'pk) KeyMaterial, main_error) effect" where
  "load_keys L rd paths password =
     (case paths of (local_signing_path, local_decryption_path, remote_verification_path, remote_encryption_path) \<Rightarrow>
      bindW (crateW (PrivateKey_from_encrypted_file L rd local_signing_path password)) (\<lambda>ls.
      bindW (crateW (PrivateKey_from_encrypted_file L rd local_decryption_path password)) (\<lambda>ld.
      bindW (crateW (PublicKey_from_file L rd remote_verification_path)) (\<lambda>rv.
      bindW (crateW (PublicKey_from_file L rd remote_encryption_path)) (\<lambda>re.
      panicW (KeyMaterial_new L ls ld rv re))))))"

definition env_password :: "(string \<Rightarrow> str option) \<Rightarrow> (bytes, main_error) result" where
  "env_password env_var =
     bindR (ok_or (Text ''SECURE_ENVELOPE_KEY_PASSWORD is not set or is not valid UTF-8'')
       (env_var ''SECURE_ENVELOPE_KEY_PASSWORD'')) (\<lambda>password. Inr (as_bytes password))"

definition printed_request :: "RequestParts \<Rightarrow> str list" where
  "printed_request request =
     map (\<lambda>(name, _). lit ''header: '' @ HeaderName_as_str name) (entries (headers request)) @
     [lit ''body bytes: '' @ fmt_nat (str_len (body request))]"

definition build_request_main ::
  "('w, 'sk, 'pk) crypto \<Rightarrow> ('sk, 'pk, 'cert) key_lib \<Rightarrow> 'w read_fn \<Rightarrow> (string \<Rightarrow> str option) \<Rightarrow> str list \<Rightarrow>
    ('w, str list, main_error) effect" where
  "build_request_main P L rd env_var args =
     bindW (liftW (fst (build_request_args args))) (\<lambda>(payload_path, op, paths).
     bindW (liftW (env_password env_var)) (\<lambda>password.
     bindW (load_keys L rd paths password) (\<lambda>k.
     bindW (liftW (map_err Crate (example_client k))) (\<lambda>client.
     bindW (fs_read rd payload_path) (\<lambda>payload.
     bindW (liftW (map_err Crate (RequestBuilder_header (SecureClient_request client op)
       (lit ''X-Envelope-Trace'') (lit ''demo-trace'')))) (\<lambda>builder.
     bindW (crateW (RequestBuilder_bytes P builder payload)) (\<lambda>request.
     liftW (Inr (printed_request request)))))))))"

record ResponseDocument =
  document_headers :: "(str \<times> str) list"
  document_body :: str

definition open_response_main ::
  "('w, 'sk, 'pk) crypto \<Rightarrow> ('sk, 'pk, 'cert) key_lib \<Rightarrow> (ResponseDocument, 'x) json_scheme \<Rightarrow> 'w read_fn \<Rightarrow>
    (string \<Rightarrow> str option) \<Rightarrow> str list \<Rightarrow> ('w, str list, main_error) effect" where
  "open_response_main P L J rd env_var args =
     bindW (liftW (fst (open_response_args args))) (\<lambda>(response_path, paths).
     bindW (liftW (env_password env_var)) (\<lambda>password.
     bindW (load_keys L rd paths password) (\<lambda>k.
     bindW (liftW (map_err Crate (example_client k))) (\<lambda>client.
     bindW (fs_read rd response_path) (\<lambda>raw.
     bindW (liftW (ok_or JsonError (from_json J raw))) (\<lambda>document.
     bindW (panicW (SecureClient_open_response P client
       (ResponseParts_new (document_headers document) (document_body document)))) (\<lambda>verified.
     liftW (Inr [lit ''verified bytes: '' @ fmt_nat (length verified)]))))))))"

section \<open>Arguments\<close>

lemma next_arg_Inr: "next_arg m xs = (Inr y, r) \<longleftrightarrow> xs = y # r"
  by (cases xs) (auto simp: next_arg_def)

lemma no_more_args_Inr: "no_more_args xs = (Inr u, r) \<longleftrightarrow> xs = [] \<and> r = []"
  by (cases xs) (auto simp: no_more_args_def)

lemma fst_eq_Inr: "fst p = Inr a \<longleftrightarrow> (\<exists>r. p = (Inr a, r))"
  by (cases p) simp

lemma build_request_args_iff:
  "fst (build_request_args args) = Inr (payload_path, op, a, b, c, d) \<longleftrightarrow>
     args = [payload_path, op, a, b, c, d] \<and> str_ok op"
  by (auto simp: fst_eq_Inr build_request_args_def key_args_def bindW_eq_Inr next_arg_Inr no_more_args_Inr
      into_string_def)

lemma open_response_args_iff:
  "fst (open_response_args args) = Inr (response_path, a, b, c, d) \<longleftrightarrow> args = [response_path, a, b, c, d]"
  by (auto simp: fst_eq_Inr open_response_args_def key_args_def bindW_eq_Inr next_arg_Inr no_more_args_Inr)

section \<open>Opening\<close>

lemma panicW_Inr [simp]: "panicW r w = (Inr a, w') \<longleftrightarrow> r = Some (Inr a) \<and> w' = w"
  by (auto simp: panicW_def split: option.split)

lemma fs_read_Inr [simp]: "fs_read rd path w = (Inr bs, w') \<longleftrightarrow> rd path w = (Inr bs, w')"
  by (auto simp: fs_read_def split: prod.split)

lemma open_response_main_run:
  assumes "env_password env_var = Inr pw" "load_keys L rd (a, b, c, d) pw w = (Inr k, w1)"
    and "example_client k = Inr cl"
  shows "open_response_main P L J rd env_var [path, a, b, c, d] w =
    (case rd path w1 of
       (Inl e, w') \<Rightarrow> (Inl (FileError e), w')
     | (Inr raw, w') \<Rightarrow>
       (case from_json J raw of
          None \<Rightarrow> Inl JsonError
        | Some document \<Rightarrow>
          (case SecureClient_open_response P cl
             (ResponseParts_new (document_headers document) (document_body document)) of
             None \<Rightarrow> Inl Panicked
           | Some (Inl e) \<Rightarrow> Inl (Crate e)
           | Some (Inr verified) \<Rightarrow> Inr [lit ''verified bytes: '' @ fmt_nat (length verified)]), w'))"
proof -
  have "fst (open_response_args [path, a, b, c, d]) = Inr (path, a, b, c, d)"
    by (simp add: open_response_args_iff)
  with assms show ?thesis
    by (simp add: open_response_main_def bindW_def fs_read_def panicW_def split: prod.split sum.split option.split)
qed

lemma example_parse_context:
  "ExampleContextAdapter_parse_response r = Inr q \<Longrightarrow>
    \<exists>rid. example_header r ''X-Envelope-Request-Id'' = Inr rid \<and>
      authentication_context q = AuthenticationContext (Bound (as_bytes (lit ''request-id='' @ rid)))"
  by (auto simp: ExampleContextAdapter_parse_response_def bindR_eq_Inr Let_def ParsedResponse_new_def
      AuthenticationContext_context_bound_def split: if_splits)

section \<open>Building\<close>

abbreviation trace_headers :: HeaderCollection where
  "trace_headers \<equiv> \<lparr>entries = [entry_of (lit ''X-Envelope-Trace'', lit ''demo-trace'')]\<rparr>"

abbreviation example_of :: "('sk, 'pk) KeyMaterial \<Rightarrow> ('sk, 'pk) SecureClient" where
  "example_of k \<equiv> \<lparr>config = example_config, keys = k, adapter = ExampleContextAdapter\<rparr>"

lemma example_builder:
  "RequestBuilder_header (SecureClient_request cl op) (lit ''X-Envelope-Trace'') (lit ''demo-trace'') =
     Inr \<lparr>rb_client = cl, rb_operation = op, rb_metadata = None, rb_headers = trace_headers\<rparr>"
proof -
  have "HeaderCollection_insert (lit ''X-Envelope-Trace'') (lit ''demo-trace'') HeaderCollection_default =
      (Inr (), trace_headers)"
    by (simp add: insert_iff HeaderCollection_default_def header_eval)
  then show ?thesis
    by (simp add: RequestBuilder_header_def SecureClient_request_def RequestBuilder_new_def run_local_def)
qed

lemma build_request_main_run:
  assumes "env_password env_var = Inr pw" "load_keys L rd (a, b, c, d) pw w = (Inr k, w1)"
    and "rd path w1 = (Inr payload, w2)" "str_ok op"
  shows "build_request_main P L rd env_var [path, op, a, b, c, d] w =
    (case RequestBuilder_bytes P
       \<lparr>rb_client = example_of k, rb_operation = op, rb_metadata = None, rb_headers = trace_headers\<rparr> payload w2 of
       (Inl e, w') \<Rightarrow> (Inl (Crate e), w')
     | (Inr request, w') \<Rightarrow> (Inr (printed_request request), w'))"
proof -
  have args: "fst (build_request_args [path, op, a, b, c, d]) = Inr (path, op, a, b, c, d)"
    using assms(4) by (simp add: build_request_args_iff)
  show ?thesis
    using assms args
    by (simp add: build_request_main_def bindW_def fs_read_def crateW_def example_client_eq example_builder
        split: prod.split sum.split)
qed

lemma visible_valid_value: "\<forall>c \<in> set s. 33 \<le> c \<and> c < 127 \<Longrightarrow> valid_value s"
  by (force simp: valid_value_def is_disallowed_value_character_def)

text \<open>Metadata is generated when the generator and the clock answer, and headers can carry it.\<close>

lemma generate_live:
  assumes "os_laws os" "getrandom_fill os 16 w = (Some r, w1)" "since_unix_epoch os w1 = (Some d, w2)"
  shows "\<exists>md. RequestMetadata_generate os w = (Inr md, w2) \<and> metadata_ok md \<and>
    valid_value (request_id md) \<and> valid_value (request_time md) \<and>
    str_len (request_id md) = 32"
proof -
  have len: "length r = 16" using assms by (auto simp: os_laws_def)
  then have "r \<noteq> []" by auto
  then have id: "context_value_ok (concat (map fmt_hex2 r))" by (rule hex_id_ok)
  obtain t where t: "format_utc_timestamp d = Inr t" and chars: "\<forall>c \<in> set t. stamp_char c"
    using format_utc_timestamp_chars [of d] by blast
  have "valid_value t" by (rule visible_valid_value) (use chars in \<open>auto simp: stamp_char_def\<close>)
  moreover have "valid_value (concat (map fmt_hex2 r))"
    by (rule visible_valid_value) (force dest!: set_fmt_hex2)
  moreover have "list_all (\<lambda>c. c < 128) (concat (map fmt_hex2 r))"
    by (force simp: list_all_iff dest!: set_fmt_hex2)
  then have "str_len (concat (map fmt_hex2 r)) = length (concat (map fmt_hex2 r))"
    by (simp add: str_len_def as_bytes_ascii)
  then have "str_len (concat (map fmt_hex2 r)) = 32"
    using len by (simp add: length_concat comp_def sum_list_triv)
  ultimately show ?thesis
    using assms(2,3) t id timestamp_ok [OF t]
    by (simp add: RequestMetadata_generate_def callW_def bindW_def Let_def RequestMetadata_new_eq metadata_ok_def)
qed

text \<open>The names the program prints, and a whole request of the example client.\<close>

definition example_request_names :: "string list" where
  "example_request_names =
     [''Content-Type'', ''X-Envelope-Local-Identity'', ''X-Envelope-Api-Version'', ''X-Envelope-Local-Certificate'',
      ''X-Envelope-Operation'', ''X-Envelope-Request-Id'', ''X-Envelope-Request-Time'',
      ''X-Envelope-Request-Signature'', ''X-Envelope-Request-Wrapped-Key'']"

lemma example_names:
  "list_all (\<lambda>n. valid_name (lit n)) example_request_names"
  "distinct (map (\<lambda>n. to_ascii_lowercase (lit n)) (example_request_names @ [''X-Envelope-Trace'']))"
proof -
  show "list_all (\<lambda>n. valid_name (lit n)) example_request_names"
    unfolding example_request_names_def list.pred_inject
    by (intro conjI letters_valid_name TrueI) (simp_all add: lit_def)
  show "distinct (map (\<lambda>n. to_ascii_lowercase (lit n)) (example_request_names @ [''X-Envelope-Trace'']))"
    by (simp add: example_request_names_def header_eval)
qed

definition example_request_values :: "ProtocolRequestContext \<Rightarrow> SecureEnvelope \<Rightarrow> str list" where
  "example_request_values pc env =
     [lit ''application/example-envelope'', lit ''demo-client'', lit ''example-v1'',
      lit ''example-local-signing-certificate'', operation pc, request_id (metadata pc),
      request_time (metadata pc), signature env, wrapped_session_key env]"

lemma example_build_request:
  assumes "list_all valid_value [operation pc, request_id (metadata pc), request_time (metadata pc), signature env,
      wrapped_session_key env]"
  shows "ExampleContextAdapter_build_request (identity example_config) pc env =
    Inr \<lparr>headers = \<lparr>entries = map entry_of (zip (map lit example_request_names) (example_request_values pc env))\<rparr>,
      body = cipher env\<rparr>"
proof -
  let ?ps = "zip (map lit example_request_names) (example_request_values pc env)"
  have len: "length example_request_names = 9" "length (example_request_values pc env) = 9"
    by (simp_all add: example_request_names_def example_request_values_def)
  have "list_all valid_value (example_request_values pc env)"
    using assms by (simp add: example_request_values_def header_eval)
  then have "list_all (\<lambda>p. valid_name (fst p) \<and> valid_value (snd p)) ?ps"
    using example_names(1) unfolding list_all_iff by (metis imageE list.set_map prod.collapse set_zip_leftD set_zip_rightD)
  moreover have "map (\<lambda>p. to_ascii_lowercase (fst p)) ?ps = map to_ascii_lowercase (map fst ?ps)"
    unfolding map_map comp_def ..
  moreover have "map fst ?ps = map lit example_request_names"
    by (rule map_fst_zip) (simp add: len)
  moreover have "distinct (map to_ascii_lowercase (map lit example_request_names))"
    using example_names(2) unfolding map_append distinct_append map_map comp_def by (rule conjunct1)
  ultimately have "HeaderCollection_from_pairs ?ps = Inr \<lparr>entries = map entry_of ?ps\<rparr>"
    unfolding from_pairs_iff by presburger
  then have "RequestParts_new ?ps (cipher env) = Inr \<lparr>headers = \<lparr>entries = map entry_of ?ps\<rparr>, body = cipher env\<rparr>"
    by (simp add: RequestParts_new_eq)
  then show ?thesis
    by (simp add: ExampleContextAdapter_build_request_def example_request_names_def example_request_values_def
        example_config_def)
qed

lemma example_request_built:
  assumes "crypto_laws P"
    and "list_all valid_value [operation pc, request_id (metadata pc), request_time (metadata pc)]"
    and x: "ExampleContextAdapter_request_authentication_context (identity example_config) pc = Inr x"
    and seal: "envelope_seal P example_config k p x w = (Inr env, w')"
  shows "SecureClient_build_request P (example_of k) p \<lparr>protocol = pc, additional_headers = trace_headers\<rparr> w =
    (Inr \<lparr>headers = \<lparr>entries = map entry_of (zip (map lit example_request_names) (example_request_values pc env)) @
        entries trace_headers\<rparr>, body = cipher env\<rparr>, w')"
proof -
  note wire = sealed_wire_ok [OF assms(1) example_client_eq(2) seal]
  let ?es = "map entry_of (zip (map lit example_request_names) (example_request_values pc env))"
  have build: "ExampleContextAdapter_build_request (identity example_config) pc env =
      Inr \<lparr>headers = \<lparr>entries = ?es\<rparr>, body = cipher env\<rparr>"
    using assms(2) wire by (intro example_build_request) (simp add: wire_ok_def)
  then have ok: "hc_ok \<lparr>entries = ?es\<rparr>"
    by (auto simp: ExampleContextAdapter_build_request_def RequestParts_new_eq bindR_eq_Inr map_err_eq_Inr
        dest: from_pairs_ok)
  have trace: "hc_ok trace_headers" by (simp add: hc_ok_def entry_ok_entry_of header_eval)
  have "map header_key ?es = map (\<lambda>n. to_ascii_lowercase (lit n)) example_request_names"
    by (simp add: example_request_names_def example_request_values_def)
  then have keys: "header_key ` set ?es = (\<lambda>n. to_ascii_lowercase (lit n)) ` set example_request_names"
    unfolding list.set_map [symmetric] by (rule arg_cong)
  have "header_key ` set ?es \<inter> header_key ` set (entries trace_headers) = {}"
    unfolding keys using example_names(2) by simp
  then have "HeaderCollection_append_checked trace_headers \<lparr>entries = ?es\<rparr> =
      (Inr (), \<lparr>entries = ?es @ entries trace_headers\<rparr>)"
    using append_checked_iff [OF ok trace] by simp
  moreover have "RequestParts_validate \<lparr>headers = \<lparr>entries = ?es\<rparr>, body = cipher env\<rparr> = Inr ()"
    using ok by (simp add: RequestParts_validate_def revalidate_hc_ok)
  ultimately show ?thesis
    unfolding build_request_iff
    by - (rule exI [of _ x], rule exI [of _ env], rule exI [of _ "\<lparr>headers = \<lparr>entries = ?es\<rparr>, body = cipher env\<rparr>"],
        simp add: x seal build RequestParts_append_checked_def del: map_zip_map map_zip_map2)
qed

text \<open>With working primitives the example client builds a request for every operation headers can carry.\<close>

lemma example_bytes_live:
  assumes "crypto_laws P" "available P" "\<forall>t. signs P example_config k t"
    and clock: "\<forall>w. fst (since_unix_epoch P w) \<noteq> None"
    and op: "context_value_ok op" "valid_value op" "str_len op < 2 ^ 32" and len: "length p \<le> 16777216"
  shows "\<exists>pc env w'. str_len (cipher env) = 4 * ((length p + 32) div 3) \<and> RequestBuilder_bytes P
      \<lparr>rb_client = example_of k, rb_operation = op, rb_metadata = None, rb_headers = trace_headers\<rparr> p w =
    (Inr \<lparr>headers = \<lparr>entries = map entry_of (zip (map lit example_request_names) (example_request_values pc env)) @
        entries trace_headers\<rparr>, body = cipher env\<rparr>, w')"
proof -
  obtain r w1 where r: "getrandom_fill P 16 w = (Some r, w1)"
    using assms(2) by (metis available_def fst_Some)
  obtain t w2 where t: "since_unix_epoch P w1 = (Some t, w2)" using clock by (metis fst_Some)
  obtain md where md: "RequestMetadata_generate P w = (Inr md, w2)" "metadata_ok md"
    "valid_value (request_id md)" "valid_value (request_time md)" "str_len (request_id md) = 32"
    using generate_live [OF crypto_lawsD(1) [OF assms(1)] r t] by blast
  let ?pc = "\<lparr>operation = op, metadata = md\<rparr>"
  let ?bs = "as_bytes (lit ''operation='' @ op @ lit ''&request-id='' @ request_id md)"
  let ?x = "AuthenticationContext (Bound ?bs)"
  have x: "ExampleContextAdapter_request_authentication_context i ?pc = Inr ?x" for i
    by (simp add: example_request_context)
  have "length (as_bytes (lit ''operation='')) = 10" "length (as_bytes (lit ''&request-id='')) = 12"
    by (simp_all add: lit_def as_bytes_ascii)
  then have "length ?bs < 2 ^ 33" using op(3) md(5) by (simp add: str_len_def)
  then have fits: "80 + length (mode_domain (authentication_mode example_config)) + length (context_bytes ?x) +
      length p \<le> usize_MAX"
    using len by (simp add: example_config_def blit_def usize_MAX_def)
  have "mode_ok (authentication_mode example_config)" "context_matches (authentication_mode example_config) ?x"
    by (simp_all add: example_config_def mode_ok_def blit_def)
  then obtain ts where ts: "authentication_input (authentication_mode example_config) ?x p = Inr ts"
    using authentication_input_fits [of "authentication_mode example_config" ?x p] fits by auto
  have "length p \<le> max_plaintext_bytes example_config" using len by (simp add: example_config_def)
  from envelope_seal_live [OF assms(2,1) _ example_client_eq(2) ts this fits] assms(3)
  obtain env w' where seal: "envelope_seal P example_config k p ?x w2 = (Inr env, w')" by blast
  have "str_len (cipher env) = 4 * ((length p + 32) div 3)"
    using envelope_seal_size [OF assms(1) example_client_eq(2) seal]
    by (simp add: sealed_len_def example_config_def)
  moreover have "hc_ok trace_headers" by (simp add: hc_ok_def entry_ok_entry_of header_eval)
  then have "RequestBuilder_into_context P
      \<lparr>rb_client = example_of k, rb_operation = op, rb_metadata = None, rb_headers = trace_headers\<rparr> w =
      (Inr (example_of k, \<lparr>protocol = ?pc, additional_headers = trace_headers\<rparr>), w2)"
    using md(1) op(1) RequestContext_from_parts_eq [of trace_headers op md]
    by (simp add: RequestBuilder_into_context_def bindW_def metadata_or_generate_def HeaderCollection_into_pairs_def)
  then have "RequestBuilder_bytes P
      \<lparr>rb_client = example_of k, rb_operation = op, rb_metadata = None, rb_headers = trace_headers\<rparr> p w =
      SecureClient_build_request P (example_of k) p \<lparr>protocol = ?pc, additional_headers = trace_headers\<rparr> w2"
    by (simp add: RequestBuilder_bytes_def bindW_def)
  moreover note example_request_built [OF assms(1) _ x seal]
  ultimately show ?thesis
    using op(2) md(3,4) by (intro exI [of _ ?pc] exI [of _ env] exI [of _ w']) simp
qed

section \<open>Properties\<close>

text \<open>
  Property C33: the second example reports only authenticated messages. When the program
  prints a number of verified bytes, the configured peer signed a message of that length
  for exactly the request identifier that the response document names, provided the peer's
  key verifies nothing but transcripts of messages in a given set.
\<close>

theorem open_response_main_authentic:
  assumes "open_response_main P L J rd env_var [path, a, b, c, d] w = (Inr out, w')"
    and "env_password env_var = Inr pw" "load_keys L rd (a, b, c, d) pw w = (Inr k, w1)"
    and "example_client k = Inr cl"
    and signed: "\<And>t sig. peer_signed P (config cl) (keys cl) t sig \<Longrightarrow>
      \<exists>(x, q) \<in> M. authentication_input (authentication_mode (config cl)) x q = Inr t"
  shows "\<exists>raw document rid message. rd path w1 = (Inr raw, w') \<and> from_json J raw = Some document \<and>
    example_header (ResponseParts_new (document_headers document) (document_body document))
      ''X-Envelope-Request-Id'' = Inr rid \<and>
    (AuthenticationContext (Bound (as_bytes (lit ''request-id='' @ rid))), message) \<in> M \<and>
    out = [lit ''verified bytes: '' @ fmt_nat (length message)]"
proof -
  from assms(1-4) obtain raw document message where raw: "rd path w1 = (Inr raw, w')"
    "from_json J raw = Some document"
    and opened: "SecureClient_open_response P cl
      (ResponseParts_new (document_headers document) (document_body document)) = Some (Inr message)"
    and out: "out = [lit ''verified bytes: '' @ fmt_nat (length message)]"
    unfolding open_response_main_run [OF assms(2-4)] by (auto split: prod.splits sum.splits option.splits)
  obtain cl' where "example_client k = Inr cl'" "adapter cl' = ExampleContextAdapter"
    using example_builds by blast
  with assms(4) have "adapter cl = ExampleContextAdapter" by simp
  with opened obtain q where q: "ExampleContextAdapter_parse_response
      (ResponseParts_new (document_headers document) (document_body document)) = Inr q"
    and o: "envelope_open P (config cl) (keys cl) (envelope q) (authentication_context q) = Some (Inr message)"
    by (auto simp: open_response_iff)
  have "(authentication_context q, message) \<in> M"
    by (rule env.agreement [OF _ o]) (rule signed)
  moreover obtain rid where "example_header (ResponseParts_new (document_headers document) (document_body document))
      ''X-Envelope-Request-Id'' = Inr rid"
    "authentication_context q = AuthenticationContext (Bound (as_bytes (lit ''request-id='' @ rid)))"
    using example_parse_context [OF q] by blast
  ultimately show ?thesis
    using raw out by - (rule exI [of _ raw], rule exI [of _ document], rule exI [of _ rid], rule exI [of _ message], simp del: as_bytes_simps)
qed


text \<open>Four key files of one byte each, for one-byte keys.\<close>

definition tiny_lib :: "(byte, byte, unit) key_lib" where
  "tiny_lib =
     \<lparr>pem_decode = (\<lambda>_ _. None), pkcs8_decrypt = (\<lambda>d _. case d of [k] \<Rightarrow> Some k | _ \<Rightarrow> None),
      spki_decode = (\<lambda>d. case d of [k] \<Rightarrow> Some k | _ \<Rightarrow> None), x509_from_der = (\<lambda>_. None),
      subject_public_key = (\<lambda>_. 0), to_bytes_be = (\<lambda>k. [k]), to_sec1_uncompressed = (\<lambda>k. Some [k])\<rparr>"

definition tiny_files :: "nat read_fn" where
  "tiny_files path w = (Inr (map word_of_nat path), w)"

definition tiny_env :: "string \<Rightarrow> str option" where
  "tiny_env v = Some (lit ''pw'')"

lemma tiny_loads:
  "\<exists>pw. env_password tiny_env = Inr pw \<and>
     load_keys tiny_lib tiny_files ([1], [2], [3], [4]) pw w = (Inr alice_keys, w)"
  by (simp add: env_password_def tiny_env_def load_keys_def crateW_def bindW_def PrivateKey_from_encrypted_file_def
      PublicKey_from_file_def read_file_def tiny_files_def parse_private_def parse_public_def is_pem_def
      starts_with_def blit_def PrivateKey_from_encrypted_der_def PublicKey_from_der_def tiny_lib_def
      KeyMaterial_new_def private_roles_overlap_def public_roles_overlap_def panicW_def alice_keys_def)


text \<open>The peer of the example client answers, and the second example reads the answer.\<close>

definition example_peer :: ClientConfig where
  "example_peer = example_config
     \<lparr>local_signer_id := blit ''demo-remote-signer'', expected_remote_signer_id := blit ''demo-local-signer''\<rparr>"

definition example_answer :: "SecureEnvelope \<Rightarrow> ResponseDocument" where
  "example_answer env =
     \<lparr>document_headers = [(lit ''X-Envelope-Request-Id'', lit ''r''),
        (lit ''X-Envelope-Response-Signature'', signature env),
        (lit ''X-Envelope-Response-Wrapped-Key'', wrapped_session_key env),
        (lit ''X-Envelope-Response-Remote-Signing-Certificate'', lit ''example-remote-signing-certificate'')],
      document_body = cipher env\<rparr>"

abbreviation answer_context :: AuthenticationContext where
  "answer_context \<equiv> AuthenticationContext (Bound (as_bytes (lit ''request-id='' @ lit ''r'')))"

lemma eq_ignore_length: "length a \<noteq> length b \<Longrightarrow> \<not> eq_ignore_ascii_case a b" "eq_ignore_ascii_case a a"
  by (auto simp: eq_ignore_ascii_case_def to_ascii_lowercase_def dest: map_eq_imp_length_eq)

lemma length_lit: "length (lit s) = length s"
  by (simp add: lit_def)

lemma example_answer_parses:
  "parse_response ExampleContextAdapter
     (ResponseParts_new (document_headers (example_answer env)) (document_body (example_answer env))) =
   Inr \<lparr>envelope = env, remote_signing_certificate_id = lit ''example-remote-signing-certificate'',
     authentication_context = answer_context\<rparr>"
proof -
  have "example_header (ResponseParts_new (document_headers (example_answer env)) b) ''X-Envelope-Request-Id'' = Inr (lit ''r'')"
    "example_header (ResponseParts_new (document_headers (example_answer env)) b) ''X-Envelope-Response-Signature'' = Inr (signature env)"
    "example_header (ResponseParts_new (document_headers (example_answer env)) b) ''X-Envelope-Response-Wrapped-Key'' = Inr (wrapped_session_key env)"
    "example_header (ResponseParts_new (document_headers (example_answer env)) b) ''X-Envelope-Response-Remote-Signing-Certificate'' =
       Inr (lit ''example-remote-signing-certificate'')" for b
    by (simp_all add: example_header_def example_answer_def ResponseParts_new_def eq_ignore_length length_lit)
  moreover have "context_value_ok (lit ''example-remote-signing-certificate'')"
    by (simp add: lit_def visible_value_ok)
  then have "ParsedResponse_new e (lit ''example-remote-signing-certificate'') x =
      Inr \<lparr>envelope = e, remote_signing_certificate_id = lit ''example-remote-signing-certificate'',
        authentication_context = x\<rparr>" for e x
    by (simp add: ParsedResponse_new_def context_value_ok_def)
  moreover have "AuthenticationContext_context_bound (as_bytes (lit ''request-id='' @ lit ''r'')) = Inr answer_context"
    by (simp add: AuthenticationContext_context_bound_def lit_def del: as_bytes_simps)
  moreover have "response_body (ResponseParts_new hs b) = b" for hs b by (simp add: ResponseParts_new_def)
  moreover have "document_body (example_answer env) = cipher env" by (simp add: example_answer_def)
  ultimately show ?thesis
    by (simp add: ExampleContextAdapter_parse_response_def Let_def del: as_bytes_simps)
qed

theorem open_response_main_authentic_witness:
  "\<exists>P (J :: ResponseDocument json). fst (open_response_main P tiny_lib J tiny_files tiny_env [[5], [1], [2], [3], [4]] (0 :: nat)) =
     Inr [lit ''verified bytes: '' @ fmt_nat 2]"
proof -
  obtain pw where load: "env_password tiny_env = Inr pw"
    "load_keys tiny_lib tiny_files ([1], [2], [3], [4]) pw 0 = (Inr alice_keys, 0)"
    using tiny_loads by blast
  have peer_ok: "config_ok example_peer"
    using example_client_eq(2)
    by (simp add: example_peer_def config_ok_def example_config_def signer_id_ok_def blit_def)
  have fits: "80 + length (mode_domain (authentication_mode example_peer)) + length (context_bytes answer_context) +
      length [1, 2 :: byte] \<le> usize_MAX"
    by (simp add: example_peer_def example_config_def blit_def usize_MAX_def lit_def as_bytes_ascii)
  have mode: "mode_ok (authentication_mode example_peer)" "context_matches (authentication_mode example_peer) answer_context"
    by (simp_all add: example_peer_def example_config_def mode_ok_def blit_def)
  obtain t where t: "authentication_input (authentication_mode example_peer) answer_context [1, 2] = Inr t"
    using authentication_input_fits [OF mode, of "[1, 2]"] fits by auto
  have len: "length [1, 2 :: byte] \<le> max_plaintext_bytes example_peer"
    by (simp add: example_peer_def example_config_def)
  let ?P = "one_message t" and ?cl = "example_of alice_keys"
  obtain env w' where seal: "envelope_seal ?P example_peer bob_keys [1, 2] answer_context 0 = (Inr env, w')"
    using one_seals [OF peer_ok t len fits] by blast
  have peer: "peers ?P example_peer bob_keys example_config alice_keys"
    by (simp add: peers_def example_peer_def example_config_def alice_keys_def bob_keys_def one_message_def
        plain_crypto_def)
  have "str_len (cipher env) \<le> usize_MAX"
    unfolding envelope_seal_size [OF one_message_laws peer_ok seal]
    by (simp add: sealed_len_def example_peer_def example_config_def usize_MAX_def)
  from envelope_open_sealed [OF one_message_laws peer_ok peer this seal]
  have opened: "SecureClient_open_response ?P ?cl (ResponseParts_new (document_headers (example_answer env))
      (document_body (example_answer env))) = Some (Inr [1, 2])"
    unfolding open_response_iff
    by (intro exI [of _ "\<lparr>envelope = env, remote_signing_certificate_id = lit ''example-remote-signing-certificate'',
        authentication_context = answer_context\<rparr>"])
      (simp add: example_answer_parses [unfolded example_adapter_simps] example_config_def del: as_bytes_simps)
  let ?J = "\<lparr>to_json = (\<lambda>_. None), from_json = (\<lambda>_. Some (example_answer env))\<rparr>"
  let ?main = "open_response_main ?P tiny_lib ?J tiny_files tiny_env [[5], [1], [2], [3], [4]] 0"
  have run: "?main = (Inr [lit ''verified bytes: '' @ fmt_nat (length [1, 2 :: byte])], 0)"
    unfolding open_response_main_run [OF load example_client_eq(1)] by (simp add: tiny_files_def opened)
  have signed: "\<exists>(x, q) \<in> {(answer_context, [1, 2])}.
      authentication_input (authentication_mode (config ?cl)) x q = Inr s"
    if "peer_signed ?P (config ?cl) (keys ?cl) s sig" for s sig
    using that t by (simp add: peer_signed_def one_message_def example_peer_def del: as_bytes_simps)
  obtain message :: bytes where "message = [1, 2]" "?main = (Inr [lit ''verified bytes: '' @ fmt_nat (length message)], 0)"
    using open_response_main_authentic [OF run load example_client_eq(1) signed] run by auto
  then have "fst ?main = Inr [lit ''verified bytes: '' @ fmt_nat 2]" by (simp add: numeral_2_eq_2)
  then show ?thesis by - (rule exI [of _ ?P], rule exI [of _ ?J])
qed

end
