(* ===== verification/Fuzz_Input.thy ===== *)
theory Fuzz_Input
  imports Message
begin

text \<open>
  The input side of \<^verbatim>\<open>fuzz/fuzz_targets/support.rs\<close>: how a byte string of the fuzzer is read as
  scenario, selectors and framed fields, and how header sequences are generated from it.
  The standard-library functions it uses are modelled as they behave: lossy UTF-8 decoding
  and the parsing of decimal numbers. The lemmas show that reading never indexes out of
  bounds, whatever the input.
\<close>

section \<open>Standard library\<close>

text \<open>The length of the ill-formed prefix that lossy decoding replaces by one U+FFFD.\<close>

fun bad_len :: "nat list \<Rightarrow> nat" where
  "bad_len (a # b # r) =
     (if (a = 0xE0 \<and> 0xA0 \<le> b \<and> b < 0xC0) \<or> (a = 0xED \<and> 0x80 \<le> b \<and> b < 0xA0) \<or>
         (0xE1 \<le> a \<and> a < 0xF0 \<and> a \<noteq> 0xED \<and> is_cont b)
      then 2
      else if (a = 0xF0 \<and> 0x90 \<le> b \<and> b < 0xC0) \<or> (0xF1 \<le> a \<and> a < 0xF4 \<and> is_cont b) \<or>
         (a = 0xF4 \<and> 0x80 \<le> b \<and> b < 0x90)
      then (case r of c # _ \<Rightarrow> (if is_cont c then 3 else 2) | [] \<Rightarrow> 2)
      else 1)"
| "bad_len _ = 1"

lemma bad_len_pos: "0 < bad_len bs"
  by (cases bs rule: bad_len.cases) (auto split: list.splits)

function utf8_lossy :: "nat list \<Rightarrow> str" where
  "utf8_lossy bs =
     (if bs = [] then []
      else case utf8_step bs of
        Some (c, r) \<Rightarrow> c # utf8_lossy r
      | None \<Rightarrow> 0xFFFD # utf8_lossy (drop (bad_len bs) bs))"
  by pat_completeness auto
termination
  by (relation "measure length") (auto simp: bad_len_pos dest: utf8_step_shorter)

declare utf8_lossy.simps [simp del]

definition from_utf8_lossy :: "bytes \<Rightarrow> str" where
  "from_utf8_lossy bs = utf8_lossy (map unat bs)"

text \<open>\<^verbatim>\<open>str::parse::<usize>\<close>: an optional plus sign and decimal digits, without overflow.\<close>

fun parse_digits :: "usize \<Rightarrow> str \<Rightarrow> usize option" where
  "parse_digits acc [] = Some acc"
| "parse_digits acc (c # cs) =
     (if 48 \<le> c \<and> c \<le> 57
      then Option.bind (checked_mul acc 10) (\<lambda>a. Option.bind (checked_add a (c - 48)) (\<lambda>a. parse_digits a cs))
      else None)"

definition parse_usize :: "str \<Rightarrow> usize option" where
  "parse_usize s =
     (let digits = (case s of c # r \<Rightarrow> if c = 43 then r else s | [] \<Rightarrow> [])
      in if digits = [] then None else parse_digits 0 digits)"

text \<open>\<^verbatim>\<open>slice::get\<close> with an index, with a range up to a bound and with a range from a bound.\<close>

definition get_at :: "'a list \<Rightarrow> nat \<Rightarrow> 'a option" where
  "get_at xs i = (if i < length xs then Some (xs ! i) else None)"

definition get_to :: "'a list \<Rightarrow> nat \<Rightarrow> 'a list option" where
  "get_to xs n = (if n \<le> length xs then Some (take n xs) else None)"

definition get_from :: "'a list \<Rightarrow> nat \<Rightarrow> 'a list option" where
  "get_from xs n = (if n \<le> length xs then Some (drop n xs) else None)"

definition strip_byte :: "byte \<Rightarrow> bytes \<Rightarrow> bytes option" where
  "strip_byte b xs = (case xs of x # r \<Rightarrow> if x = b then Some r else None | [] \<Rightarrow> None)"

fun position :: "byte \<Rightarrow> bytes \<Rightarrow> nat option" where
  "position b [] = None"
| "position b (x # xs) = (if x = b then Some 0 else map_option Suc (position b xs))"

definition unwrap_or :: "'a \<Rightarrow> 'a option \<Rightarrow> 'a" where
  "unwrap_or d x = (case x of Some a \<Rightarrow> a | None \<Rightarrow> d)"

section \<open>Scenarios\<close>

datatype TransportScenario =
    TransportSuccess | TransportDuplicate | TransportUnknown | TransportMissing
  | HeaderCipherSuccess | HeaderCipherMissing | HeaderCipherEmpty | HeaderCipherDuplicate
  | HeaderCipherGeneric | TransportGeneric

datatype TypedScenario = TypedValid | TypedDuplicate | TypedGeneric

datatype ContextScenario =
    RoundTrip | MismatchedContext | LegacyMarker | OversizePlaintext | ContextGeneric

datatype ScenarioOutcome = Accepted | Rejected

fun TransportScenario_expected_outcome :: "TransportScenario \<Rightarrow> ScenarioOutcome option" where
  "TransportScenario_expected_outcome TransportSuccess = Some Accepted"
| "TransportScenario_expected_outcome TransportUnknown = Some Accepted"
| "TransportScenario_expected_outcome HeaderCipherSuccess = Some Accepted"
| "TransportScenario_expected_outcome TransportDuplicate = Some Rejected"
| "TransportScenario_expected_outcome TransportMissing = Some Rejected"
| "TransportScenario_expected_outcome HeaderCipherMissing = Some Rejected"
| "TransportScenario_expected_outcome HeaderCipherEmpty = Some Rejected"
| "TransportScenario_expected_outcome HeaderCipherDuplicate = Some Rejected"
| "TransportScenario_expected_outcome TransportGeneric = None"
| "TransportScenario_expected_outcome HeaderCipherGeneric = None"

fun TypedScenario_expected_outcome :: "TypedScenario \<Rightarrow> ScenarioOutcome option" where
  "TypedScenario_expected_outcome TypedValid = Some Accepted"
| "TypedScenario_expected_outcome TypedDuplicate = Some Rejected"
| "TypedScenario_expected_outcome TypedGeneric = None"

fun ContextScenario_expected_outcome :: "ContextScenario \<Rightarrow> ScenarioOutcome option" where
  "ContextScenario_expected_outcome RoundTrip = Some Accepted"
| "ContextScenario_expected_outcome MismatchedContext = Some Rejected"
| "ContextScenario_expected_outcome LegacyMarker = Some Rejected"
| "ContextScenario_expected_outcome OversizePlaintext = Some Rejected"
| "ContextScenario_expected_outcome ContextGeneric = None"

text \<open>The letters S, D, U, M, H, I, E, J, C; V, D; and R, M, L, O.\<close>

definition transport_scenario :: "bytes \<Rightarrow> TransportScenario" where
  "transport_scenario data =
     (case get_at data 0 of
        None \<Rightarrow> TransportGeneric
      | Some b \<Rightarrow>
          if b = 0x53 then TransportSuccess
          else if b = 0x44 then TransportDuplicate
          else if b = 0x55 then TransportUnknown
          else if b = 0x4D then TransportMissing
          else if b = 0x48 then HeaderCipherSuccess
          else if b = 0x49 then HeaderCipherMissing
          else if b = 0x45 then HeaderCipherEmpty
          else if b = 0x4A then HeaderCipherDuplicate
          else if b = 0x43 then HeaderCipherGeneric
          else TransportGeneric)"

definition typed_scenario :: "bytes \<Rightarrow> TypedScenario" where
  "typed_scenario data =
     (case get_at data 0 of
        None \<Rightarrow> TypedGeneric
      | Some b \<Rightarrow>
          if b = 0x56 then TypedValid else if b = 0x44 then TypedDuplicate else TypedGeneric)"

definition context_scenario :: "bytes \<Rightarrow> ContextScenario" where
  "context_scenario data =
     (case get_at data 0 of
        None \<Rightarrow> ContextGeneric
      | Some b \<Rightarrow>
          if b = 0x52 then RoundTrip
          else if b = 0x4D then MismatchedContext
          else if b = 0x4C then LegacyMarker
          else if b = 0x4F then OversizePlaintext
          else ContextGeneric)"

section \<open>Framed fields\<close>

definition frame :: "bytes \<Rightarrow> bytes \<times> bytes" where
  "frame data =
     (case position 0x3A data of
        None \<Rightarrow> ([], [])
      | Some colon \<Rightarrow>
        (case parse_usize (unwrap_or [] (from_utf8 (take colon data))) of
           None \<Rightarrow> ([], [])
         | Some len \<Rightarrow>
           (let rest = drop (colon + 1) data;
                len = min len (length rest);
                (field, remainder) = (take len rest, drop len rest);
                remainder = unwrap_or remainder (strip_byte 0x7C remainder)
            in (field, remainder))))"

fun frames :: "nat \<Rightarrow> bytes \<Rightarrow> bytes list" where
  "frames 0 remainder = []"
| "frames (Suc n) remainder = (let (field, next) = frame remainder in field # frames n next)"

definition framed :: "nat \<Rightarrow> bytes \<Rightarrow> bytes list" where
  "framed n data =
     (case Option.bind (get_from data 6) (strip_byte 0x7C) of
        None \<Rightarrow> replicate n []
      | Some payload \<Rightarrow> frames n payload)"

definition fuzz_fields :: "bytes \<Rightarrow> bytes \<times> bytes \<times> bytes" where
  "fuzz_fields data = (let fs = framed 3 data in (fs ! 0, fs ! 1, fs ! 2))"

definition fuzz_text :: "bytes \<Rightarrow> str" where
  "fuzz_text data = from_utf8_lossy data"

definition selectors :: "bytes \<Rightarrow> bytes" where
  "selectors data = unwrap_or [] (get_to data 6)"

definition selector_mod :: "bytes \<Rightarrow> nat \<Rightarrow> nat \<Rightarrow> nat" where
  "selector_mod data i m = unat (unwrap_or 0 (get_at (selectors data) i)) mod m"

section \<open>Header names and sequences\<close>

definition transport_names :: "str list" where
  "transport_names =
     [lit ''X-Fuzz-Response-Signature'', lit ''X-Fuzz-Response-Wrapped-Key'',
      lit ''X-Fuzz-Response-Remote-Signing-Certificate'']"

definition transport_mixed :: "str list" where
  "transport_mixed =
     [lit ''X-fUzZ-ReSpOnSe-SiGnAtUrE'', lit ''X-fUzZ-ReSpOnSe-WrApPeD-KeY'',
      lit ''X-fUzZ-ReSpOnSe-ReMoTe-SiGnInG-CeRtIfIcAtE'']"

definition header_cipher_names :: "str list" where
  "header_cipher_names =
     [lit ''X-Fuzz-Response-Signature'', lit ''X-Fuzz-Response-Wrapped-Key'',
      lit ''X-Fuzz-Response-Remote-Signing-Certificate'', lit ''X-Fuzz-Response-Cipher'']"

definition header_cipher_mixed :: "str list" where
  "header_cipher_mixed =
     [lit ''X-fUzZ-ReSpOnSe-SiGnAtUrE'', lit ''X-fUzZ-ReSpOnSe-WrApPeD-KeY'',
      lit ''X-fUzZ-ReSpOnSe-ReMoTe-SiGnInG-CeRtIfIcAtE'', lit ''X-fUzZ-ReSpOnSe-CiPhEr'']"

text \<open>The letters c, l, m, u, e, r, s, w, k and p; any other byte by its remainder.\<close>

definition transport_name :: "byte option \<Rightarrow> nat \<Rightarrow> bytes \<Rightarrow> str" where
  "transport_name selector slot raw =
     (let s = unwrap_or 0x63 selector;
          k = (if s = 0x63 then 0 else if s = 0x6C then 1 else if s = 0x6D then 2
               else if s = 0x75 then 3 else if s = 0x65 then 4 else if s = 0x72 then 5
               else if s = 0x73 then 6 else if s = 0x77 then 7 else if s = 0x6B then 8
               else unat s mod 9)
      in if k = 0 then transport_names ! slot
         else if k = 1 then to_ascii_lowercase (transport_names ! slot)
         else if k = 2 then transport_mixed ! slot
         else if k = 3 then lit ''X-Fuzz-Unknown''
         else if k = 4 then []
         else if k = 5 then fuzz_text raw
         else if k = 6 then transport_names ! 0
         else if k = 7 then transport_names ! 1
         else transport_names ! 2)"

definition header_cipher_name :: "byte option \<Rightarrow> nat \<Rightarrow> bytes \<Rightarrow> str" where
  "header_cipher_name selector slot raw =
     (let s = unwrap_or 0x63 selector;
          k = (if s = 0x63 then 0 else if s = 0x6C then 1 else if s = 0x6D then 2
               else if s = 0x75 then 3 else if s = 0x65 then 4 else if s = 0x72 then 5
               else if s = 0x73 then 6 else if s = 0x77 then 7 else if s = 0x6B then 8
               else if s = 0x70 then 9 else unat s mod 10)
      in if k = 0 then header_cipher_names ! slot
         else if k = 1 then to_ascii_lowercase (header_cipher_names ! slot)
         else if k = 2 then header_cipher_mixed ! slot
         else if k = 3 then lit ''X-Fuzz-Unknown''
         else if k = 4 then []
         else if k = 5 then fuzz_text raw
         else if k = 6 then header_cipher_names ! 0
         else if k = 7 then header_cipher_names ! 1
         else if k = 8 then header_cipher_names ! 2
         else header_cipher_names ! 3)"

definition typed_names :: "str list" where
  "typed_names = [lit ''X-Fuzz-Header'', lit ''X-Fuzz-Other'']"

definition typed_mixed :: "str list" where
  "typed_mixed = [lit ''X-fUzZ-HeAdEr'', lit ''X-fUzZ-OtHeR'']"

text \<open>The letters c, l, m, h, o, e and r.\<close>

definition typed_name :: "byte option \<Rightarrow> nat \<Rightarrow> bytes \<Rightarrow> str" where
  "typed_name selector slot raw =
     (let s = unwrap_or 0x63 selector;
          k = (if s = 0x63 then 0 else if s = 0x6C then 1 else if s = 0x6D then 2
               else if s = 0x68 then 3 else if s = 0x6F then 4 else if s = 0x65 then 5
               else if s = 0x72 then 6 else unat s mod 7)
      in if k = 0 then typed_names ! slot
         else if k = 1 then to_ascii_lowercase (typed_names ! slot)
         else if k = 2 then typed_mixed ! slot
         else if k = 3 then to_ascii_lowercase (typed_names ! 0)
         else if k = 4 then typed_names ! 1
         else if k = 5 then []
         else fuzz_text raw)"

text \<open>Indexing a header sequence, which panics out of range: \<open>None\<close>.\<close>

definition pick :: "nat list \<Rightarrow> 'a list \<Rightarrow> 'a list option" where
  "pick order xs =
     (if list_all (\<lambda>i. i < length xs) order then Some (map ((!) xs) order) else None)"

definition repeat_first :: "nat \<Rightarrow> (str \<times> str) list \<Rightarrow> (str \<times> str) list option" where
  "repeat_first k hs =
     (if k = 0 then Some hs
      else (case hs of
              [] \<Rightarrow> None
            | (n, v) # _ \<Rightarrow> Some (hs @ [if k = 1 then (n, v) else (to_ascii_lowercase n, v)])))"

definition generic_transport_parts :: "bytes \<Rightarrow> ResponseParts option" where
  "generic_transport_parts data =
     (let fs = framed 7 data;
          hs = map (\<lambda>slot. (transport_name (get_at (selectors data) (slot + 1)) slot (fs ! slot),
                            fuzz_text (fs ! (slot + 3)))) [0..<3];
          k = selector_mod data 4 6;
          order = (if k = 0 then [0, 1, 2] else if k = 1 then [1, 0, 2] else if k = 2 then [0, 2, 1]
                   else if k = 3 then [2, 1, 0] else if k = 4 then [1, 2, 0] else [2, 0, 1])
      in Option.bind (pick order hs) (\<lambda>hs.
         Option.bind (repeat_first (selector_mod data 5 3) hs) (\<lambda>hs.
         Some (ResponseParts_new hs (fuzz_text (fs ! 6))))))"

definition generic_header_cipher_parts :: "bytes \<Rightarrow> ResponseParts option" where
  "generic_header_cipher_parts data =
     (let fs = framed 9 data;
          hs = map (\<lambda>slot. (header_cipher_name (get_at (selectors data) (slot + 1)) slot (fs ! slot),
                            fuzz_text (fs ! (slot + 4)))) [0..<4];
          k = selector_mod data 5 6;
          order = (if k = 0 then [0, 1, 2, 3] else if k = 1 then [3, 0, 1, 2]
                   else if k = 2 then [0, 1, 3, 2] else if k = 3 then [3, 2, 1, 0]
                   else if k = 4 then [0, 3, 1, 2] else [1, 0, 2, 3])
      in Option.bind (pick order hs) (\<lambda>hs.
         Option.bind (repeat_first (selector_mod data 5 3) hs) (\<lambda>hs.
         Some (ResponseParts_new hs (fuzz_text (fs ! 8))))))"

definition swap_if :: "bool \<Rightarrow> 'a \<times> 'a \<Rightarrow> 'a \<times> 'a" where
  "swap_if b p = (if b then (snd p, fst p) else p)"

definition generic_typed_parts :: "bytes \<Rightarrow> RequestParts Result option" where
  "generic_typed_parts data =
     (let fs = framed 5 data;
          (n0, n1) = swap_if (selector_mod data 3 2 = 1)
            (typed_name (get_at (selectors data) 1) 0 (fs ! 0),
             typed_name (get_at (selectors data) 2) 1 (fs ! 1));
          (v0, v1) = swap_if (selector_mod data 5 2 = 1) (fuzz_text (fs ! 2), fuzz_text (fs ! 3))
      in map_option (\<lambda>hs. RequestParts_new hs (fuzz_text (fs ! 4)))
           (repeat_first (selector_mod data 4 3) [(n0, v0), (n1, v1)]))"

section \<open>Reading never goes out of bounds\<close>

lemma length_frames [simp]: "length (frames n d) = n"
  by (induction n arbitrary: d) (simp_all split: prod.split)

lemma length_framed [simp]: "length (framed n d) = n"
  by (simp add: framed_def split: option.split)

lemma repeat_first_total: "hs \<noteq> [] \<Longrightarrow> \<exists>hs'. repeat_first k hs = Some hs'"
  by (cases hs) (auto simp: repeat_first_def)

lemma pick_total:
  assumes "list_all (\<lambda>i. i < length hs) order" "order \<noteq> []"
  shows "\<exists>r. Option.bind (pick order hs) (\<lambda>hs. Option.bind (repeat_first k hs) (\<lambda>hs. Some (g hs))) = Some r"
proof -
  obtain hs' where "repeat_first k (map ((!) hs) order) = Some hs'"
    using repeat_first_total [of "map ((!) hs) order" k] assms(2) by auto
  with assms(1) show ?thesis by (simp add: pick_def)
qed

lemma generic_transport_total: "\<exists>r. generic_transport_parts data = Some r"
  unfolding generic_transport_parts_def Let_def by (rule pick_total) simp_all

lemma generic_header_cipher_total: "\<exists>r. generic_header_cipher_parts data = Some r"
  unfolding generic_header_cipher_parts_def Let_def by (rule pick_total) simp_all

lemma generic_typed_total: "\<exists>r. generic_typed_parts data = Some r"
proof -
  have "\<exists>r. map_option g (repeat_first k [x, y]) = Some r" for g k and x y :: "str \<times> str"
    using repeat_first_total [of "[x, y]" k] by auto
  then show ?thesis unfolding generic_typed_parts_def Let_def case_prod_beta by blast
qed

text \<open>Lossy decoding agrees with strict decoding wherever that succeeds.\<close>

lemma utf8_lossy_valid: "utf8_decode bs = Some s \<Longrightarrow> utf8_lossy bs = s"
proof (induction bs arbitrary: s rule: utf8_lossy.induct)
  case (1 bs)
  then show ?case
    by (subst utf8_lossy.simps) (auto simp: utf8_decode.simps [of bs] split: if_splits option.splits)
qed

lemma fuzz_text_valid: "from_utf8 d = Some s \<Longrightarrow> fuzz_text d = s"
  by (simp add: fuzz_text_def from_utf8_lossy_def from_utf8_def utf8_lossy_valid)

end
