(* ===== verification/Fuzz_Contract.thy ===== *)
theory Fuzz_Contract
  imports Fuzz_Input Client
begin

text \<open>
  The fixed schemas, clients and outcomes of \<^verbatim>\<open>fuzz/fuzz_targets/support.rs\<close> and the assertions of
  the fuzz targets. A panic (a failed \<^verbatim>\<open>expect\<close>, assertion or index) is \<open>None\<close>. The key pair
  that the harness derives from a fixed scalar is a parameter. The lemmas show that the
  fixed schemas and clients build and that the header scenarios reach their outcomes.
\<close>

section \<open>Constants\<close>

definition AUXILIARY_LIMIT :: usize where
  "AUXILIARY_LIMIT = 16 * 1024"

definition FUZZ_MAX_PLAINTEXT_BYTES :: usize where
  "FUZZ_MAX_PLAINTEXT_BYTES = 64"

definition AEAD_FRAME_OVERHEAD_BYTES :: usize where
  "AEAD_FRAME_OVERHEAD_BYTES = 30"

definition div_ceil :: "usize \<Rightarrow> usize \<Rightarrow> usize" where
  "div_ceil a b = (if a mod b = 0 then a div b else a div b + 1)"

definition AEAD_CIPHER_LIMIT :: usize where
  "AEAD_CIPHER_LIMIT = div_ceil (FUZZ_MAX_PLAINTEXT_BYTES + AEAD_FRAME_OVERHEAD_BYTES) 3 * 4"

definition PADDED_CIPHER_BYTES :: usize where
  "PADDED_CIPHER_BYTES = (FUZZ_MAX_PLAINTEXT_BYTES div 16 + 1) * 16"

definition CIPHER_LIMIT :: usize where
  "CIPHER_LIMIT = div_ceil PADDED_CIPHER_BYTES 3 * 4"

definition VALID_PLAINTEXT :: bytes where
  "VALID_PLAINTEXT = blit ''fuzz envelope''"

definition EXPECTED_REMOTE_SIGNING_CERTIFICATE :: str where
  "EXPECTED_REMOTE_SIGNING_CERTIFICATE = lit ''fuzz-certificate''"

definition CONTEXT_DOMAIN_SEPARATOR :: bytes where
  "CONTEXT_DOMAIN_SEPARATOR = blit ''fuzz/domain-separator/v1''"

definition DEFAULT_PROTOCOL_CONTEXT :: bytes where
  "DEFAULT_PROTOCOL_CONTEXT = blit ''operation=fuzz''"

section \<open>Schemas and adapters\<close>

definition fuzz_schema_builder :: HeaderSchemaBuilder where
  "fuzz_schema_builder =
     HeaderSchemaBuilder_response_remote_signing_certificate_header (lit ''X-Fuzz-Response-Remote-Signing-Certificate'')
     (HeaderSchemaBuilder_response_wrapped_key_header (lit ''X-Fuzz-Response-Wrapped-Key'')
     (HeaderSchemaBuilder_response_signature_header (lit ''X-Fuzz-Response-Signature'')
     (HeaderSchemaBuilder_request_cipher Body
     (HeaderSchemaBuilder_request_wrapped_key_header (lit ''X-Fuzz-Request-Wrapped-Key'')
     (HeaderSchemaBuilder_request_signature_header (lit ''X-Fuzz-Request-Signature'')
     (HeaderSchemaBuilder_remote_encryption_certificate_header (lit ''X-Fuzz-Remote-Encryption-Certificate'')
     (HeaderSchemaBuilder_remote_signing_certificate_header (lit ''X-Fuzz-Remote-Signing-Certificate'')
     (HeaderSchemaBuilder_local_certificate_header (lit ''X-Fuzz-Local-Certificate'')
     (HeaderSchemaBuilder_api_version_header (lit ''X-Fuzz-Api-Version'')
     (HeaderSchemaBuilder_request_time_header (lit ''X-Fuzz-Request-Time'')
     (HeaderSchemaBuilder_request_id_header (lit ''X-Fuzz-Request-Id'')
     (HeaderSchemaBuilder_operation_header (lit ''X-Fuzz-Operation'')
     (HeaderSchemaBuilder_local_identity_header (lit ''X-Fuzz-Local-Identity'')
     (HeaderSchemaBuilder_static_request_header (lit ''Content-Type'') (lit ''application/fuzz+octets'')
        HeaderSchema_builder))))))))))))))"

definition fuzz_schema :: "HeaderSchema option" where
  "fuzz_schema =
     expect (HeaderSchemaBuilder_build
       (HeaderSchemaBuilder_legacy_authentication
       (HeaderSchemaBuilder_response_cipher Body fuzz_schema_builder)))"

definition header_cipher_schema :: "HeaderSchema option" where
  "header_cipher_schema =
     Option.bind (expect (HeaderName_new (lit ''X-Fuzz-Response-Cipher''))) (\<lambda>name.
     expect (HeaderSchemaBuilder_build
       (HeaderSchemaBuilder_legacy_authentication
       (HeaderSchemaBuilder_response_cipher (InHeader name) fuzz_schema_builder))))"

definition context_schema :: "HeaderSchema option" where
  "context_schema =
     expect (HeaderSchemaBuilder_build
       (HeaderSchemaBuilder_context_bound_authentication
       (HeaderSchemaBuilder_response_cipher Body fuzz_schema_builder)))"

definition fuzz_adapter :: "HeaderProtocolAdapter option" where
  "fuzz_adapter = map_option HeaderProtocolAdapter_new fuzz_schema"

definition header_cipher_adapter :: "HeaderProtocolAdapter option" where
  "header_cipher_adapter = map_option HeaderProtocolAdapter_new header_cipher_schema"

section \<open>Transport and header scenarios\<close>

abbreviation response_sig :: "string \<Rightarrow> str \<times> str" where
  "response_sig v \<equiv> (lit ''X-Fuzz-Response-Signature'', lit v)"

abbreviation response_key :: "string \<Rightarrow> str \<times> str" where
  "response_key v \<equiv> (lit ''X-Fuzz-Response-Wrapped-Key'', lit v)"

abbreviation response_cert :: "string \<Rightarrow> str \<times> str" where
  "response_cert v \<equiv> (lit ''X-Fuzz-Response-Remote-Signing-Certificate'', lit v)"

abbreviation response_ciph :: "string \<Rightarrow> str \<times> str" where
  "response_ciph v \<equiv> (lit ''X-Fuzz-Response-Cipher'', lit v)"

definition scenario_headers :: "TransportScenario \<Rightarrow> (str \<times> str) list" where
  "scenario_headers scenario =
     (case scenario of
        TransportSuccess \<Rightarrow>
          [response_sig ''signature'', response_key ''wrapped'', response_cert ''fuzz-certificate'']
      | TransportDuplicate \<Rightarrow>
          [response_sig ''first'', (lit ''x-fuzz-response-signature'', lit ''second''),
           response_key ''wrapped'', response_cert ''fuzz-certificate'']
      | TransportUnknown \<Rightarrow>
          [(lit ''X-Fuzz-Unknown'', lit ''ignored''), response_sig ''signature'',
           response_key ''wrapped'', response_cert ''fuzz-certificate'']
      | TransportMissing \<Rightarrow> [response_sig ''signature'']
      | HeaderCipherSuccess \<Rightarrow>
          [response_sig ''signature'', response_key ''wrapped'', response_cert ''fuzz-certificate'',
           response_ciph ''cipher'']
      | HeaderCipherMissing \<Rightarrow>
          [response_sig ''signature'', response_key ''wrapped'', response_cert ''fuzz-certificate'']
      | HeaderCipherEmpty \<Rightarrow>
          [response_sig ''signature'', response_key ''wrapped'', response_cert ''fuzz-certificate'',
           response_ciph '''']
      | HeaderCipherDuplicate \<Rightarrow>
          [response_sig ''signature'', response_key ''wrapped'', response_cert ''fuzz-certificate'',
           response_ciph ''first'', (lit ''x-fuzz-response-cipher'', lit ''second'')]
      | _ \<Rightarrow> [])"

definition outcome_of :: "bool \<Rightarrow> ScenarioOutcome" where
  "outcome_of accepted = (if accepted then Accepted else Rejected)"

text \<open>The inner option is the result of the function, the outer one its panics.\<close>

definition transport_outcome :: "TransportScenario \<Rightarrow> ScenarioOutcome option option" where
  "transport_outcome scenario =
     (let parse = (\<lambda>a b. map_option (\<lambda>a. Some (outcome_of (is_ok
          (HeaderProtocolAdapter_parse_response a (ResponseParts_new (scenario_headers scenario) (lit b)))))) a)
      in if scenario \<in> {TransportGeneric, HeaderCipherGeneric} then Some None
         else if scenario \<in> {TransportSuccess, TransportDuplicate, TransportUnknown, TransportMissing}
         then parse fuzz_adapter ''cipher''
         else parse header_cipher_adapter ''ignored-body'')"

definition typed_outcome :: "TypedScenario \<Rightarrow> ScenarioOutcome option" where
  "typed_outcome scenario =
     (case scenario of
        TypedValid \<Rightarrow> Some (outcome_of
          (is_ok (HeaderName_new (lit ''X-Fuzz-Header'')) \<and> is_ok (HeaderValue_new (lit ''header-value'')) \<and>
           is_ok (RequestParts_new
             [(lit ''X-Fuzz-Header'', lit ''header-value''), (lit ''X-Fuzz-Other'', lit ''second'')] (lit ''body''))))
      | TypedDuplicate \<Rightarrow> Some (outcome_of
          (is_ok (RequestParts_new
             [(lit ''X-Fuzz-Header'', lit ''first''), (lit ''x-fuzz-header'', lit ''second'')] (lit ''body''))))
      | TypedGeneric \<Rightarrow> None)"

text \<open>The bodies of the two targets; \<^verbatim>\<open>assert_eq!\<close> panics on a difference.\<close>

definition transport_parts_target :: "bytes \<Rightarrow> unit option" where
  "transport_parts_target data =
     (let scenario = transport_scenario data in
      case TransportScenario_expected_outcome scenario of
        Some expected \<Rightarrow>
          Option.bind (transport_outcome scenario) (\<lambda>r. assert_that (r = Some expected))
      | None \<Rightarrow>
          if scenario = HeaderCipherGeneric
          then Option.bind header_cipher_adapter (\<lambda>a.
               map_option (\<lambda>r. let _ = HeaderProtocolAdapter_parse_response a r in ())
                 (generic_header_cipher_parts data))
          else Option.bind fuzz_adapter (\<lambda>a.
               map_option (\<lambda>r. let _ = HeaderProtocolAdapter_parse_response a r in ())
                 (generic_transport_parts data)))"

definition typed_headers_target :: "bytes \<Rightarrow> unit option" where
  "typed_headers_target data =
     (let scenario = typed_scenario data in
      case TypedScenario_expected_outcome scenario of
        Some expected \<Rightarrow> assert_that (typed_outcome scenario = Some expected)
      | None \<Rightarrow> map_option (\<lambda>r. ()) (generic_typed_parts data))"

section \<open>Clients\<close>

definition fuzz_keys :: "'sk \<Rightarrow> 'pk \<Rightarrow> ('sk, 'pk) KeyMaterial" where
  "fuzz_keys priv pub = KeyMaterial_shared (PrivateKey priv) \<lparr>inner = pub, source = Spki\<rparr>"

text \<open>The setters that the three client functions repeat.\<close>

definition fuzz_config_builder :: ClientConfigBuilder where
  "fuzz_config_builder =
     ClientConfigBuilder_expected_remote_signer_id (blit ''fuzz-signer'')
     (ClientConfigBuilder_local_signer_id (blit ''fuzz-signer'')
     (ClientConfigBuilder_remote_encryption_certificate_id (lit ''fuzz-encryption-certificate'')
     (ClientConfigBuilder_expected_remote_signing_certificate_id EXPECTED_REMOTE_SIGNING_CERTIFICATE
     (ClientConfigBuilder_local_certificate_id EXPECTED_REMOTE_SIGNING_CERTIFICATE
     (ClientConfigBuilder_api_version (lit ''fuzz-v1'')
     (ClientConfigBuilder_local_identity_id (lit ''fuzz-identity'') ClientConfig_builder))))))"

definition fuzz_client :: "'sk \<Rightarrow> 'pk \<Rightarrow> ('sk, 'pk) SecureClient option" where
  "fuzz_client priv pub =
     Option.bind (expect (ClientConfigBuilder_build True
       (ClientConfigBuilder_max_plaintext_bytes FUZZ_MAX_PLAINTEXT_BYTES
       (ClientConfigBuilder_iv (blit ''0123456789abcdef'')
       (ClientConfigBuilder_envelope_mode LegacyCbc
       (ClientConfigBuilder_authentication_mode LegacyPlaintext fuzz_config_builder)))))) (\<lambda>c.
     Option.bind fuzz_schema (\<lambda>s.
     expect (SecureClient_new c (fuzz_keys priv pub) (header_adapter (HeaderProtocolAdapter_new s)))))"

definition context_client :: "'sk \<Rightarrow> 'pk \<Rightarrow> ('sk, 'pk) SecureClient option" where
  "context_client priv pub =
     Option.bind (expect (AuthenticationMode_context_bound CONTEXT_DOMAIN_SEPARATOR)) (\<lambda>mode.
     Option.bind (expect (ClientConfigBuilder_build True
       (ClientConfigBuilder_max_plaintext_bytes FUZZ_MAX_PLAINTEXT_BYTES
       (ClientConfigBuilder_iv (blit ''0123456789abcdef'')
       (ClientConfigBuilder_envelope_mode LegacyCbc
       (ClientConfigBuilder_authentication_mode mode fuzz_config_builder)))))) (\<lambda>c.
     Option.bind context_schema (\<lambda>s.
     expect (SecureClient_new c (fuzz_keys priv pub) (header_adapter (HeaderProtocolAdapter_new s))))))"

definition aead_client_with :: "AeadAlgorithm \<Rightarrow> 'sk \<Rightarrow> 'pk \<Rightarrow> ('sk, 'pk) SecureClient option" where
  "aead_client_with algorithm priv pub =
     Option.bind (expect (ClientConfigBuilder_build True
       (ClientConfigBuilder_max_plaintext_bytes FUZZ_MAX_PLAINTEXT_BYTES
       (ClientConfigBuilder_envelope_mode (Aead algorithm)
       (ClientConfigBuilder_authentication_mode LegacyPlaintext fuzz_config_builder))))) (\<lambda>c.
     Option.bind fuzz_schema (\<lambda>s.
     expect (SecureClient_new c (fuzz_keys priv pub) (header_adapter (HeaderProtocolAdapter_new s)))))"

definition aead_client :: "'sk \<Rightarrow> 'pk \<Rightarrow> ('sk, 'pk) SecureClient option" where
  "aead_client priv pub = aead_client_with Sm4Gcm priv pub"

definition ccm_client :: "'sk \<Rightarrow> 'pk \<Rightarrow> ('sk, 'pk) SecureClient option" where
  "ccm_client priv pub = aead_client_with Sm4Ccm priv pub"

section \<open>Envelope inputs\<close>

text \<open>\<^verbatim>\<open>valid_envelope\<close> and its two variants: one envelope per client, sealed on first use.\<close>

definition valid_envelope_of ::
  "('w, 'sk, 'pk) crypto \<Rightarrow> ('sk, 'pk) SecureClient \<Rightarrow> 'w \<Rightarrow> SecureEnvelope option" where
  "valid_envelope_of P client w =
     expect (fst (SecureClient_seal P client VALID_PLAINTEXT AuthenticationContext_legacy w))"

definition mutate :: "str \<Rightarrow> bytes \<Rightarrow> str option" where
  "mutate valid raw =
     (let value = as_bytes valid;
          value =
            (if value = [] then value
             else (let index = unat (unwrap_or 0 (get_at raw 0)) mod length value
                   in value[index := if value ! index = 0x41 then 0x42 else 0x41]))
      in from_utf8 value)"

definition select_value :: "byte option \<Rightarrow> byte option \<Rightarrow> bytes \<Rightarrow> str \<Rightarrow> usize \<Rightarrow> str option" where
  "select_value mode boundary raw valid limit =
     (let mode = (case mode of
            None \<Rightarrow> 0
          | Some b \<Rightarrow> if b = 0x76 then 0 else if b = 0x72 then 1 else if b = 0x62 then 2
                      else if b = 0x6D then 3 else unat b mod 4)
      in if mode = (0 :: nat) then Some valid
         else if mode = 1 then Some (fuzz_text raw)
         else if mode = 2 then Some (replicate (limit - 1 + unat (unwrap_or 0x30 boundary) mod 3) 0x41)
         else mutate valid raw)"

definition encoded_values_for ::
  "usize \<Rightarrow> bytes \<Rightarrow> SecureEnvelope \<Rightarrow> (str \<times> str \<times> str) option" where
  "encoded_values_for limit data env =
     (let (signature_raw, wrapped_raw, cipher_raw) = fuzz_fields data; s = selectors data in
      Option.bind (select_value (get_at s 0) (get_at s 3) signature_raw (signature env) AUXILIARY_LIMIT) (\<lambda>sig.
      Option.bind (select_value (get_at s 1) (get_at s 4) wrapped_raw (wrapped_session_key env) AUXILIARY_LIMIT) (\<lambda>wrapped.
      Option.bind (select_value (get_at s 2) (get_at s 5) cipher_raw (cipher env) limit) (\<lambda>ciph.
      Some (sig, wrapped, ciph)))))"

definition encoded_values :: "bytes \<Rightarrow> SecureEnvelope \<Rightarrow> (str \<times> str \<times> str) option" where
  "encoded_values data env = encoded_values_for CIPHER_LIMIT data env"

definition aead_encoded_values_for :: "bytes \<Rightarrow> SecureEnvelope \<Rightarrow> (str \<times> str \<times> str) option" where
  "aead_encoded_values_for data env = encoded_values_for AEAD_CIPHER_LIMIT data env"

definition encoded_certificate_claim :: "bytes \<Rightarrow> str" where
  "encoded_certificate_claim data =
     (let claim = framed 4 data ! 3
      in if claim = [] then EXPECTED_REMOTE_SIGNING_CERTIFICATE else fuzz_text claim)"

definition envelope_response_parts :: "str \<times> str \<times> str \<Rightarrow> bytes \<Rightarrow> ResponseParts" where
  "envelope_response_parts vs data =
     (case vs of (sig, wrapped, ciph) \<Rightarrow>
        ResponseParts_new
          [(lit ''X-Fuzz-Response-Signature'', sig), (lit ''X-Fuzz-Response-Wrapped-Key'', wrapped),
           (lit ''X-Fuzz-Response-Remote-Signing-Certificate'', encoded_certificate_claim data)]
          ciph)"

definition encoded_response_parts :: "bytes \<Rightarrow> SecureEnvelope \<Rightarrow> ResponseParts option" where
  "encoded_response_parts data env =
     map_option (\<lambda>vs. envelope_response_parts vs data) (encoded_values data env)"

definition aead_response_parts :: "bytes \<Rightarrow> SecureEnvelope \<Rightarrow> ResponseParts option" where
  "aead_response_parts data env =
     map_option (\<lambda>vs. envelope_response_parts vs data) (aead_encoded_values_for data env)"

text \<open>The bodies of the three envelope targets; the corpus file \<^verbatim>\<open>full_valid_open\<close> is the same for each.\<close>

definition FULL_VALID :: bytes where
  "FULL_VALID = blit ''vvv000|0:|0:|0:'' @ [0x0A]"

definition assert_opened :: "bytes \<Rightarrow> (bytes, Error) result \<Rightarrow> unit option" where
  "assert_opened data opened =
     (if data = FULL_VALID
      then Option.bind (expect opened) (\<lambda>p. assert_that (p = VALID_PLAINTEXT))
      else Some ())"

definition encoded_envelope_target ::
  "('w, 'sk, 'pk) crypto \<Rightarrow> 'sk \<Rightarrow> 'pk \<Rightarrow> 'w \<Rightarrow> bytes \<Rightarrow> unit option" where
  "encoded_envelope_target P priv pub w data =
     Option.bind (fuzz_client priv pub) (\<lambda>client.
     Option.bind (valid_envelope_of P client w) (\<lambda>env.
     Option.bind (encoded_response_parts data env) (\<lambda>parts.
     Option.bind (SecureClient_open_response P client parts) (\<lambda>opened.
     assert_opened data opened))))"

definition aead_envelope_target ::
  "('w, 'sk, 'pk) crypto \<Rightarrow> 'sk \<Rightarrow> 'pk \<Rightarrow> 'w \<Rightarrow> bytes \<Rightarrow> unit option" where
  "aead_envelope_target P priv pub w data =
     Option.bind (aead_client priv pub) (\<lambda>client.
     Option.bind (valid_envelope_of P client w) (\<lambda>env.
     Option.bind (aead_response_parts data env) (\<lambda>parts.
     Option.bind (SecureClient_open_response P client parts) (\<lambda>opened.
     assert_opened data opened))))"

definition aead_ccm_envelope_target ::
  "('w, 'sk, 'pk) crypto \<Rightarrow> 'sk \<Rightarrow> 'pk \<Rightarrow> 'w \<Rightarrow> bytes \<Rightarrow> unit option" where
  "aead_ccm_envelope_target P priv pub w data =
     Option.bind (ccm_client priv pub) (\<lambda>client.
     Option.bind (valid_envelope_of P client w) (\<lambda>env.
     Option.bind (aead_response_parts data env) (\<lambda>parts.
     Option.bind (SecureClient_open_response P client parts) (\<lambda>opened.
     assert_opened data opened))))"

section \<open>Context scenarios\<close>

definition context_plaintext :: "bytes \<Rightarrow> bytes" where
  "context_plaintext data =
     (case context_scenario data of
        OversizePlaintext \<Rightarrow> replicate (FUZZ_MAX_PLAINTEXT_BYTES + 1) 0x78
      | _ \<Rightarrow> (let raw = fst (fuzz_fields data)
             in unwrap_or [] (get_to raw (min (length raw) FUZZ_MAX_PLAINTEXT_BYTES))))"

definition sealing_bytes :: "bytes \<Rightarrow> bytes" where
  "sealing_bytes data =
     (let raw = fst (snd (fuzz_fields data)) in if raw = [] then DEFAULT_PROTOCOL_CONTEXT else raw)"

definition opening_context :: "bytes \<Rightarrow> AuthenticationContext \<Rightarrow> AuthenticationContext option" where
  "opening_context data sealing_context =
     (case context_scenario data of
        LegacyMarker \<Rightarrow> Some AuthenticationContext_legacy
      | MismatchedContext \<Rightarrow> expect (AuthenticationContext_context_bound (sealing_bytes data @ [0x21]))
      | _ \<Rightarrow> Some sealing_context)"

definition context_outcome ::
  "('w, 'sk, 'pk) crypto \<Rightarrow> 'sk \<Rightarrow> 'pk \<Rightarrow> bytes \<Rightarrow> 'w \<Rightarrow> ScenarioOutcome option" where
  "context_outcome P priv pub data w =
     (case AuthenticationContext_context_bound (sealing_bytes data) of
        Inl _ \<Rightarrow> Some Rejected
      | Inr sealing_context \<Rightarrow>
        Option.bind (context_client priv pub) (\<lambda>client.
        (case fst (SecureClient_seal P client (context_plaintext data) sealing_context w) of
           Inl _ \<Rightarrow> Some Rejected
         | Inr env \<Rightarrow>
           Option.bind (opening_context data sealing_context) (\<lambda>ctx.
           Option.bind (SecureClient_open P client env ctx) (\<lambda>r.
           (case r of
              Inr opened \<Rightarrow> if opened = context_plaintext data then Some Accepted else None
            | Inl _ \<Rightarrow> Some Rejected))))))"

definition context_envelope_target ::
  "('w, 'sk, 'pk) crypto \<Rightarrow> 'sk \<Rightarrow> 'pk \<Rightarrow> bytes \<Rightarrow> 'w \<Rightarrow> unit option" where
  "context_envelope_target P priv pub data w =
     Option.bind (context_outcome P priv pub data w) (\<lambda>outcome.
     (case ContextScenario_expected_outcome (context_scenario data) of
        Some expected \<Rightarrow> assert_that (outcome = expected)
      | None \<Rightarrow> Some ()))"

section \<open>The schemas are well formed\<close>

definition fuzz_schema_with :: "CipherLocation \<Rightarrow> HeaderAuthentication \<Rightarrow> HeaderSchema" where
  "fuzz_schema_with location auth =
     \<lparr>static_request_headers = [(hname ''Content-Type'', HeaderValue (lit ''application/fuzz+octets''))],
      local_identity_header = hname ''X-Fuzz-Local-Identity'', operation_header = hname ''X-Fuzz-Operation'',
      request_id_header = hname ''X-Fuzz-Request-Id'', request_time_header = hname ''X-Fuzz-Request-Time'',
      api_version_header = hname ''X-Fuzz-Api-Version'',
      local_certificate_header = hname ''X-Fuzz-Local-Certificate'',
      remote_signing_certificate_header = hname ''X-Fuzz-Remote-Signing-Certificate'',
      remote_encryption_certificate_header = hname ''X-Fuzz-Remote-Encryption-Certificate'',
      request_signature_header = hname ''X-Fuzz-Request-Signature'',
      request_wrapped_key_header = hname ''X-Fuzz-Request-Wrapped-Key'', request_cipher = Body,
      response_signature_header = hname ''X-Fuzz-Response-Signature'',
      response_wrapped_key_header = hname ''X-Fuzz-Response-Wrapped-Key'',
      response_remote_signing_certificate_header = hname ''X-Fuzz-Response-Remote-Signing-Certificate'',
      response_cipher = location, authentication = auth\<rparr>"

abbreviation cipher_name :: HeaderName where
  "cipher_name \<equiv> hname ''X-Fuzz-Response-Cipher''"

lemma letters_name_ok:
  assumes "s \<noteq> []" "list_all (\<lambda>n. (97 \<le> n \<and> n \<le> 122) \<or> (65 \<le> n \<and> n \<le> 90) \<or> n = 45) (lit s)"
  shows "name_ok (hname s)"
  using letters_valid_name [OF assms] by (simp add: name_ok_def hname_def)

lemma fuzz_names_ok:
  "list_all name_ok (request_names (fuzz_schema_with location auth))"
  "list_all name_ok (response_names (fuzz_schema_with Body auth))"
  "name_ok cipher_name"
  by (simp_all add: fuzz_schema_with_def request_names_def response_names_def letters_name_ok lit_def)

lemma fuzz_names_distinct:
  "distinct (map canonical (request_names (fuzz_schema_with location auth)))"
  "distinct (map canonical (response_names (fuzz_schema_with Body auth)))"
  "distinct (map canonical (response_names (fuzz_schema_with (InHeader cipher_name) HeaderLegacy)))"
  by (simp_all add: fuzz_schema_with_def request_names_def response_names_def hname_def header_eval)

lemma fuzz_schemas_ok:
  "schema_ok (fuzz_schema_with Body auth)" "schema_ok (fuzz_schema_with (InHeader cipher_name) HeaderLegacy)"
proof -
  have s: "static_request_headers (fuzz_schema_with location auth) \<noteq> []"
    "list_all static_value_ok (static_request_headers (fuzz_schema_with location auth))" for location auth
    by (simp_all add: fuzz_schema_with_def static_value_ok_def header_eval trim_def trim_start_def
        trim_end_def is_whitespace_def)
  have "response_names (fuzz_schema_with (InHeader n) HeaderLegacy) =
      response_names (fuzz_schema_with Body HeaderLegacy) @ [n]" for n
    by (simp add: response_names_def fuzz_schema_with_def)
  then have "list_all name_ok (response_names (fuzz_schema_with (InHeader cipher_name) HeaderLegacy))"
    using fuzz_names_ok by simp
  then show "schema_ok (fuzz_schema_with Body auth)"
    "schema_ok (fuzz_schema_with (InHeader cipher_name) HeaderLegacy)"
    using s fuzz_names_ok fuzz_names_distinct unfolding schema_ok_def by blast+
qed

lemma describe_fuzz_schema:
  "describe (fuzz_schema_with location HeaderLegacy) =
     HeaderSchemaBuilder_legacy_authentication (HeaderSchemaBuilder_response_cipher location fuzz_schema_builder)"
  "describe (fuzz_schema_with location HeaderContextBound) =
     HeaderSchemaBuilder_context_bound_authentication
       (HeaderSchemaBuilder_response_cipher location fuzz_schema_builder)"
  by (simp_all add: describe_def fuzz_schema_with_def fuzz_schema_builder_def pair_of_def hname_def)

lemma fuzz_schemas:
  "fuzz_schema = Some (fuzz_schema_with Body HeaderLegacy)"
  "header_cipher_schema = Some (fuzz_schema_with (InHeader cipher_name) HeaderLegacy)"
  "context_schema = Some (fuzz_schema_with Body HeaderContextBound)"
proof -
  have "HeaderName_new (lit ''X-Fuzz-Response-Cipher'') = Inr cipher_name"
    using fuzz_names_ok(3) by (simp add: HeaderName_new_iff name_ok_def hname_def)
  then show "header_cipher_schema = Some (fuzz_schema_with (InHeader cipher_name) HeaderLegacy)"
    using schema_build_describe [OF fuzz_schemas_ok(2)]
    by (simp add: header_cipher_schema_def expect_def describe_fuzz_schema)
  show "fuzz_schema = Some (fuzz_schema_with Body HeaderLegacy)"
    "context_schema = Some (fuzz_schema_with Body HeaderContextBound)"
    using schema_build_describe [OF fuzz_schemas_ok(1)]
    by (simp_all add: fuzz_schema_def context_schema_def expect_def describe_fuzz_schema [symmetric])
qed

section \<open>Transport scenarios\<close>

lemma fuzz_targets:
  "response_target (fuzz_schema_with location HeaderLegacy) (lit ''X-Fuzz-Response-Signature'') = Some SlotSignature"
  "response_target (fuzz_schema_with location HeaderLegacy) (lit ''x-fuzz-response-signature'') = Some SlotSignature"
  "response_target (fuzz_schema_with location HeaderLegacy) (lit ''X-Fuzz-Response-Wrapped-Key'') = Some SlotWrappedKey"
  "response_target (fuzz_schema_with location HeaderLegacy) (lit ''X-Fuzz-Response-Remote-Signing-Certificate'') =
     Some SlotCertificate"
  "response_target (fuzz_schema_with Body HeaderLegacy) (lit ''X-Fuzz-Unknown'') = None"
  "response_target (fuzz_schema_with (InHeader cipher_name) HeaderLegacy) (lit ''X-Fuzz-Response-Cipher'') = Some SlotCipher"
  "response_target (fuzz_schema_with (InHeader cipher_name) HeaderLegacy) (lit ''x-fuzz-response-cipher'') = Some SlotCipher"
  by (simp_all add: response_target_def fuzz_schema_with_def HeaderName_as_str_def hname_def header_eval)

lemma fuzz_schema_fields:
  "response_cipher (fuzz_schema_with location auth) = location"
  "authentication (fuzz_schema_with location auth) = auth"
  by (simp_all add: fuzz_schema_with_def)

lemma scenario_values_ok:
  "field_ok (lit ''signature'')" "field_ok (lit ''wrapped'')" "field_ok (lit ''fuzz-certificate'')"
  "field_ok (lit ''cipher'')" "trim (lit ''cipher'') \<noteq> []" "\<not> field_ok (lit '''')"
  by (simp_all add: field_ok_def header_eval trim_def trim_start_def trim_end_def is_whitespace_def)

lemma parse_is_ok:
  "is_ok (HeaderProtocolAdapter_parse_response a r) \<longleftrightarrow>
    (\<exists>sig key cert ciph ctx.
       occurrences (schema a) (response_headers r) SlotSignature = [sig] \<and> field_ok sig \<and>
       occurrences (schema a) (response_headers r) SlotWrappedKey = [key] \<and> field_ok key \<and>
       occurrences (schema a) (response_headers r) SlotCertificate = [cert] \<and> field_ok cert \<and>
       response_cipher_text (schema a) r ciph \<and> response_context (schema a) r ctx)"
  unfolding is_ok_iff parse_response_iff by blast

lemma transport_contract:
  "TransportScenario_expected_outcome s = Some e \<Longrightarrow> transport_outcome s = Some (Some e)"
  by (cases s)
    (simp_all add: transport_outcome_def fuzz_adapter_def header_cipher_adapter_def fuzz_schemas
      HeaderProtocolAdapter_new_def ResponseParts_new_def parse_is_ok scenario_headers_def fuzz_targets
      fuzz_schema_fields scenario_values_ok response_cipher_text_def response_context_def outcome_of_def)

lemma typed_contract:
  "TypedScenario_expected_outcome s = Some e \<Longrightarrow> typed_outcome s = Some e"
  by (cases s)
    (simp_all add: typed_outcome_def outcome_of_def is_ok_iff RequestParts_new_eq bindR_eq_Inr
      from_pairs_iff HeaderName_new_iff HeaderValue_new_iff header_eval)

section \<open>The clients\<close>

definition fuzz_config :: "AuthenticationMode \<Rightarrow> EnvelopeMode \<Rightarrow> bytes \<Rightarrow> ClientConfig" where
  "fuzz_config mode payload v =
     \<lparr>identity = \<lparr>local_identity_id = lit ''fuzz-identity'', api_version = lit ''fuzz-v1'',
        local_certificate_id = lit ''fuzz-certificate'',
        expected_remote_signing_certificate_id = lit ''fuzz-certificate'',
        remote_encryption_certificate_id = lit ''fuzz-encryption-certificate''\<rparr>,
      local_signer_id = blit ''fuzz-signer'', expected_remote_signer_id = blit ''fuzz-signer'',
      authentication_mode = mode, iv = v, envelope_mode = payload, max_plaintext_bytes = 64\<rparr>"

lemma fuzz_values_ok:
  "context_value_ok (lit ''fuzz-identity'')" "context_value_ok (lit ''fuzz-v1'')"
  "context_value_ok (lit ''fuzz-certificate'')" "context_value_ok (lit ''fuzz-encryption-certificate'')"
  "signer_id_ok (blit ''fuzz-signer'')" "wire_ok (lit ''fuzz-certificate'')"
  "length (blit ''0123456789abcdef'') = 16"
  by (simp_all add: lit_def visible_value_ok signer_id_ok_def blit_def)
    (simp add: wire_ok_def valid_value_def is_disallowed_value_character_def trim_def trim_start_def
      trim_end_def is_whitespace_def)

lemma fuzz_config_ok:
  assumes "mode_ok mode" "length v = 16" "payload \<noteq> LegacyCbc \<longrightarrow> v = replicate 16 0"
  shows "config_ok (fuzz_config mode payload v)"
  using assms by (simp add: config_ok_def identity_ok_def fuzz_config_def fuzz_values_ok)

lemma fuzz_config_builds:
  assumes "mode_ok mode"
  shows "ClientConfigBuilder_build True
      (ClientConfigBuilder_max_plaintext_bytes FUZZ_MAX_PLAINTEXT_BYTES
      (ClientConfigBuilder_iv v
      (ClientConfigBuilder_envelope_mode LegacyCbc
      (ClientConfigBuilder_authentication_mode mode fuzz_config_builder)))) =
      Inr (fuzz_config mode LegacyCbc v)"
    and "ClientConfigBuilder_build True
      (ClientConfigBuilder_max_plaintext_bytes FUZZ_MAX_PLAINTEXT_BYTES
      (ClientConfigBuilder_envelope_mode (Aead alg)
      (ClientConfigBuilder_authentication_mode mode fuzz_config_builder))) =
      Inr (fuzz_config mode (Aead alg) (replicate 16 0))"
  using assms
  by (simp_all add: build_eq_table first_failure_iff config_checks_def config_of_def fuzz_values_ok setter_defs
      opt_ok_def asked_mode_def asked_limit_def fuzz_config_builder_def FUZZ_MAX_PLAINTEXT_BYTES_def
      EXPECTED_REMOTE_SIGNING_CERTIFICATE_def fuzz_config_def mode_ok_def)

definition legacy_fuzz_client :: "EnvelopeMode \<Rightarrow> bytes \<Rightarrow> 'sk \<Rightarrow> 'pk \<Rightarrow> ('sk, 'pk) SecureClient" where
  "legacy_fuzz_client payload v priv pub =
     \<lparr>config = fuzz_config LegacyPlaintext payload v, keys = fuzz_keys priv pub,
      adapter = header_adapter \<lparr>schema = fuzz_schema_with Body HeaderLegacy\<rparr>\<rparr>"

definition bound_fuzz_client :: "'sk \<Rightarrow> 'pk \<Rightarrow> ('sk, 'pk) SecureClient" where
  "bound_fuzz_client priv pub =
     \<lparr>config = fuzz_config (ContextBound CONTEXT_DOMAIN_SEPARATOR) LegacyCbc (blit ''0123456789abcdef''),
      keys = fuzz_keys priv pub,
      adapter = header_adapter \<lparr>schema = fuzz_schema_with Body HeaderContextBound\<rparr>\<rparr>"

lemma fuzz_clients:
  "fuzz_client priv pub = Some (legacy_fuzz_client LegacyCbc (blit ''0123456789abcdef'') priv pub)"
  "aead_client_with alg priv pub = Some (legacy_fuzz_client (Aead alg) (replicate 16 0) priv pub)"
  "context_client priv pub = Some (bound_fuzz_client priv pub)"
proof -
  have modes: "mode_ok LegacyPlaintext" "mode_ok (ContextBound CONTEXT_DOMAIN_SEPARATOR)"
    "CONTEXT_DOMAIN_SEPARATOR \<noteq> []"
    by (simp_all add: mode_ok_def CONTEXT_DOMAIN_SEPARATOR_def blit_def)
  have "pinned_authentication (header_adapter \<lparr>schema = fuzz_schema_with Body HeaderLegacy\<rparr>) = Some PinLegacyPlaintext"
    "pinned_authentication (header_adapter \<lparr>schema = fuzz_schema_with Body HeaderContextBound\<rparr>) = Some PinContextBound"
    by (simp_all add: header_adapter_def HeaderProtocolAdapter_pinned_authentication_def fuzz_schema_fields)
  then show "fuzz_client priv pub = Some (legacy_fuzz_client LegacyCbc (blit ''0123456789abcdef'') priv pub)"
    "aead_client_with alg priv pub = Some (legacy_fuzz_client (Aead alg) (replicate 16 0) priv pub)"
    "context_client priv pub = Some (bound_fuzz_client priv pub)"
    by (simp_all add: fuzz_client_def aead_client_with_def context_client_def expect_def fuzz_schemas
        fuzz_config_builds modes SecureClient_new_def AuthenticationMode_context_bound_def
        HeaderProtocolAdapter_new_def legacy_fuzz_client_def bound_fuzz_client_def)
      (simp_all add: fuzz_config_def)
qed

text \<open>The harness talks to itself: its key pair and its signer identifiers match.\<close>

lemma fuzz_self_peers:
  "peers P (fuzz_config mode payload v) (fuzz_keys priv (sm2_public_key P priv))
     (fuzz_config mode payload v) (fuzz_keys priv (sm2_public_key P priv))"
  by (simp add: peers_def fuzz_config_def fuzz_keys_def KeyMaterial_shared_def)

end
