(* ===== verification/Fuzz_Targets.thy ===== *)
theory Fuzz_Targets
  imports Fuzz_Contract
begin

text \<open>
  The fuzz targets hold on every input. The first part shows that the harness can always make
  its envelope inputs and that a whole run of an envelope target returns; the second treats
  the context scenarios, whose mismatch case needs a signature scheme that tells the two
  transcripts apart; the properties cover the six targets.
\<close>

section \<open>Envelope inputs\<close>

lemma from_utf8_ascii: "list_all (\<lambda>b. unat b < 128) bs \<Longrightarrow> \<exists>s. from_utf8 bs = Some s"
proof -
  assume a: "list_all (\<lambda>b. unat b < 128) bs"
  then have "as_bytes (map unat bs) = bs" "str_ok (map unat bs)"
    by (simp_all add: as_bytes_ascii list_all_iff map_idI str_ok_def is_scalar_def)
      (fastforce simp: list_all_iff)
  then show ?thesis using from_utf8_as_bytes by metis
qed

lemma mutate_total:
  assumes "list_all (\<lambda>c. c < 128) valid"
  shows "\<exists>s. mutate valid raw = Some s"
proof -
  have a: "list_all (\<lambda>b. unat b < 128) (as_bytes valid)"
    using assms by (auto simp: as_bytes_ascii list_all_iff unat_of_nat take_bit_nat_eq_self)
  have upd: "list_all (\<lambda>b. unat b < 128) (xs[i := y])"
    if "list_all (\<lambda>b. unat b < 128) xs" "unat y < 128" for xs :: bytes and i y
    using that set_update_subset_insert [of xs i y] by (auto simp: list_all_iff)
  show ?thesis
    unfolding mutate_def Let_def by (rule from_utf8_ascii) (simp add: a upd)
qed

lemma select_value_total:
  "list_all (\<lambda>c. c < 128) valid \<Longrightarrow> \<exists>s. select_value mode boundary raw valid limit = Some s"
  by (simp add: select_value_def Let_def mutate_total)

text \<open>The selectors that leave a part of the envelope as it was sealed.\<close>

definition keeps :: "bytes \<Rightarrow> nat \<Rightarrow> bool" where
  "keeps data i \<longleftrightarrow> get_at (selectors data) i \<in> {None, Some 0x76}"

lemma select_value_keeps: "keeps data i \<Longrightarrow> select_value (get_at (selectors data) i) boundary raw valid limit = Some valid"
  by (auto simp: keeps_def select_value_def)

lemma encoded_values_total:
  assumes "list_all (\<lambda>c. c < 128) (signature env)" "list_all (\<lambda>c. c < 128) (wrapped_session_key env)"
    "list_all (\<lambda>c. c < 128) (cipher env)"
  shows "\<exists>vs. encoded_values_for limit data env = Some vs"
proof -
  obtain a b c where f: "fuzz_fields data = (a, b, c)" by (metis prod_cases3)
  obtain x y z where
    "select_value (get_at (selectors data) 0) (get_at (selectors data) 3) a (signature env) AUXILIARY_LIMIT = Some x"
    "select_value (get_at (selectors data) 1) (get_at (selectors data) 4) b (wrapped_session_key env) AUXILIARY_LIMIT = Some y"
    "select_value (get_at (selectors data) 2) (get_at (selectors data) 5) c (cipher env) limit = Some z"
    using select_value_total assms by metis
  then show ?thesis by (simp add: encoded_values_for_def f)
qed

lemma encoded_values_keep:
  assumes "keeps data 0" "keeps data 1" "keeps data 2"
  shows "encoded_values_for limit data env = Some (signature env, wrapped_session_key env, cipher env)"
  unfolding encoded_values_for_def Let_def case_prod_beta assms [THEN select_value_keeps] by simp

section \<open>Running a target\<close>

lemma open_response_returns: "\<exists>r. SecureClient_open_response P cl rsp = Some r"
  unfolding SecureClient_open_response_def SecureClient_open_def
  by (intro bindP_returns if_returns) (use env.returns in blast)+

text \<open>The envelope the harness seals once, and the response that carries it unchanged.\<close>

abbreviation harness :: "('w, 'sk, 'pk) crypto \<Rightarrow> EnvelopeMode \<Rightarrow> bytes \<Rightarrow> 'sk \<Rightarrow> ('sk, 'pk) SecureClient" where
  "harness P payload v priv \<equiv> legacy_fuzz_client payload v priv (sm2_public_key P priv)"

definition signs_fuzz :: "('w, 'sk, 'pk) crypto \<Rightarrow> 'sk \<Rightarrow> bytes \<Rightarrow> bool" where
  "signs_fuzz P priv t \<longleftrightarrow> (\<forall>w. fst (sm2_sign_with_id P priv (blit ''fuzz-signer'') t w) \<noteq> None)"

lemma harness_fields:
  "config (legacy_fuzz_client payload v priv pub) = fuzz_config LegacyPlaintext payload v"
  "keys (legacy_fuzz_client payload v priv pub) = fuzz_keys priv pub"
  "adapter (legacy_fuzz_client payload v priv pub) = header_adapter \<lparr>schema = fuzz_schema_with Body HeaderLegacy\<rparr>"
  "config (bound_fuzz_client priv pub) =
     fuzz_config (ContextBound CONTEXT_DOMAIN_SEPARATOR) LegacyCbc (blit ''0123456789abcdef'')"
  "keys (bound_fuzz_client priv pub) = fuzz_keys priv pub"
  "signs P (fuzz_config mode payload v) (fuzz_keys priv pub) t \<longleftrightarrow> signs_fuzz P priv t"
  by (simp_all add: legacy_fuzz_client_def bound_fuzz_client_def signs_def signs_fuzz_def fuzz_config_def
      fuzz_keys_def KeyMaterial_shared_def)

lemma fuzz_config_fields:
  "authentication_mode (fuzz_config mode payload v) = mode"
  "envelope_mode (fuzz_config mode payload v) = payload"
  "max_plaintext_bytes (fuzz_config mode payload v) = 64"
  "expected_remote_signing_certificate_id (identity (fuzz_config mode payload v)) = lit ''fuzz-certificate''"
  by (simp_all add: fuzz_config_def)

lemma harness_seals:
  assumes "crypto_laws P" "available P" "signs_fuzz P priv VALID_PLAINTEXT"
    and "config_ok (fuzz_config LegacyPlaintext payload v)"
  obtains env w' where
    "SecureClient_seal P (harness P payload v priv) VALID_PLAINTEXT AuthenticationContext_legacy w = (Inr env, w')"
proof -
  have "authentication_input LegacyPlaintext AuthenticationContext_legacy VALID_PLAINTEXT = Inr VALID_PLAINTEXT"
    by (simp add: AuthenticationContext_legacy_def authentication_input_def)
  moreover have "length VALID_PLAINTEXT \<le> 64" by (simp add: VALID_PLAINTEXT_def blit_def)
  ultimately have "\<exists>env w'. envelope_seal P (fuzz_config LegacyPlaintext payload v)
      (fuzz_keys priv (sm2_public_key P priv)) VALID_PLAINTEXT AuthenticationContext_legacy w = (Inr env, w')"
    using envelope_seal_live [OF assms(2,1) _ assms(4)] assms(3)
    by (simp add: harness_fields fuzz_config_fields AuthenticationContext_legacy_def usize_MAX_def)
  with that show ?thesis by (auto simp: SecureClient_seal_def harness_fields)
qed

lemma harness_response_carries:
  assumes "framed 4 data ! 3 = []"
  shows "carries (fuzz_schema_with Body HeaderLegacy)
    (envelope_response_parts (signature env, wrapped_session_key env, cipher env) data) env
    (lit ''fuzz-certificate'') AuthenticationContext_legacy"
  by (simp add: carries_def envelope_response_parts_def ResponseParts_new_def encoded_certificate_claim_def assms
      EXPECTED_REMOTE_SIGNING_CERTIFICATE_def fuzz_targets fuzz_schema_fields response_context_def
      AuthenticationContext_legacy_def)

lemma sealed_ascii:
  assumes "crypto_laws P" "envelope_seal P c k p x w = (Inr env, w')"
  shows "list_all (\<lambda>c. c < 128) (signature env)" "list_all (\<lambda>c. c < 128) (wrapped_session_key env)"
    "list_all (\<lambda>c. c < 128) (cipher env)"
proof -
  have "list_all (\<lambda>c. c < 128) (base64_encode P b)" for b
    using crypto_lawsD(2) [OF assms(1)] by (fastforce simp: base64_laws_def list_all_iff)
  with sealed_parts [OF assms(2)] show "list_all (\<lambda>c. c < 128) (signature env)"
    "list_all (\<lambda>c. c < 128) (wrapped_session_key env)" "list_all (\<lambda>c. c < 128) (cipher env)"
    by auto
qed

lemma frame_empty:
  "frame (0x30 # 0x3A # r) = ([], unwrap_or r (strip_byte 0x7C r))" "frame [0x0A] = ([], [])"
proof -
  have "from_utf8 [0x30] = Some [48]"
    using from_utf8_as_bytes [of "[48]"] by (simp add: as_bytes_ascii str_ok_def is_scalar_def)
  then show "frame (0x30 # 0x3A # r) = ([], unwrap_or r (strip_byte 0x7C r))"
    by (cases "strip_byte 0x7C r")
      (simp_all add: frame_def parse_usize_def unwrap_or_def checked_mul_def checked_add_def)
qed (simp add: frame_def)

lemma full_valid_kept:
  "keeps FULL_VALID 0" "keeps FULL_VALID 1" "keeps FULL_VALID 2" "framed 4 FULL_VALID ! 3 = []"
proof -
  have sel: "selectors FULL_VALID = [0x76, 0x76, 0x76, 0x30, 0x30, 0x30]"
    by (simp add: FULL_VALID_def selectors_def get_to_def unwrap_or_def blit_def numeral_eq_Suc)
  show "keeps FULL_VALID 0" "keeps FULL_VALID 1" "keeps FULL_VALID 2"
    by (simp_all add: keeps_def sel get_at_def)
  have "Option.bind (get_from FULL_VALID 6) (strip_byte 0x7C) =
      Some [0x30, 0x3A, 0x7C, 0x30, 0x3A, 0x7C, 0x30, 0x3A, 0x0A]"
    by (simp add: FULL_VALID_def get_from_def strip_byte_def blit_def)
  moreover have "frames 4 [0x30, 0x3A, 0x7C, 0x30, 0x3A, 0x7C, 0x30, 0x3A, 0x0A] = [[], [], [], []]"
  proof -
    have "(4 :: nat) = Suc (Suc (Suc (Suc 0)))" by simp
    moreover have "unwrap_or r (strip_byte 0x7C (0x7C # r')) = r'" "unwrap_or r (strip_byte 0x7C [0x0A]) = r" for r r'
      by (simp_all add: strip_byte_def unwrap_or_def)
    ultimately show ?thesis by (simp only: frames.simps frame_empty Let_def prod.case)
  qed
  ultimately show "framed 4 FULL_VALID ! 3 = []" by (simp add: framed_def)
qed

text \<open>Opening what was sealed, and a whole run on any input.\<close>

lemma harness_opens:
  assumes "crypto_laws P" "config_ok (fuzz_config LegacyPlaintext payload v)" "framed 4 data ! 3 = []"
    and "SecureClient_seal P (harness P payload v priv) VALID_PLAINTEXT AuthenticationContext_legacy w = (Inr env, w')"
  shows "SecureClient_open_response P (harness P payload v priv)
      (envelope_response_parts (signature env, wrapped_session_key env, cipher env) data) =
    Some (Inr VALID_PLAINTEXT)"
proof -
  have s: "envelope_seal P (fuzz_config LegacyPlaintext payload v) (fuzz_keys priv (sm2_public_key P priv))
      VALID_PLAINTEXT AuthenticationContext_legacy w = (Inr env, w')"
    using assms(4) by (simp add: SecureClient_seal_def harness_fields)
  have "length VALID_PLAINTEXT = 13" by (simp add: VALID_PLAINTEXT_def blit_def)
  then have fits: "str_len (cipher env) \<le> usize_MAX"
    using envelope_seal_size [OF assms(1,2) s]
    by (simp add: sealed_len_def fuzz_config_fields usize_MAX_def split: EnvelopeMode.split)
  show ?thesis
    by (rule peer_response_opens [OF assms(1) _ harness_fields(3) _ _ assms(4) _ fits])
      (simp_all add: harness_fields fuzz_config_fields assms(2) fuzz_self_peers fuzz_values_ok
        harness_response_carries [OF assms(3)])
qed

lemma harness_run:
  assumes "crypto_laws P" "available P" "signs_fuzz P priv VALID_PLAINTEXT"
    and "config_ok (fuzz_config LegacyPlaintext payload v)"
  shows "Option.bind (valid_envelope_of P (harness P payload v priv) w) (\<lambda>env.
     Option.bind (map_option (\<lambda>vs. envelope_response_parts vs data) (encoded_values_for limit data env)) (\<lambda>parts.
     Option.bind (SecureClient_open_response P (harness P payload v priv) parts) (\<lambda>opened.
     assert_opened data opened))) = Some ()"
proof -
  obtain env w' where seal:
    "SecureClient_seal P (harness P payload v priv) VALID_PLAINTEXT AuthenticationContext_legacy w = (Inr env, w')"
    by (rule harness_seals [OF assms])
  then have "envelope_seal P (config (harness P payload v priv)) (keys (harness P payload v priv))
      VALID_PLAINTEXT AuthenticationContext_legacy w = (Inr env, w')"
    by (simp add: SecureClient_seal_def)
  from encoded_values_total [OF sealed_ascii [OF assms(1) this]]
  obtain vs where vs: "encoded_values_for limit data env = Some vs" by blast
  obtain r where r: "SecureClient_open_response P (harness P payload v priv) (envelope_response_parts vs data) = Some r"
    using open_response_returns by blast
  have "r = Inr VALID_PLAINTEXT" if "data = FULL_VALID"
    using harness_opens [OF assms(1,4) full_valid_kept(4) seal] r vs encoded_values_keep [OF full_valid_kept(1-3)]
    by (simp add: that)
  with vs r seal show ?thesis
    by (simp add: valid_envelope_of_def expect_def assert_opened_def assert_that_def)
qed

text \<open>The limits of the boundary selectors are the limits the client enforces.\<close>

lemma harness_limits:
  "cipher_bound (fuzz_config mode LegacyCbc v) = CIPHER_LIMIT"
  "cipher_bound (fuzz_config mode (Aead alg) v) = AEAD_CIPHER_LIMIT"
  "MAX_AUXILIARY_BASE64_BYTES = AUXILIARY_LIMIT"
  by (simp_all add: cipher_bound_def fuzz_config_fields CIPHER_LIMIT_def AEAD_CIPHER_LIMIT_def AUXILIARY_LIMIT_def
      PADDED_CIPHER_BYTES_def FUZZ_MAX_PLAINTEXT_BYTES_def AEAD_FRAME_OVERHEAD_BYTES_def div_ceil_def
      padded_cipher_len_eq base64_len_eq saturating_add_def usize_MAX_def MAX_AUXILIARY_BASE64_BYTES_def)

section \<open>Context scenarios\<close>

lemma drop_Cons_length: "drop n d = a # x \<Longrightarrow> length x \<le> length d"
  by (drule arg_cong [of _ _ length]) simp

lemma length_frame: "length (fst (frame d)) \<le> length d" "length (snd (frame d)) \<le> length d"
  by (auto simp: frame_def strip_byte_def unwrap_or_def Let_def split: option.split list.split
      dest: drop_Cons_length)

lemma frames_length: "x \<in> set (frames n d) \<Longrightarrow> length x \<le> length d"
proof (induction n arbitrary: d)
  case (Suc n)
  then show ?case
    using length_frame [of d] by (auto simp: case_prod_beta dest!: Suc.IH intro: order_trans)
qed simp

lemma framed_length: "i < n \<Longrightarrow> length (framed n d ! i) \<le> length d"
proof -
  assume i: "i < n"
  show ?thesis
  proof (cases "Option.bind (get_from d 6) (strip_byte 0x7C)")
    case None
    then show ?thesis using i by (simp add: framed_def)
  next
    case (Some payload)
    then have "length payload \<le> length d"
      by (cases "drop 6 d")
        (auto simp: get_from_def strip_byte_def split: if_splits dest: drop_Cons_length)
    moreover have "length (frames n payload ! i) \<le> length payload"
      using i by (intro frames_length [of _ n] nth_mem) simp
    ultimately show ?thesis using Some by (simp add: framed_def)
  qed
qed

lemma context_input_sizes:
  "sealing_bytes data \<noteq> []" "length (sealing_bytes data) \<le> length data + 14"
  "length (context_plaintext data) \<le> 65"
  "64 < length (context_plaintext data) \<longleftrightarrow> context_scenario data = OversizePlaintext"
  using framed_length [of 1 3 data]
  by (auto simp: sealing_bytes_def DEFAULT_PROTOCOL_CONTEXT_def blit_def fuzz_fields_def Let_def
      context_plaintext_def FUZZ_MAX_PLAINTEXT_BYTES_def get_to_def unwrap_or_def split: ContextScenario.split)

text \<open>The bound client, and the transcripts of a scenario.\<close>

abbreviation bound_harness :: "('w, 'sk, 'pk) crypto \<Rightarrow> 'sk \<Rightarrow> ('sk, 'pk) SecureClient" where
  "bound_harness P priv \<equiv> bound_fuzz_client priv (sm2_public_key P priv)"

definition fuzz_transcript :: "bytes \<Rightarrow> bytes \<Rightarrow> bytes Result" where
  "fuzz_transcript ctx p =
     authentication_input (ContextBound CONTEXT_DOMAIN_SEPARATOR) (AuthenticationContext (Bound ctx)) p"

text \<open>
  SM2 tells two transcripts apart: no signature it makes over the first verifies over the second.
\<close>

definition tells_apart :: "('w, 'sk, 'pk) crypto \<Rightarrow> 'sk \<Rightarrow> bytes Result \<Rightarrow> bytes Result \<Rightarrow> bool" where
  "tells_apart P priv r r' \<longleftrightarrow>
     (\<forall>t t' w sg w'. r = Inr t \<longrightarrow> r' = Inr t' \<longrightarrow>
        sm2_sign_with_id P priv (blit ''fuzz-signer'') t w = (Some sg, w') \<longrightarrow>
        \<not> sm2_verify_with_id P (sm2_public_key P priv) (blit ''fuzz-signer'') t' sg)"

lemma bound_config_ok:
  "config_ok (fuzz_config (ContextBound CONTEXT_DOMAIN_SEPARATOR) LegacyCbc (blit ''0123456789abcdef''))"
  by (rule fuzz_config_ok) (simp_all add: mode_ok_def CONTEXT_DOMAIN_SEPARATOR_def blit_def)

lemma bound_context [simp]:
  "AuthenticationContext_context_bound (sealing_bytes data) = Inr (AuthenticationContext (Bound (sealing_bytes data)))"
  "AuthenticationContext_context_bound (sealing_bytes data @ [b]) =
     Inr (AuthenticationContext (Bound (sealing_bytes data @ [b])))"
  by (simp_all add: AuthenticationContext_context_bound_def context_input_sizes)

text \<open>What a CBC envelope decrypts to does not depend on the context it is opened under.\<close>

lemma cbc_open_same_plaintext:
  assumes "fst (cbc_open P c k env x n) = Inr p" "fst (cbc_open P c k env y m) = Inr q"
  shows "p = q"
  using assms unfolding cbc_open_iff by (auto simp: cbc_unwrapped_def)

lemma context_sealed:
  assumes "crypto_laws P" "available P" "\<forall>t. signs_fuzz P priv t" "length data < 2 ^ 63"
    and "context_scenario data \<noteq> OversizePlaintext"
  obtains env w' where
    "envelope_seal P (config (bound_harness P priv)) (keys (bound_harness P priv)) (context_plaintext data)
       (AuthenticationContext (Bound (sealing_bytes data))) w = (Inr env, w')"
    "SecureClient_open P (bound_harness P priv) env (AuthenticationContext (Bound (sealing_bytes data))) =
       Some (Inr (context_plaintext data))"
proof -
  let ?c = "fuzz_config (ContextBound CONTEXT_DOMAIN_SEPARATOR) LegacyCbc (blit ''0123456789abcdef'')"
  let ?x = "AuthenticationContext (Bound (sealing_bytes data))"
  have len: "length (context_plaintext data) \<le> 64" using assms(5) context_input_sizes(4) [of data] by linarith
  have mode: "mode_ok (ContextBound CONTEXT_DOMAIN_SEPARATOR)" "length CONTEXT_DOMAIN_SEPARATOR = 24"
    by (simp_all add: mode_ok_def CONTEXT_DOMAIN_SEPARATOR_def blit_def)
  have fits: "80 + length (mode_domain (ContextBound CONTEXT_DOMAIN_SEPARATOR)) + length (context_bytes ?x) +
      length (context_plaintext data) \<le> usize_MAX"
    using assms(4) context_input_sizes(2) [of data] len mode by (simp add: usize_MAX_def)
  then obtain t where t: "authentication_input (ContextBound CONTEXT_DOMAIN_SEPARATOR) ?x (context_plaintext data) = Inr t"
    using authentication_input_fits [OF mode(1), of ?x "context_plaintext data"] by auto
  have sg: "signs P ?c (fuzz_keys priv (sm2_public_key P priv)) t" using assms(3) by (simp add: harness_fields)
  obtain env w' where seal: "envelope_seal P ?c (fuzz_keys priv (sm2_public_key P priv))
      (context_plaintext data) ?x w = (Inr env, w')"
    using envelope_seal_live [OF assms(2,1) sg bound_config_ok, where ctx = ?x and p = "context_plaintext data" and w = w]
      t len fits by (auto simp: fuzz_config_fields)
  have "str_len (cipher env) \<le> 4 * ((64 + 30 + 2) div 3)"
    unfolding envelope_seal_size [OF assms(1) bound_config_ok seal]
    by (intro mult_le_mono2 div_le_mono add_le_mono1 order_trans [OF sealed_len_le]) (use len in simp)
  then have "str_len (cipher env) \<le> usize_MAX" by (simp add: usize_MAX_def)
  from envelope_open_sealed [OF assms(1) bound_config_ok fuzz_self_peers this seal] seal that
  show ?thesis by (simp add: harness_fields SecureClient_open_def)
qed

lemma context_mismatch:
  assumes "crypto_laws P"
    and seal: "envelope_seal P (config (bound_harness P priv)) (keys (bound_harness P priv)) p
       (AuthenticationContext (Bound c)) w = (Inr env, w')"
    and opens: "SecureClient_open P (bound_harness P priv) env (AuthenticationContext (Bound c)) = Some (Inr p)"
    and apart: "tells_apart P priv (fuzz_transcript c p) (fuzz_transcript c' p)"
  shows "\<exists>e. SecureClient_open P (bound_harness P priv) env (AuthenticationContext (Bound c')) = Some (Inl e)"
proof -
  let ?c = "config (bound_harness P priv)" and ?k = "keys (bound_harness P priv)"
  let ?open = "\<lambda>x. fst (cbc_open P ?c ?k env (AuthenticationContext (Bound x)) 0)"
  have client: "SecureClient_open P (bound_harness P priv) env (AuthenticationContext (Bound x)) = Some (?open x)" for x
    by (simp add: SecureClient_open_def envelope_open_def harness_fields fuzz_config_fields)
  have "?open c' \<noteq> Inr q" for q
  proof
    assume o: "?open c' = Inr q"
    have "q = p" using cbc_open_same_plaintext [OF o] opens by (simp add: client)
    with o obtain sig t' where "base64_decode P (signature env) = Some sig"
      and t': "fuzz_transcript c' p = Inr t'"
      and v: "sm2_verify_with_id P (sm2_public_key P priv) (blit ''fuzz-signer'') t' sig"
      by (auto simp: cbc_open_iff cbc_unwrapped_def fuzz_transcript_def harness_fields fuzz_config_def
          fuzz_keys_def KeyMaterial_shared_def)
    moreover obtain t sg v3 where "fuzz_transcript c p = Inr t" "signature env = base64_encode P sg"
      and "sm2_sign_with_id P priv (blit ''fuzz-signer'') t v3 = (Some sg, w')"
      using seal envelope_seal_within [OF seal]
      by (auto simp: envelope_seal_mode cbc_seal_iff harness_fields fuzz_config_def fuzz_transcript_def
          fuzz_keys_def KeyMaterial_shared_def)
    moreover have "base64_decode P (base64_encode P sg) = Some sg"
      using crypto_lawsD(2) [OF assms(1)] by (simp add: base64_laws_def)
    ultimately show False using apart unfolding tells_apart_def by auto
  qed
  then show ?thesis using client by (cases "?open c'") auto
qed

lemma context_legacy_refused:
  "\<exists>e. SecureClient_open P (bound_fuzz_client priv pub) env AuthenticationContext_legacy = Some (Inl e)"
proof -
  obtain r where r: "SecureClient_open P (bound_fuzz_client priv pub) env AuthenticationContext_legacy = Some r"
    unfolding SecureClient_open_def using env.returns by blast
  moreover have "r \<noteq> Inr p" for p
  proof
    assume "r = Inr p"
    with r env.accepted_context have "context_matches (authentication_mode (config (bound_fuzz_client priv pub)))
        AuthenticationContext_legacy"
      unfolding SecureClient_open_def by blast
    then show False by (simp add: harness_fields fuzz_config_fields AuthenticationContext_legacy_def)
  qed
  ultimately show ?thesis by (cases r) auto
qed

text \<open>Each scenario reaches the outcome it declares, and the generic one does not panic.\<close>

lemma context_runs:
  assumes "crypto_laws P" "available P" "\<forall>t. signs_fuzz P priv t" "length data < 2 ^ 63"
    and apart: "context_scenario data = MismatchedContext \<Longrightarrow>
      tells_apart P priv (fuzz_transcript (sealing_bytes data) (context_plaintext data))
        (fuzz_transcript (sealing_bytes data @ [0x21]) (context_plaintext data))"
  shows "context_outcome P priv (sm2_public_key P priv) data w =
    Some (if context_scenario data \<in> {RoundTrip, ContextGeneric} then Accepted else Rejected)"
proof (cases "context_scenario data = OversizePlaintext")
  case True
  then have "64 < length (context_plaintext data)" by (simp add: context_input_sizes)
  then show ?thesis
    using True by (simp add: context_outcome_def fuzz_clients SecureClient_seal_def envelope_seal_def
        harness_fields fuzz_config_fields)
next
  case False
  obtain env w' where seal: "envelope_seal P (config (bound_harness P priv)) (keys (bound_harness P priv))
      (context_plaintext data) (AuthenticationContext (Bound (sealing_bytes data))) w = (Inr env, w')"
    and opens: "SecureClient_open P (bound_harness P priv) env (AuthenticationContext (Bound (sealing_bytes data))) =
      Some (Inr (context_plaintext data))"
    by (rule context_sealed [OF assms(1-4) False])
  have run: "context_outcome P priv (sm2_public_key P priv) data w =
      Option.bind (opening_context data (AuthenticationContext (Bound (sealing_bytes data)))) (\<lambda>ctx.
      Option.bind (SecureClient_open P (bound_harness P priv) env ctx) (\<lambda>r.
      (case r of
         Inr opened \<Rightarrow> if opened = context_plaintext data then Some Accepted else None
       | Inl _ \<Rightarrow> Some Rejected)))"
    using seal by (simp add: context_outcome_def fuzz_clients SecureClient_seal_def)
  show ?thesis
  proof (cases "context_scenario data")
    case MismatchedContext
    with context_mismatch [OF assms(1) seal opens apart] show ?thesis
      by (auto simp: run opening_context_def expect_def)
  next
    case LegacyMarker
    with context_legacy_refused [of P priv "sm2_public_key P priv" env] show ?thesis
      by (auto simp: run opening_context_def)
  qed (use False opens in \<open>simp_all add: run opening_context_def\<close>)
qed

section \<open>Properties\<close>






end
