(* ===== verification/Test_Support.thy ===== *)
theory Test_Support
  imports Network
begin

text \<open>
  \<^verbatim>\<open>test_support\<close> of \<^verbatim>\<open>src/envelope_crypto/mod.rs\<close> and what the unit tests of the envelope modules
  share. A test is an effect on the world and on the tally of signature verifications, and
  a failed assertion or a panic is its error. The key encoders that only tests call are
  parameters. The behaviour of \<^verbatim>\<open>gmcrypto_core\<close> and \<^verbatim>\<open>base64\<close> the tests rely on is named here, and
  the lemmas derive from it what the two peers accept and refuse.
\<close>

unbundle bit_operations_syntax

section \<open>Tests as effects\<close>

type_synonym ('w, 'a) test = "('w \<times> u32, 'a, unit) effect"

definition unwrapT :: "'a option \<Rightarrow> ('w, 'a) test" where
  "unwrapT x = liftW (ok_or () x)"

definition assertT :: "bool \<Rightarrow> ('w, unit) test" where
  "assertT b = unwrapT (assert_that b)"

definition expectT :: "'e + 'a \<Rightarrow> ('w, 'a) test" where
  "expectT r = unwrapT (expect r)"

text \<open>Calls of the code under test: sealing changes the world, opening only the tally.\<close>

definition sealT ::
  "('w, 'sk, 'pk) crypto \<Rightarrow> ClientConfig \<Rightarrow> ('sk, 'pk) KeyMaterial \<Rightarrow> bytes \<Rightarrow> AuthenticationContext \<Rightarrow>
    ('w, SecureEnvelope Result) test" where
  "sealT P c k p x = (\<lambda>(w, calls). case envelope_seal P c k p x w of (r, w') \<Rightarrow> (Inr r, (w', calls)))"

definition openT ::
  "('w, 'sk, 'pk) crypto \<Rightarrow> ClientConfig \<Rightarrow> ('sk, 'pk) KeyMaterial \<Rightarrow> SecureEnvelope \<Rightarrow> AuthenticationContext \<Rightarrow>
    ('w, bytes Result) test" where
  "openT P c k env x = (\<lambda>(w, calls).
     case envelope_mode c of
       Aead algorithm \<Rightarrow> (ok_or () (aead_open P c k env x algorithm), (w, calls))
     | LegacyCbc \<Rightarrow> (case cbc_open P c k env x calls of (r, calls') \<Rightarrow> (Inr r, (w, calls'))))"

definition take_verify_callsT :: "('w, u32) test" where
  "take_verify_callsT = (\<lambda>(w, calls). case take_verify_calls calls of (n, calls') \<Rightarrow> (Inr n, (w, calls')))"

text \<open>\<^verbatim>\<open>.expect(..)\<close> and \<^verbatim>\<open>.expect_err(..)\<close> on a call.\<close>

definition sealed ::
  "('w, 'sk, 'pk) crypto \<Rightarrow> ClientConfig \<Rightarrow> ('sk, 'pk) KeyMaterial \<Rightarrow> bytes \<Rightarrow> AuthenticationContext \<Rightarrow>
    ('w, SecureEnvelope) test" where
  "sealed P c k p x = bindW (sealT P c k p x) expectT"

definition opened ::
  "('w, 'sk, 'pk) crypto \<Rightarrow> ClientConfig \<Rightarrow> ('sk, 'pk) KeyMaterial \<Rightarrow> SecureEnvelope \<Rightarrow> AuthenticationContext \<Rightarrow>
    ('w, bytes) test" where
  "opened P c k env x = bindW (openT P c k env x) expectT"

definition expect_errT :: "'e + 'a \<Rightarrow> ('w, 'e) test" where
  "expect_errT r = unwrapT (case r of Inl e \<Rightarrow> Some e | Inr _ \<Rightarrow> None)"

definition assert_invalid_envelope :: "bytes Result \<Rightarrow> ('w, unit) test" where
  "assert_invalid_envelope r = assertT (r = Inl InvalidEnvelope)"

section \<open>Peers\<close>

text \<open>The encoders of \<^verbatim>\<open>gmcrypto_core\<close> that only tests call.\<close>

record ('sk, 'pk) raw_keys =
  from_bytes_be :: "bytes \<Rightarrow> 'sk option"
  spki_encode :: "'pk \<Rightarrow> bytes"

definition IV :: bytes where
  "IV = blit ''0123456789abcdef''"

definition SENDER_SIGNER_ID :: bytes where
  "SENDER_SIGNER_ID = blit ''sender-directional-id''"

definition RECEIVER_SIGNER_ID :: bytes where
  "RECEIVER_SIGNER_ID = blit ''receiver-directional-id''"

definition SENDER_SIGNING :: byte where
  "SENDER_SIGNING = 1"

definition SENDER_DECRYPTION :: byte where
  "SENDER_DECRYPTION = 2"

definition RECEIVER_SIGNING :: byte where
  "RECEIVER_SIGNING = 3"

definition RECEIVER_DECRYPTION :: byte where
  "RECEIVER_DECRYPTION = 4"

definition UNRELATED_KEY :: byte where
  "UNRELATED_KEY = 5"

record ('sk, 'pk) Peers =
  sender_config :: ClientConfig
  sender_keys :: "('sk, 'pk) KeyMaterial"
  receiver_config :: ClientConfig
  receiver_keys :: "('sk, 'pk) KeyMaterial"

definition raw_private_key :: "('sk, 'pk) raw_keys \<Rightarrow> byte \<Rightarrow> 'sk option" where
  "raw_private_key K scalar = from_bytes_be K ((replicate 32 0)[31 := scalar])"

definition private_key :: "('sk, 'pk) raw_keys \<Rightarrow> byte \<Rightarrow> 'sk PrivateKey option" where
  "private_key K scalar = map_option PrivateKey (raw_private_key K scalar)"

definition public_key ::
  "('w, 'sk, 'pk) crypto \<Rightarrow> ('sk, 'pk, 'cert) key_lib \<Rightarrow> ('sk, 'pk) raw_keys \<Rightarrow> byte \<Rightarrow> 'pk PublicKey option" where
  "public_key P L K scalar =
     Option.bind (raw_private_key K scalar) (\<lambda>k.
     let der = spki_encode K (sm2_public_key P k) in expect (PublicKey_from_der L der))"

definition key_material ::
  "('w, 'sk, 'pk) crypto \<Rightarrow> ('sk, 'pk, 'cert) key_lib \<Rightarrow> ('sk, 'pk) raw_keys \<Rightarrow> byte \<Rightarrow> byte \<Rightarrow> byte \<Rightarrow> byte \<Rightarrow>
    ('sk, 'pk) KeyMaterial option" where
  "key_material P L K signing decryption verification encryption =
     Option.bind (private_key K signing) (\<lambda>ls.
     Option.bind (private_key K decryption) (\<lambda>ld.
     Option.bind (public_key P L K verification) (\<lambda>rv.
     Option.bind (public_key P L K encryption) (\<lambda>re.
     Option.bind (KeyMaterial_new L ls ld rv re) expect))))"

definition test_config ::
  "bool \<Rightarrow> string \<Rightarrow> bytes \<Rightarrow> bytes \<Rightarrow> AuthenticationMode \<Rightarrow> usize \<Rightarrow> ClientConfig option" where
  "test_config aead name signer remote_signer mode limit =
     (let builder = ClientConfigBuilder_max_plaintext_bytes limit (ClientConfigBuilder_iv IV
        (ClientConfigBuilder_authentication_mode mode
        (ClientConfigBuilder_expected_remote_signer_id remote_signer
        (ClientConfigBuilder_local_signer_id signer
        (ClientConfigBuilder_remote_encryption_certificate_id (lit name @ lit ''-remote-encryption-certificate'')
        (ClientConfigBuilder_expected_remote_signing_certificate_id (lit name @ lit ''-remote-signing-certificate'')
        (ClientConfigBuilder_local_certificate_id (lit name @ lit ''-signing-certificate'')
        (ClientConfigBuilder_api_version (lit ''test-v1'')
        (ClientConfigBuilder_local_identity_id (lit name @ lit ''-identity'') ClientConfig_builder)))))))));
          builder = (if aead then ClientConfigBuilder_envelope_mode LegacyCbc builder else builder)
      in expect (ClientConfigBuilder_build aead builder))"

definition test_peers ::
  "bool \<Rightarrow> ('w, 'sk, 'pk) crypto \<Rightarrow> ('sk, 'pk, 'cert) key_lib \<Rightarrow> ('sk, 'pk) raw_keys \<Rightarrow> AuthenticationMode \<Rightarrow> usize \<Rightarrow>
    ('sk, 'pk) Peers option" where
  "test_peers aead P L K mode limit =
     Option.bind (test_config aead ''sender'' SENDER_SIGNER_ID RECEIVER_SIGNER_ID mode limit) (\<lambda>sc.
     Option.bind (key_material P L K SENDER_SIGNING SENDER_DECRYPTION RECEIVER_SIGNING RECEIVER_DECRYPTION) (\<lambda>sk.
     Option.bind (test_config aead ''receiver'' RECEIVER_SIGNER_ID SENDER_SIGNER_ID mode limit) (\<lambda>rc.
     Option.bind (key_material P L K RECEIVER_SIGNING RECEIVER_DECRYPTION SENDER_SIGNING SENDER_DECRYPTION) (\<lambda>rk.
     Some \<lparr>sender_config = sc, sender_keys = sk, receiver_config = rc, receiver_keys = rk\<rparr>))))"

definition legacy_context :: AuthenticationContext where
  "legacy_context = AuthenticationContext_legacy"

definition wrapped_plaintext_for_receiver ::
  "('w, 'sk, 'pk) crypto \<Rightarrow> ('sk, 'pk) raw_keys \<Rightarrow> bytes \<Rightarrow> ('w, str) test" where
  "wrapped_plaintext_for_receiver P K bs =
     bindW (unwrapT (raw_private_key K RECEIVER_DECRYPTION)) (\<lambda>k.
     bindW (\<lambda>(w, calls). case sm2_encrypt P (sm2_public_key P k) bs w of
       (None, w') \<Rightarrow> (Inl (), (w', calls)) | (Some c, w') \<Rightarrow> (Inr c, (w', calls))) (\<lambda>c.
     liftW (Inr (base64_encode P c))))"

definition aead_config ::
  "string \<Rightarrow> bytes \<Rightarrow> bytes \<Rightarrow> AuthenticationMode \<Rightarrow> usize \<Rightarrow> AeadAlgorithm \<Rightarrow> ClientConfig option" where
  "aead_config name signer remote_signer mode limit algorithm =
     expect (ClientConfigBuilder_build True
       (ClientConfigBuilder_max_plaintext_bytes limit
        (ClientConfigBuilder_envelope_mode (Aead algorithm)
        (ClientConfigBuilder_authentication_mode mode
        (ClientConfigBuilder_expected_remote_signer_id remote_signer
        (ClientConfigBuilder_local_signer_id signer
        (ClientConfigBuilder_remote_encryption_certificate_id (lit name @ lit ''-remote-encryption-certificate'')
        (ClientConfigBuilder_expected_remote_signing_certificate_id (lit name @ lit ''-remote-signing-certificate'')
        (ClientConfigBuilder_local_certificate_id (lit name @ lit ''-signing-certificate'')
        (ClientConfigBuilder_api_version (lit ''test-v1'')
        (ClientConfigBuilder_local_identity_id (lit name @ lit ''-identity'') ClientConfig_builder)))))))))))"

definition aead_peers_with ::
  "('w, 'sk, 'pk) crypto \<Rightarrow> ('sk, 'pk, 'cert) key_lib \<Rightarrow> ('sk, 'pk) raw_keys \<Rightarrow> AuthenticationMode \<Rightarrow> usize \<Rightarrow>
    AeadAlgorithm \<Rightarrow> ('sk, 'pk) Peers option" where
  "aead_peers_with P L K mode limit algorithm =
     Option.bind (aead_config ''sender'' SENDER_SIGNER_ID RECEIVER_SIGNER_ID mode limit algorithm) (\<lambda>sc.
     Option.bind (key_material P L K SENDER_SIGNING SENDER_DECRYPTION RECEIVER_SIGNING RECEIVER_DECRYPTION) (\<lambda>sk.
     Option.bind (aead_config ''receiver'' RECEIVER_SIGNER_ID SENDER_SIGNER_ID mode limit algorithm) (\<lambda>rc.
     Option.bind (key_material P L K RECEIVER_SIGNING RECEIVER_DECRYPTION SENDER_SIGNING SENDER_DECRYPTION) (\<lambda>rk.
     Some \<lparr>sender_config = sc, sender_keys = sk, receiver_config = rc, receiver_keys = rk\<rparr>))))"

definition aead_peers ::
  "('w, 'sk, 'pk) crypto \<Rightarrow> ('sk, 'pk, 'cert) key_lib \<Rightarrow> ('sk, 'pk) raw_keys \<Rightarrow> AuthenticationMode \<Rightarrow> usize \<Rightarrow>
    ('sk, 'pk) Peers option" where
  "aead_peers P L K mode limit = aead_peers_with P L K mode limit Sm4Gcm"

definition ccm_peers ::
  "('w, 'sk, 'pk) crypto \<Rightarrow> ('sk, 'pk, 'cert) key_lib \<Rightarrow> ('sk, 'pk) raw_keys \<Rightarrow> AuthenticationMode \<Rightarrow> usize \<Rightarrow>
    ('sk, 'pk) Peers option" where
  "ccm_peers P L K mode limit = aead_peers_with P L K mode limit Sm4Ccm"

section \<open>Tests that pass\<close>

text \<open>
  A test passes from a state when it ends without a failed assertion in a state that
  satisfies the postcondition. The equations pull a postcondition back through a test.
\<close>

definition passes :: "('w, 'a) test \<Rightarrow> 'w \<times> u32 \<Rightarrow> ('a \<Rightarrow> 'w \<times> u32 \<Rightarrow> bool) \<Rightarrow> bool" where
  "passes m s Q \<longleftrightarrow> (\<exists>a s'. m s = (Inr a, s') \<and> Q a s')"

named_theorems passes_simps \<open>equations that pull a postcondition back through a test\<close>

lemma passes_bindW [passes_simps]: "passes (bindW m f) s Q \<longleftrightarrow> passes m s (\<lambda>a s'. passes (f a) s' Q)"
  by (auto simp: passes_def bindW_eq_Inr)

lemma passes_primitives [passes_simps]:
  "passes (liftW (Inr a)) s Q \<longleftrightarrow> Q a s"
  "passes (unwrapT x) s R \<longleftrightarrow> (\<exists>b. x = Some b \<and> R b s)"
  "passes (assertT c) s U \<longleftrightarrow> c \<and> U () s"
  "passes (expectT r) s R' \<longleftrightarrow> (\<exists>b. r = Inr b \<and> R' b s)"
  "passes (expect_errT r) s E \<longleftrightarrow> (\<exists>e. r = Inl e \<and> E e s)"
  "passes (assert_invalid_envelope v) s U \<longleftrightarrow> v = Inl InvalidEnvelope \<and> U () s"
  by (auto simp: passes_def unwrapT_def assertT_def expectT_def expect_errT_def assert_invalid_envelope_def
      split: sum.splits)

lemma passes_for_eachW [passes_simps]:
  "passes (for_eachW f []) s Q \<longleftrightarrow> Q () s"
  "passes (for_eachW f (x # xs)) s Q \<longleftrightarrow> passes (f x) s (\<lambda>_ s'. passes (for_eachW f xs) s' Q)"
  by (simp_all add: passes_simps)

lemma passes_loop:
  assumes "\<And>x s. x \<in> set xs \<Longrightarrow> passes (f x) s (\<lambda>_ _. True)"
  shows "passes (for_eachW f xs) s (\<lambda>_ _. True)"
  using assms
proof (induction xs arbitrary: s)
  case (Cons x xs)
  then have "passes (f x) s (\<lambda>_ _. True)" by simp
  then show ?case using Cons by (fastforce simp: passes_simps passes_def [of "f x"])
qed (simp add: passes_simps)

lemma passes_fst: "passes m s (\<lambda>_ _. True) \<longleftrightarrow> (\<exists>a. fst (m s) = Inr a)"
  by (auto simp: passes_def fst_def split: prod.split)

text \<open>Opening changes the tally only, and its result does not depend on the tally.\<close>

definition tally ::
  "('w, 'sk, 'pk) crypto \<Rightarrow> ClientConfig \<Rightarrow> ('sk, 'pk) KeyMaterial \<Rightarrow> SecureEnvelope \<Rightarrow> u32 \<Rightarrow> u32" where
  "tally P c k env calls =
     (if envelope_mode c = LegacyCbc \<and> cbc_reaches_verify P c k env then record_verify_call calls else calls)"

lemma cbc_open_tally:
  "cbc_open P c k env x calls =
     (fst (cbc_open P c k env x 0),
      if cbc_reaches_verify P c k env then record_verify_call calls else calls)"
proof (cases "cbc_reaches_verify P c k env")
  case True
  then obtain ciph sig key where "cbc_unwrapped P c k env ciph sig key" by (auto simp: reaches_verify_iff)
  with True show ?thesis by (simp add: cbc_open_reached)
qed (simp add: cbc_open_not_reached)

lemma openT_run:
  assumes "envelope_open P c k env x = Some r"
  shows "openT P c k env x (w, calls) = (Inr r, (w, tally P c k env calls))"
proof (cases "envelope_mode c")
  case LegacyCbc
  with assms show ?thesis
    by (simp add: openT_def envelope_open_def tally_def cbc_open_tally [of P c k env x calls])
qed (use assms in \<open>simp add: openT_def envelope_open_def tally_def\<close>)

lemma passes_open:
  assumes "envelope_open P c k env x = Some r"
  shows "passes (openT P c k env x) (w, calls) Q \<longleftrightarrow> Q r (w, tally P c k env calls)"
  by (simp add: passes_def openT_run [OF assms])

lemma passes_opened:
  assumes "envelope_open P c k env x = Some (Inr p)"
  shows "passes (opened P c k env x) (w, calls) Q \<longleftrightarrow> Q p (w, tally P c k env calls)"
  by (simp add: opened_def passes_simps passes_open [OF assms])

lemma passes_take [passes_simps]: "passes take_verify_callsT (w, calls) Q \<longleftrightarrow> Q calls (w, 0)"
  by (simp add: passes_def take_verify_callsT_def take_verify_calls_def)

lemma passes_seal:
  "envelope_seal P c k p x w = (r, w') \<Longrightarrow> passes (sealT P c k p x) (w, calls) Q \<longleftrightarrow> Q r (w', calls)"
  by (simp add: passes_def sealT_def)

section \<open>What the tests rely on\<close>

text \<open>
  The key encoders: a scalar between one and five is a private key, encodings are faithful,
  and a public key survives its SPKI container.
\<close>

definition keys_ok ::
  "('w, 'sk, 'pk) crypto \<Rightarrow> ('sk, 'pk, 'cert) key_lib \<Rightarrow> ('sk, 'pk) raw_keys \<Rightarrow> bool" where
  "keys_ok P L K \<longleftrightarrow>
     (\<forall>s \<in> {1, 2, 3, 4, 5}. raw_private_key K s \<noteq> None) \<and>
     (\<forall>b k. from_bytes_be K b = Some k \<longrightarrow> to_bytes_be L k = b) \<and>
     (\<forall>k. spki_decode L (spki_encode K (sm2_public_key P k)) = Some (sm2_public_key P k)) \<and>
     inj (sm2_public_key P) \<and> loaders_reject_identity L \<and> key_encodings_faithful L"

text \<open>
  SM2: ciphertexts and signatures are ASN.1 sequences, a signature is a sequence of integers,
  only the matching private key decrypts, and nothing fails while the generator works.
\<close>

definition sm2_strict :: "('w, 'sk, 'pk) crypto \<Rightarrow> bool" where
  "sm2_strict P \<longleftrightarrow>
     (\<forall>sk c. sm2_decrypt P sk c \<noteq> None \<longrightarrow> (\<exists>r. c = 0x30 # r)) \<and>
     (\<forall>pk i t s. sm2_verify_with_id P pk i t s \<longrightarrow> (\<exists>l r. s = 0x30 # l # 0x02 # r)) \<and>
     (\<forall>sk sk' m w c w'. sm2_encrypt P (sm2_public_key P sk) m w = (Some c, w') \<longrightarrow>
        sm2_decrypt P sk' c \<noteq> None \<longrightarrow> sk' = sk) \<and>
     (\<forall>sk i t w. fst (sm2_sign_with_id P sk i t w) \<noteq> None)"

text \<open>
  A signature that binds its transcript: it verifies for no other transcript and no other
  key, and not after its last bit is flipped.
\<close>

definition flip_last :: "bytes \<Rightarrow> bytes" where
  "flip_last s = s[length s - 1 := (s ! (length s - 1)) XOR 1]"

definition binds :: "('w, 'sk, 'pk) crypto \<Rightarrow> bytes \<Rightarrow> bool" where
  "binds P t \<longleftrightarrow>
     (\<forall>sk i w s w'. sm2_sign_with_id P sk i t w = (Some s, w') \<longrightarrow>
        (\<forall>sk' i' t'. sm2_verify_with_id P (sm2_public_key P sk') i' t' s \<longrightarrow>
           sm2_public_key P sk' = sm2_public_key P sk \<and> t' = t) \<and>
        (\<forall>pk i' t'. \<not> sm2_verify_with_id P pk i' t' (flip_last s)))"

text \<open>
  The payload ciphers decrypt exactly what they encrypt: whatever they accept is the
  encryption of what they return, and an authenticated ciphertext has one nonce.
\<close>

definition ciphers_exact :: "('w, 'sk, 'pk) crypto \<Rightarrow> bool" where
  "ciphers_exact P \<longleftrightarrow>
     (\<forall>k v c p. length k = 16 \<longrightarrow> length v = 16 \<longrightarrow> cbc_decrypt P k v c = Some p \<longrightarrow> cbc_encrypt P k v p = c) \<and>
     (\<forall>k n a c t p. gcm_decrypt P k n a c t = Some p \<longrightarrow> gcm_encrypt P k n a p = Some (c, t)) \<and>
     (\<forall>k n a j l p. ccm_decrypt P k n a j l = Some p \<longrightarrow> ccm_encrypt P k n a p l = Some j) \<and>
     (\<forall>k n a n' a' p r. gcm_encrypt P k n a p = Some r \<longrightarrow> gcm_encrypt P k n' a' p = Some r \<longrightarrow> n' = n) \<and>
     (\<forall>k n a n' a' p l r. ccm_encrypt P k n a p l = Some r \<longrightarrow> ccm_encrypt P k n' a' p l = Some r \<longrightarrow> n' = n)"

lemma ciphers_exactD:
  assumes "ciphers_exact P"
  shows "length k = 16 \<Longrightarrow> length v = 16 \<Longrightarrow> cbc_decrypt P k v c = Some p \<Longrightarrow> cbc_encrypt P k v p = c"
    "gcm_decrypt P k n a c t = Some p \<Longrightarrow> gcm_encrypt P k n a p = Some (c, t)"
    "ccm_decrypt P k n a j l = Some p \<Longrightarrow> ccm_encrypt P k n a p l = Some j"
    "gcm_encrypt P k n a p = Some r \<Longrightarrow> gcm_encrypt P k n' a' p = Some r \<Longrightarrow> n' = n"
    "ccm_encrypt P k n a p l = Some j \<Longrightarrow> ccm_encrypt P k n' a' p l = Some j \<Longrightarrow> n' = n"
  using assms unfolding ciphers_exact_def by meson+

definition test_core ::
  "('w, 'sk, 'pk) crypto \<Rightarrow> ('sk, 'pk, 'cert) key_lib \<Rightarrow> ('sk, 'pk) raw_keys \<Rightarrow> bool" where
  "test_core P L K \<longleftrightarrow> crypto_laws P \<and> aead_sizes P \<and> available P \<and> keys_ok P L K \<and> sm2_strict P \<and>
     ciphers_exact P \<and> base64_encode P = b64_encode \<and> base64_decode P = b64_decode"

lemma test_coreD:
  assumes "test_core P L K"
  shows "crypto_laws P" "aead_sizes P" "available P" "keys_ok P L K" "sm2_strict P" "ciphers_exact P"
    "base64_encode P = b64_encode" "base64_decode P = b64_decode"
  using assms by (simp_all add: test_core_def)

section \<open>The peers\<close>

definition skey :: "('sk, 'pk) raw_keys \<Rightarrow> byte \<Rightarrow> 'sk" where
  "skey K s = the (raw_private_key K s)"

definition bench_keys ::
  "('w, 'sk, 'pk) crypto \<Rightarrow> ('sk, 'pk) raw_keys \<Rightarrow> byte \<Rightarrow> byte \<Rightarrow> byte \<Rightarrow> byte \<Rightarrow> ('sk, 'pk) KeyMaterial" where
  "bench_keys P K a b c d =
     \<lparr>local_signing = skey K a, local_decryption = skey K b,
      remote_verification = sm2_public_key P (skey K c), remote_encryption = sm2_public_key P (skey K d),
      remote_verification_source = Spki, remote_encryption_source = Spki, shared_roles = False\<rparr>"

lemma raw_key:
  assumes "keys_ok P L K" "s \<in> {1, 2, 3, 4, 5}"
  shows "raw_private_key K s = Some (skey K s)" "to_bytes_be L (skey K s) = (replicate 32 0)[31 := s]"
proof -
  from assms obtain k where "raw_private_key K s = Some k" unfolding keys_ok_def by blast
  then show r: "raw_private_key K s = Some (skey K s)" by (simp add: skey_def)
  with assms(1) show "to_bytes_be L (skey K s) = (replicate 32 0)[31 := s]"
    unfolding keys_ok_def raw_private_key_def by blast
qed

lemma skey_inject:
  assumes "keys_ok P L K" "s \<in> {1, 2, 3, 4, 5}" "s' \<in> {1, 2, 3, 4, 5}"
  shows "skey K s = skey K s' \<longleftrightarrow> s = s'"
proof
  assume "skey K s = skey K s'"
  then have "(replicate 32 0)[31 := s] ! 31 = (replicate 32 0)[31 := s'] ! 31"
    using raw_key(2) [OF assms(1,2)] raw_key(2) [OF assms(1,3)] by simp
  then show "s = s'" by simp
qed simp

lemma public_key_eq:
  assumes "keys_ok P L K" "s \<in> {1, 2, 3, 4, 5}"
  shows "public_key P L K s = Some \<lparr>inner = sm2_public_key P (skey K s), source = Spki\<rparr>"
proof -
  have "spki_decode L (spki_encode K (sm2_public_key P (skey K s))) = Some (sm2_public_key P (skey K s))"
    using assms(1) by (simp add: keys_ok_def)
  then show ?thesis
    by (simp add: public_key_def raw_key(1) [OF assms] Let_def PublicKey_from_der_def PublicKey_from_spki_der_def)
qed

lemma key_material_eq:
  assumes keys: "keys_ok P L K" and "{a, b, c, d} \<subseteq> {1, 2, 3, 4, 5}" "a \<noteq> b" "c \<noteq> d"
  shows "key_material P L K a b c d = Some (bench_keys P K a b c d)"
proof -
  have mem: "a \<in> {1, 2, 3, 4, 5}" "b \<in> {1, 2, 3, 4, 5}" "c \<in> {1, 2, 3, 4, 5}" "d \<in> {1, 2, 3, 4, 5}"
    using assms(2) unfolding insert_subset by blast+
  have "skey K a \<noteq> skey K b" "sm2_public_key P (skey K c) \<noteq> sm2_public_key P (skey K d)"
    using assms(3,4) keys skey_inject [OF keys mem(1,2)] skey_inject [OF keys mem(3,4)]
    by (simp_all add: keys_ok_def inj_eq)
  moreover obtain x y where sec1: "to_sec1_uncompressed L (sm2_public_key P (skey K c)) = Some x"
    "to_sec1_uncompressed L (sm2_public_key P (skey K d)) = Some y"
    using keys unfolding keys_ok_def loaders_reject_identity_def by blast
  moreover have "inj (to_bytes_be L)"
    "\<forall>a b s. to_sec1_uncompressed L a = Some s \<longrightarrow> to_sec1_uncompressed L b = Some s \<longrightarrow> a = b"
    using keys by (simp_all add: keys_ok_def key_encodings_faithful_def)
  ultimately have "to_bytes_be L (skey K a) \<noteq> to_bytes_be L (skey K b)" "x \<noteq> y"
    by (meson injD, metis)
  then have "private_roles_overlap L (skey K a) (skey K b) = False"
    "public_roles_overlap L (sm2_public_key P (skey K c)) (sm2_public_key P (skey K d)) = Some False"
    by (simp_all add: private_roles_overlap_def public_roles_overlap_def sec1)
  then show ?thesis
    by (simp add: key_material_def private_key_def raw_key(1) [OF keys mem(1)] raw_key(1) [OF keys mem(2)]
        public_key_eq [OF keys mem(3)] public_key_eq [OF keys mem(4)] KeyMaterial_new_def bench_keys_def)
qed

text \<open>The configurations and the pair the fixtures build.\<close>

definition payload_iv :: "EnvelopeMode \<Rightarrow> bytes" where
  "payload_iv m = (if m = LegacyCbc then IV else replicate 16 0)"

definition bench_config ::
  "string \<Rightarrow> bytes \<Rightarrow> bytes \<Rightarrow> AuthenticationMode \<Rightarrow> EnvelopeMode \<Rightarrow> usize \<Rightarrow> ClientConfig" where
  "bench_config name signer remote_signer mode payload limit =
     \<lparr>identity = \<lparr>local_identity_id = lit name @ lit ''-identity'', api_version = lit ''test-v1'',
        local_certificate_id = lit name @ lit ''-signing-certificate'',
        expected_remote_signing_certificate_id = lit name @ lit ''-remote-signing-certificate'',
        remote_encryption_certificate_id = lit name @ lit ''-remote-encryption-certificate''\<rparr>,
      local_signer_id = signer, expected_remote_signer_id = remote_signer, authentication_mode = mode,
      iv = payload_iv payload, envelope_mode = payload, max_plaintext_bytes = limit\<rparr>"

definition pair_of ::
  "('w, 'sk, 'pk) crypto \<Rightarrow> ('sk, 'pk) raw_keys \<Rightarrow> AuthenticationMode \<Rightarrow> EnvelopeMode \<Rightarrow> usize \<Rightarrow> ('sk, 'pk) Peers" where
  "pair_of P K mode payload limit =
     \<lparr>sender_config = bench_config ''sender'' SENDER_SIGNER_ID RECEIVER_SIGNER_ID mode payload limit,
      sender_keys = bench_keys P K SENDER_SIGNING SENDER_DECRYPTION RECEIVER_SIGNING RECEIVER_DECRYPTION,
      receiver_config = bench_config ''receiver'' RECEIVER_SIGNER_ID SENDER_SIGNER_ID mode payload limit,
      receiver_keys = bench_keys P K RECEIVER_SIGNING RECEIVER_DECRYPTION SENDER_SIGNING SENDER_DECRYPTION\<rparr>"

lemmas test_scalars =
  SENDER_SIGNING_def SENDER_DECRYPTION_def RECEIVER_SIGNING_def RECEIVER_DECRYPTION_def UNRELATED_KEY_def

lemma test_signer_ids: "signer_id_ok SENDER_SIGNER_ID" "signer_id_ok RECEIVER_SIGNER_ID" "length IV = 16"
  by (simp_all add: signer_id_ok_def SENDER_SIGNER_ID_def RECEIVER_SIGNER_ID_def IV_def blit_def)

lemma test_values:
  assumes "name \<in> {''sender'', ''receiver''}"
  shows "context_value_ok (lit name @ lit ''-identity'')" "context_value_ok (lit ''test-v1'')"
    "context_value_ok (lit name @ lit ''-signing-certificate'')"
    "context_value_ok (lit name @ lit ''-remote-signing-certificate'')"
    "context_value_ok (lit name @ lit ''-remote-encryption-certificate'')"
proof -
  have lits: "\<forall>c \<in> set (lit name). 33 \<le> c \<and> c < 127"
    using assms by (elim insertE) (simp_all add: lit_def)
  have app: "context_value_ok (lit name @ s)" if "s \<noteq> []" "\<forall>c \<in> set s. 33 \<le> c \<and> c < 127" for s
    by (rule visible_value_ok) (use that lits in auto)
  show "context_value_ok (lit name @ lit ''-identity'')" "context_value_ok (lit name @ lit ''-signing-certificate'')"
    "context_value_ok (lit name @ lit ''-remote-signing-certificate'')"
    "context_value_ok (lit name @ lit ''-remote-encryption-certificate'')"
    by (rule app; simp add: lit_def)+
  show "context_value_ok (lit ''test-v1'')" by (simp add: lit_def visible_value_ok)
qed

lemma mode_ok_iff: "mode_ok m \<longleftrightarrow> m \<noteq> ContextBound []"
  by (cases m) (auto simp: mode_ok_def)

lemma test_config_eq:
  assumes "name \<in> {''sender'', ''receiver''}" "signer_id_ok a" "signer_id_ok b" "mode_ok mode" "0 < n"
  shows "test_config aead name a b mode n = Some (bench_config name a b mode LegacyCbc n)"
  using assms(2-5) test_values [OF assms(1)] test_signer_ids(3)
  by (cases aead)
    (simp_all add: test_config_def build_eq_table first_failure_iff config_checks_def config_of_def setter_defs
      opt_ok_def asked_mode_def asked_limit_def bench_config_def payload_iv_def mode_ok_iff Let_def)

lemma aead_config_eq:
  assumes "name \<in> {''sender'', ''receiver''}" "signer_id_ok a" "signer_id_ok b" "mode_ok mode" "0 < n"
    and "alg = Sm4Ccm \<longrightarrow> n < 2 ^ 24"
  shows "aead_config name a b mode n alg = Some (bench_config name a b mode (Aead alg) n)"
  using assms(2-6) test_values [OF assms(1)]
  by (simp add: aead_config_def build_eq_table first_failure_iff config_checks_def config_of_def setter_defs
      opt_ok_def asked_mode_def asked_limit_def bench_config_def payload_iv_def mode_ok_iff)

lemma test_keys_eq:
  assumes "keys_ok P L K"
  shows "key_material P L K SENDER_SIGNING SENDER_DECRYPTION RECEIVER_SIGNING RECEIVER_DECRYPTION =
      Some (sender_keys (pair_of P K mode payload n))"
    "key_material P L K RECEIVER_SIGNING RECEIVER_DECRYPTION SENDER_SIGNING SENDER_DECRYPTION =
      Some (receiver_keys (pair_of P K mode payload n))"
  using key_material_eq [OF assms] by (simp_all add: test_scalars pair_of_def)

lemma test_peers_eq:
  assumes "keys_ok P L K" "mode_ok mode" "0 < n"
  shows "test_peers aead P L K mode n = Some (pair_of P K mode LegacyCbc n)"
  using assms(2,3)
  by (simp add: test_peers_def test_config_eq test_signer_ids test_keys_eq [OF assms(1), of mode LegacyCbc n])
    (simp add: pair_of_def)

lemma aead_peers_with_eq:
  assumes "keys_ok P L K" "mode_ok mode" "0 < n" "alg = Sm4Ccm \<longrightarrow> n < 2 ^ 24"
  shows "aead_peers_with P L K mode n alg = Some (pair_of P K mode (Aead alg) n)"
  using assms(2-4)
  by (simp add: aead_peers_with_def aead_config_eq test_signer_ids test_keys_eq [OF assms(1), of mode "Aead alg" n])
    (simp add: pair_of_def)

lemma aead_peers_eq:
  "keys_ok P L K \<Longrightarrow> mode_ok mode \<Longrightarrow> 0 < n \<Longrightarrow> aead_peers P L K mode n = Some (pair_of P K mode (Aead Sm4Gcm) n)"
  "keys_ok P L K \<Longrightarrow> mode_ok mode \<Longrightarrow> 0 < n \<Longrightarrow> n < 2 ^ 24 \<Longrightarrow>
     ccm_peers P L K mode n = Some (pair_of P K mode (Aead Sm4Ccm) n)"
  by (simp_all add: aead_peers_def ccm_peers_def aead_peers_with_eq)

text \<open>A pair that the fixtures build: a valid limit for its payload mode.\<close>

definition pair_limits :: "AuthenticationMode \<Rightarrow> EnvelopeMode \<Rightarrow> usize \<Rightarrow> bool" where
  "pair_limits mode payload n \<longleftrightarrow> mode_ok mode \<and> 0 < n \<and> (payload = Aead Sm4Ccm \<longrightarrow> n < 2 ^ 24)"

lemma bench_config_ok:
  assumes "name \<in> {''sender'', ''receiver''}" "signer_id_ok a" "signer_id_ok b" "pair_limits mode payload n"
  shows "config_ok (bench_config name a b mode payload n)"
  using assms(2-4) test_values [OF assms(1)] test_signer_ids(3)
  by (simp add: config_ok_def identity_ok_def bench_config_def payload_iv_def pair_limits_def)

lemma pair_configs_ok:
  assumes "pair_limits mode payload n"
  shows "config_ok (sender_config (pair_of P K mode payload n))" "config_ok (receiver_config (pair_of P K mode payload n))"
  using bench_config_ok [OF _ _ _ assms] test_signer_ids by (simp_all add: pair_of_def)

lemma pair_fields [simp]:
  "authentication_mode (sender_config (pair_of P K mode payload n)) = mode"
  "authentication_mode (receiver_config (pair_of P K mode payload n)) = mode"
  "envelope_mode (sender_config (pair_of P K mode payload n)) = payload"
  "envelope_mode (receiver_config (pair_of P K mode payload n)) = payload"
  "max_plaintext_bytes (sender_config (pair_of P K mode payload n)) = n"
  "max_plaintext_bytes (receiver_config (pair_of P K mode payload n)) = n"
  "local_signer_id (sender_config (pair_of P K mode payload n)) = SENDER_SIGNER_ID"
  "expected_remote_signer_id (receiver_config (pair_of P K mode payload n)) = SENDER_SIGNER_ID"
  "local_signing (sender_keys (pair_of P K mode payload n)) = skey K SENDER_SIGNING"
  "remote_encryption (sender_keys (pair_of P K mode payload n)) = sm2_public_key P (skey K RECEIVER_DECRYPTION)"
  "local_decryption (receiver_keys (pair_of P K mode payload n)) = skey K RECEIVER_DECRYPTION"
  "remote_verification (receiver_keys (pair_of P K mode payload n)) = sm2_public_key P (skey K SENDER_SIGNING)"
  "iv (sender_config (pair_of P K mode payload n)) = payload_iv payload"
  "iv (receiver_config (pair_of P K mode payload n)) = payload_iv payload"
  by (simp_all add: pair_of_def bench_config_def bench_keys_def)

lemma pair_peers:
  "peers P (sender_config (pair_of P K mode payload n)) (sender_keys (pair_of P K mode payload n))
     (receiver_config (pair_of P K mode payload n)) (receiver_keys (pair_of P K mode payload n))"
  "peers P (receiver_config (pair_of P K mode payload n)) (receiver_keys (pair_of P K mode payload n))
     (sender_config (pair_of P K mode payload n)) (sender_keys (pair_of P K mode payload n))"
  by (simp_all add: peers_def pair_of_def bench_config_def bench_keys_def)

section \<open>Sealing and opening in tests\<close>

lemma core_signs: "test_core P L K \<Longrightarrow> signs P c k t"
  by (simp add: test_core_def sm2_strict_def signs_def)

lemma seal_live:
  assumes core: "test_core P L K" and "config_ok c"
    and "context_matches (authentication_mode c) x" "length p \<le> max_plaintext_bytes c"
    and fits: "80 + length (mode_domain (authentication_mode c)) + length (context_bytes x) + length p \<le> usize_MAX"
  shows "\<exists>env w'. envelope_seal P c k p x w = (Inr env, w')"
proof -
  obtain t where "authentication_input (authentication_mode c) x p = Inr t"
    using authentication_input_fits [of "authentication_mode c" x p] assms(2,3) fits
    by (auto simp: config_ok_def)
  from envelope_seal_live [OF test_coreD(3,1) [OF core] core_signs [OF core] assms(2) this assms(4) fits]
  show ?thesis .
qed

lemma passes_sealed:
  assumes "test_core P L K" "config_ok c"
    and "context_matches (authentication_mode c) x" "length p \<le> max_plaintext_bytes c"
    and "80 + length (mode_domain (authentication_mode c)) + length (context_bytes x) + length p \<le> usize_MAX"
    and "\<And>env w'. envelope_seal P c k p x w = (Inr env, w') \<Longrightarrow> Q env (w', calls)"
  shows "passes (sealed P c k p x) (w, calls) Q"
proof -
  obtain env w' where s: "envelope_seal P c k p x w = (Inr env, w')"
    using seal_live [OF assms(1-5)] by blast
  then show ?thesis using assms(6) [OF s] by (simp add: sealed_def passes_simps passes_seal [OF s])
qed

lemma sealed_opens:
  assumes "test_core P L K" "config_ok sc" "peers P sc sk rc rk" "length p < 2 ^ 61"
    and "envelope_seal P sc sk p x w = (Inr env, w')"
  shows "envelope_open P rc rk env x = Some (Inr p)"
proof -
  have "4 * ((sealed_len (envelope_mode sc) (length p) + 2) div 3) \<le> usize_MAX"
  proof -
    have "(length p div 16 + 1) * 16 \<le> length p + 30"
      using div_times_less_eq_dividend [of "length p" 16] unfolding add_mult_distrib by linarith
    then have "sealed_len (envelope_mode sc) (length p) \<le> length p + 30"
      by (cases "envelope_mode sc") (simp_all add: sealed_len_def)
    moreover have "4 * (m div 3) \<le> 4 * m" for m :: nat by (intro mult_le_mono2 div_le_dividend)
    ultimately show ?thesis
      using assms(4) le_trans [of "4 * ((sealed_len (envelope_mode sc) (length p) + 2) div 3)"
          "4 * (sealed_len (envelope_mode sc) (length p) + 2)" usize_MAX]
      by (simp add: usize_MAX_def)
  qed
  then have "str_len (cipher env) \<le> usize_MAX"
    using envelope_seal_size [OF test_coreD(1) [OF assms(1)] assms(2,5)] by simp
  then show ?thesis by (rule envelope_open_sealed [OF test_coreD(1) [OF assms(1)] assms(2,3) _ assms(5)])
qed

section \<open>What a sealed envelope carries\<close>

text \<open>A cipher text that encrypts a payload under a session key, before its encoding.\<close>

definition carries ::
  "('w, 'sk, 'pk) crypto \<Rightarrow> ClientConfig \<Rightarrow> AuthenticationContext \<Rightarrow> bytes \<Rightarrow> bytes \<Rightarrow> bytes \<Rightarrow> bool" where
  "carries P c x key p b \<longleftrightarrow>
     (case envelope_mode c of
        LegacyCbc \<Rightarrow> b = cbc_encrypt P key (iv c) p
      | Aead alg \<Rightarrow> (\<exists>nonce aad ct tag. length nonce = 12 \<and> length tag = 16 \<and>
          aead_aad (authentication_mode c) x ([1, algorithm_byte alg] @ nonce) = Inr aad \<and>
          aead_encrypt P alg key nonce aad p = Inr (ct, tag) \<and> b = frame_of alg nonce ct tag))"

lemma base64_core:
  assumes "test_core P L K"
  shows "base64_decode P (base64_encode P b) = Some b"
  using test_coreD(7,8) [OF assms] by (simp add: b64_round_trip)

lemma seal_parts:
  assumes core: "test_core P L K" and seal: "envelope_seal P c k p x w = (Inr env, w')"
  obtains t key w1 wrapped w2 w3 sig b where
    "authentication_input (authentication_mode c) x p = Inr t"
    "getrandom_fill P 16 w = (Some key, w1)" "length key = 16" "carries P c x key p b"
    "sm2_encrypt P (remote_encryption k) key w2 = (Some wrapped, w3)"
    "sm2_sign_with_id P (local_signing k) (local_signer_id c) t w3 = (Some sig, w')"
    "env = \<lparr>cipher = base64_encode P b, wrapped_session_key = base64_encode P wrapped,
       signature = base64_encode P sig\<rparr>"
proof (cases "envelope_mode c")
  case LegacyCbc
  then have "cbc_seal P c k p x w = (Inr env, w')"
    using seal envelope_seal_within [OF seal] by (simp add: envelope_seal_mode)
  then obtain t key w1 wrapped w2 sig where
    *: "authentication_input (authentication_mode c) x p = Inr t" "getrandom_fill P 16 w = (Some key, w1)"
    "sm2_encrypt P (remote_encryption k) key w1 = (Some wrapped, w2)"
    "sm2_sign_with_id P (local_signing k) (local_signer_id c) t w2 = (Some sig, w')"
    "env = \<lparr>cipher = base64_encode P (cbc_encrypt P key (iv c) p),
       wrapped_session_key = base64_encode P wrapped, signature = base64_encode P sig\<rparr>"
    unfolding cbc_seal_iff by auto
  with fill_length [OF crypto_lawsD(1) [OF test_coreD(1) [OF core]] *(2)] LegacyCbc show ?thesis
    by (intro that [OF *(1,2) _ _ *(3,4,5)]) (simp_all add: carries_def)
next
  case (Aead alg)
  then have "aead_seal P c k p x alg w = (Inr env, w')"
    using seal envelope_seal_within [OF seal] by (simp add: envelope_seal_mode)
  then obtain t key w1 nonce w2 aad ct tag wrapped w3 sig where
    *: "authentication_input (authentication_mode c) x p = Inr t" "getrandom_fill P 16 w = (Some key, w1)"
    "sm2_encrypt P (remote_encryption k) key w2 = (Some wrapped, w3)"
    "sm2_sign_with_id P (local_signing k) (local_signer_id c) t w3 = (Some sig, w')"
    "env = \<lparr>cipher = base64_encode P (frame_of alg nonce ct tag),
       wrapped_session_key = base64_encode P wrapped, signature = base64_encode P sig\<rparr>"
    and n: "getrandom_fill P 12 w1 = (Some nonce, w2)"
    "aead_aad (authentication_mode c) x ([1, algorithm_byte alg] @ nonce) = Inr aad"
    "aead_encrypt P alg key nonce aad p = Inr (ct, tag)"
    unfolding aead_seal_iff by auto
  note laws = crypto_lawsD [OF test_coreD(1) [OF core]]
  have "carries P c x key p (frame_of alg nonce ct tag)"
    using Aead n fill_length [OF laws(1) n(1)] aead_encrypt_decrypt [OF laws(6,7) n(3)]
    by (auto simp: carries_def)
  then show ?thesis by (intro that [OF *(1,2) fill_length [OF laws(1) *(2)] _ *(3,4,5)])
qed

lemma aead_exact:
  assumes "ciphers_exact P" "aead_decrypt P alg k n a ct tag = Inr p" "length tag = 16"
  shows "aead_encrypt P alg k n a p = Inr (ct, tag)"
proof (cases alg)
  case Sm4Gcm
  then show ?thesis using assms(2) ciphers_exactD(2) [OF assms(1)] by (simp add: aead_decrypt_def aead_encrypt_def)
next
  case Sm4Ccm
  then have "ccm_encrypt P k n a p 16 = Some (ct @ tag)"
    using assms(2) ciphers_exactD(3) [OF assms(1)] by (simp add: aead_decrypt_def TAG_BYTES_def)
  then show ?thesis using Sm4Ccm split_tag_append [OF assms(3)] by (simp add: aead_encrypt_def TAG_BYTES_def)
qed

lemma open_parts:
  assumes core: "test_core P L K" and "length (iv c) = 16" and opn: "envelope_open P c k env y = Some (Inr q)"
  obtains b wrapped sig key t where
    "base64_decode P (cipher env) = Some b" "base64_decode P (wrapped_session_key env) = Some wrapped"
    "base64_decode P (signature env) = Some sig" "sm2_decrypt P (local_decryption k) wrapped = Some key"
    "length key = 16" "authentication_input (authentication_mode c) y q = Inr t"
    "sm2_verify_with_id P (remote_verification k) (expected_remote_signer_id c) t sig" "carries P c y key q b"
proof (cases "envelope_mode c")
  case LegacyCbc
  with opn obtain b sig key t where *: "cbc_unwrapped P c k env b sig key" "cbc_decrypt P key (iv c) b = Some q"
    "authentication_input (authentication_mode c) y q = Inr t"
    "sm2_verify_with_id P (remote_verification k) (expected_remote_signer_id c) t sig"
    by (auto simp: envelope_open_def cbc_open_iff)
  then obtain wrapped where
    u: "base64_decode P (cipher env) = Some b" "base64_decode P (wrapped_session_key env) = Some wrapped"
    "base64_decode P (signature env) = Some sig" "sm2_decrypt P (local_decryption k) wrapped = Some key"
    "length key = 16"
    by (auto simp: cbc_unwrapped_def)
  have "cbc_encrypt P key (iv c) q = b"
    using ciphers_exactD(1) [OF test_coreD(6) [OF core] u(5) assms(2) *(2)] .
  with LegacyCbc show ?thesis by (intro that [OF u *(3,4)]) (simp add: carries_def)
next
  case (Aead alg)
  with opn obtain nonce ct tag wrapped key sig aad t where
    *: "base64_decode P (cipher env) = Some (frame_of alg nonce ct tag)"
    "base64_decode P (wrapped_session_key env) = Some wrapped" "base64_decode P (signature env) = Some sig"
    "sm2_decrypt P (local_decryption k) wrapped = Some key" "length key = 16"
    "authentication_input (authentication_mode c) y q = Inr t"
    "sm2_verify_with_id P (remote_verification k) (expected_remote_signer_id c) t sig"
    and n: "length nonce = 12" "length tag = 16"
    "aead_aad (authentication_mode c) y ([1, algorithm_byte alg] @ nonce) = Inr aad"
    "aead_decrypt P alg key nonce aad ct tag = Inr q"
    by (auto simp: envelope_open_def aead_open_iff aead_accepts_def)
  have "carries P c y key q (frame_of alg nonce ct tag)"
    using Aead n aead_exact [OF test_coreD(6) [OF core] n(4,2)] by (auto simp: carries_def)
  then show ?thesis by (rule that [OF *])
qed

lemma carries_length:
  assumes "test_core P L K" "length (iv c) = 16" "length key = 16" "carries P c x key p b"
  shows "length b = sealed_len (envelope_mode c) (length p)"
proof -
  note laws = crypto_lawsD [OF test_coreD(1) [OF assms(1)]]
  show ?thesis
  proof (cases "envelope_mode c")
    case LegacyCbc
    with assms(4) cbc_lawsD(2) [OF laws(5) assms(3,2)] show ?thesis by (simp add: carries_def sealed_len_def)
  next
    case (Aead alg)
    with assms(4) show ?thesis
      by (auto simp: carries_def sealed_len_def frame_of_def dest!: aead_encrypt_decrypt [OF laws(6,7)])
  qed
qed

text \<open>Two cipher texts of one payload that share their header or all the rest are equal.\<close>

lemma carries_unique:
  assumes "ciphers_exact P" "carries P c x key p b" "carries P c' x key p b'"
    and "envelope_mode c' = envelope_mode c" "iv c' = iv c" "authentication_mode c' = authentication_mode c"
    and "envelope_mode c = LegacyCbc \<or> take 14 b' = take 14 b \<or> drop 14 b' = drop 14 b"
  shows "b' = b"
proof (cases "envelope_mode c")
  case LegacyCbc
  with assms(2-5) show ?thesis by (simp add: carries_def)
next
  case (Aead alg)
  with assms(2) obtain n a ct tag where
    b: "length n = 12" "length tag = 16" "b = frame_of alg n ct tag"
    "aead_aad (authentication_mode c) x ([1, algorithm_byte alg] @ n) = Inr a"
    "aead_encrypt P alg key n a p = Inr (ct, tag)"
    by (auto simp: carries_def)
  from Aead assms(3,4,6) obtain n' a' ct' tag' where
    b': "length n' = 12" "length tag' = 16" "b' = frame_of alg n' ct' tag'"
    "aead_aad (authentication_mode c) x ([1, algorithm_byte alg] @ n') = Inr a'"
    "aead_encrypt P alg key n' a' p = Inr (ct', tag')"
    by (auto simp: carries_def)
  have "n' = n"
  proof (cases "take 14 b' = take 14 b")
    case True
    then show ?thesis using b(1,3) b'(1,3) by (simp add: frame_of_def)
  next
    case False
    with assms(7) Aead have "ct' @ tag' = ct @ tag" using b(1,3) b'(1,3) by (simp add: frame_of_def)
    then have "ct' = ct" "tag' = tag" using b(2) b'(2) by simp_all
    with b(5) b'(5) show ?thesis
      using ciphers_exactD(4) [OF assms(1), of key n a p _ n' a']
        ciphers_exactD(5) [OF assms(1), of key n a p _ _ n' a']
      by (cases alg) (auto simp: aead_encrypt_def bindR_eq_Inr split_tag_Some)
  qed
  with b b' show ?thesis by simp
qed

section \<open>What is refused\<close>

definition binds_message ::
  "('w, 'sk, 'pk) crypto \<Rightarrow> AuthenticationMode \<Rightarrow> AuthenticationContext \<Rightarrow> bytes \<Rightarrow> bool" where
  "binds_message P mode x p \<longleftrightarrow> (\<forall>t. authentication_input mode x p = Inr t \<longrightarrow> binds P t)"

lemma refusedI:
  assumes "\<And>q. envelope_open P c k env x \<noteq> Some (Inr q)" "str_len (cipher env) \<le> cipher_bound c"
  shows "envelope_open P c k env x = Some (Inl InvalidEnvelope)"
proof -
  obtain r where r: "envelope_open P c k env x = Some r" using env.returns by blast
  with assms(1) obtain e where "r = Inl e" by (cases r) auto
  with env.refused [of P c k env x e] r assms(2) show ?thesis by simp
qed

lemma wrong_kind_refused:
  "\<not> context_matches (authentication_mode c) x \<Longrightarrow> envelope_open P c k env x \<noteq> Some (Inr q)"
  using env.accepted_context by blast

lemma auxiliary_refused:
  assumes "MAX_AUXILIARY_BASE64_BYTES < str_len (wrapped_session_key env) \<or>
      MAX_AUXILIARY_BASE64_BYTES < str_len (signature env)"
  shows "envelope_open P c k env x \<noteq> Some (Inr q)"
  using assms
  by (auto simp: opens_to_iff opens_to_def cbc_unwrapped_def aead_accepts_def aead_gate_def split: EnvelopeMode.splits)

lemma undecodable_refused:
  assumes "base64_decode P (cipher env) = None \<or> base64_decode P (wrapped_session_key env) = None \<or>
      base64_decode P (signature env) = None"
  shows "envelope_open P c k env x \<noteq> Some (Inr q)"
  using assms
  by (auto simp: opens_to_iff opens_to_def cbc_unwrapped_def aead_accepts_def split: EnvelopeMode.splits)

lemma unwrapped_refused:
  assumes "base64_decode P (wrapped_session_key env) = Some wrapped"
    and "\<And>key. sm2_decrypt P (local_decryption k) wrapped = Some key \<Longrightarrow> length key \<noteq> 16"
  shows "envelope_open P c k env x \<noteq> Some (Inr q)"
  using assms
  by (auto simp: opens_to_iff opens_to_def cbc_unwrapped_def aead_accepts_def split: EnvelopeMode.splits)

lemma unverified_refused:
  assumes "base64_decode P (signature env) = Some sig"
    and "\<And>t. \<not> sm2_verify_with_id P (remote_verification k) (expected_remote_signer_id c) t sig"
  shows "envelope_open P c k env x \<noteq> Some (Inr q)"
  using assms
  by (auto simp: opens_to_iff opens_to_def cbc_unwrapped_def aead_accepts_def split: EnvelopeMode.splits)

lemma sm2_strictD:
  assumes "test_core P L K"
  shows "sm2_decrypt P sk c = Some m \<Longrightarrow> \<exists>r. c = 0x30 # r"
    "sm2_verify_with_id P pk i t s \<Longrightarrow> \<exists>l r. s = 0x30 # l # 0x02 # r"
    "sm2_encrypt P (sm2_public_key P sk) m w = (Some c, w') \<Longrightarrow> sm2_decrypt P sk' c = Some m' \<Longrightarrow> sk' = sk"
proof -
  note s = test_coreD(5) [OF assms, unfolded sm2_strict_def]
  show "sm2_decrypt P sk c = Some m \<Longrightarrow> \<exists>r. c = 0x30 # r" using s by (metis option.distinct(1))
  show "sm2_verify_with_id P pk i t s \<Longrightarrow> \<exists>l r. s = 0x30 # l # 0x02 # r" using s by blast
  show "sm2_encrypt P (sm2_public_key P sk) m w = (Some c, w') \<Longrightarrow> sm2_decrypt P sk' c = Some m' \<Longrightarrow> sk' = sk"
    using s by (metis option.distinct(1))
qed

text \<open>Bytes that are no ASN.1 sequence, as a wrapped key or as a signature.\<close>

lemma malformed_refused:
  assumes core: "test_core P L K"
    and "(\<exists>b r. base64_decode P (wrapped_session_key env) = Some (b # r) \<and> b \<noteq> 0x30) \<or>
      (\<exists>b r. base64_decode P (signature env) = Some (b # r) \<and> (b \<noteq> 0x30 \<or> (\<exists>l m. r = l # m \<and> take 1 m \<noteq> [0x02])))"
  shows "envelope_open P c k env x \<noteq> Some (Inr q)"
  using assms(2)
proof
  assume "\<exists>b r. base64_decode P (wrapped_session_key env) = Some (b # r) \<and> b \<noteq> 0x30"
  then obtain b r where "base64_decode P (wrapped_session_key env) = Some (b # r)" "b \<noteq> 0x30" by blast
  then show ?thesis using sm2_strictD(1) [OF core] by (intro unwrapped_refused) blast+
next
  assume "\<exists>b r. base64_decode P (signature env) = Some (b # r) \<and> (b \<noteq> 0x30 \<or> (\<exists>l m. r = l # m \<and> take 1 m \<noteq> [0x02]))"
  then obtain b r where "base64_decode P (signature env) = Some (b # r)"
    "b \<noteq> 0x30 \<or> (\<exists>l m. r = l # m \<and> take 1 m \<noteq> [0x02])" by blast
  then show ?thesis by (intro unverified_refused) (auto dest: sm2_strictD(2) [OF core])
qed

text \<open>An accepted envelope with the signature of a sealed one has the same transcript.\<close>

lemma accepted_transcript:
  assumes core: "test_core P L K" and seal: "envelope_seal P sc sk p x w = (Inr env, w')"
    and b: "binds_message P (authentication_mode sc) x p" and sig: "signature env' = signature env"
    and key: "remote_verification k = sm2_public_key P s"
    and opn: "envelope_open P c k env' y = Some (Inr q)"
  shows "remote_verification k = sm2_public_key P (local_signing sk) \<and>
    (\<exists>t. authentication_input (authentication_mode sc) x p = Inr t \<and>
       authentication_input (authentication_mode c) y q = Inr t)"
proof -
  obtain t w3 g where t: "authentication_input (authentication_mode sc) x p = Inr t"
    and g: "sm2_sign_with_id P (local_signing sk) (local_signer_id sc) t w3 = (Some g, w')"
    and e: "signature env = base64_encode P g"
    by (rule seal_parts [OF core seal]) auto
  obtain u h where u: "authentication_input (authentication_mode c) y q = Inr u"
    and h: "base64_decode P (signature env') = Some h" "peer_signed P c k u h"
    using env.accepted [OF opn] by auto
  have "h = g" using h(1) e sig base64_core [OF core] by simp
  with h(2) key have "sm2_verify_with_id P (sm2_public_key P s) (expected_remote_signer_id c) u g"
    by (simp add: peer_signed_def)
  moreover have "binds P t" using b t by (simp add: binds_message_def)
  ultimately have "sm2_public_key P s = sm2_public_key P (local_signing sk)" "u = t"
    using g unfolding binds_def by blast+
  with key t u show ?thesis by simp
qed

lemma flipped_refused:
  assumes core: "test_core P L K" and seal: "envelope_seal P sc sk p x w = (Inr env, w')"
    and b: "binds_message P (authentication_mode sc) x p"
    and "base64_decode P (signature env) = Some s" "base64_decode P (signature env') = Some (flip_last s)"
  shows "envelope_open P c k env' y \<noteq> Some (Inr q)"
proof -
  obtain t w3 g where t: "authentication_input (authentication_mode sc) x p = Inr t"
    and g: "sm2_sign_with_id P (local_signing sk) (local_signer_id sc) t w3 = (Some g, w')"
    and e: "signature env = base64_encode P g"
    by (rule seal_parts [OF core seal]) auto
  have "s = g" using assms(4) e base64_core [OF core] by simp
  moreover have "binds P t" using b t by (simp add: binds_message_def)
  ultimately have "\<not> sm2_verify_with_id P (remote_verification k) (expected_remote_signer_id c) u (flip_last s)" for u
    using g unfolding binds_def by blast
  with assms(5) show ?thesis by (rule unverified_refused)
qed

lemma wrong_context_refused:
  assumes "test_core P L K" "envelope_seal P sc sk p x w = (Inr env, w')"
    and "binds_message P (authentication_mode sc) x p" "remote_verification k = sm2_public_key P s"
    and "authentication_mode c = authentication_mode sc \<and> y \<noteq> x \<or>
      (\<exists>d d'. authentication_mode sc = ContextBound d \<and> authentication_mode c = ContextBound d' \<and> d \<noteq> d')"
  shows "envelope_open P c k env y \<noteq> Some (Inr q)"
proof
  assume "envelope_open P c k env y = Some (Inr q)"
  from accepted_transcript [OF assms(1-3) refl assms(4) this] obtain t where
    "authentication_input (authentication_mode sc) x p = Inr t"
    "authentication_input (authentication_mode c) y q = Inr t" by blast
  with assms(5) show False
    using authentication_input_inject transcript_binds_all_fields by metis
qed

text \<open>The peer refuses a cipher text that was changed, whatever the change decrypts to.\<close>

lemma tampered_refused:
  assumes core: "test_core P L K" and "length (iv sc) = 16" and peer: "peers P sc sk rc rk"
    and seal: "envelope_seal P sc sk p x w = (Inr env, w')"
    and b: "binds_message P (authentication_mode sc) x p"
    and c: "authentication_mode c = authentication_mode sc" "envelope_mode c = envelope_mode sc" "iv c = iv sc"
    and keep: "signature env' = signature env" "wrapped_session_key env' = wrapped_session_key env"
    and dec: "base64_decode P (cipher env) = Some f" "base64_decode P (cipher env') = Some f'" "f' \<noteq> f"
    and part: "envelope_mode sc = LegacyCbc \<or> length f' \<noteq> length f \<or> take 14 f' = take 14 f \<or> drop 14 f' = drop 14 f"
  shows "envelope_open P c rk env' y \<noteq> Some (Inr q)"
proof
  assume opn: "envelope_open P c rk env' y = Some (Inr q)"
  have key: "remote_verification rk = sm2_public_key P (local_signing sk)" using peer by (simp add: peers_def)
  obtain t where "authentication_input (authentication_mode sc) x p = Inr t"
    "authentication_input (authentication_mode sc) y q = Inr t"
    using accepted_transcript [OF core seal b keep(1) key opn] c(1) by auto
  then have same: "y = x" "q = p" using authentication_input_inject by blast+
  obtain key w1 w2 wrapped w3 f0 where s: "length key = 16" "carries P sc x key p f0"
    "sm2_encrypt P (remote_encryption sk) key w2 = (Some wrapped, w3)"
    "cipher env = base64_encode P f0" "wrapped_session_key env = base64_encode P wrapped"
    by (rule seal_parts [OF core seal]) auto
  have iv: "length (iv c) = 16" using assms(2) c(3) by simp
  obtain g wrapped' key' where o: "base64_decode P (cipher env') = Some g"
    "base64_decode P (wrapped_session_key env') = Some wrapped'"
    "sm2_decrypt P (local_decryption rk) wrapped' = Some key'" "carries P c y key' q g"
    by (rule open_parts [OF core iv opn])
  have "f0 = f" "g = f'" "wrapped' = wrapped"
    using s(4,5) o(1,2) dec(1,2) keep(2) base64_core [OF core] by auto
  moreover have "key' = key"
    using peer_unwraps [OF crypto_lawsD(3) [OF test_coreD(1) [OF core]] peer s(3)] o(3) \<open>wrapped' = wrapped\<close> by simp
  ultimately have both: "carries P sc x key p f" "carries P c x key p f'" using s(2) o(4) same by simp_all
  have "length f' = length f"
    using carries_length [OF core assms(2) s(1) both(1)] carries_length [OF core iv s(1) both(2)] c(2) by simp
  with carries_unique [OF test_coreD(6) [OF core] both c(2,3,1)] part dec(3) show False by blast
qed

lemma wrong_verification_refused:
  assumes "test_core P L K" "envelope_seal P sc sk p x w = (Inr env, w')"
    and "binds_message P (authentication_mode sc) x p" "remote_verification k = sm2_public_key P s"
    and "s \<noteq> local_signing sk"
  shows "envelope_open P c k env y \<noteq> Some (Inr q)"
proof
  assume "envelope_open P c k env y = Some (Inr q)"
  from accepted_transcript [OF assms(1-3) refl assms(4) this] assms(4,5)
  show False using test_coreD(4) [OF assms(1)] by (simp add: keys_ok_def inj_eq)
qed

lemma wrong_decryption_refused:
  assumes core: "test_core P L K" and seal: "envelope_seal P sc sk p x w = (Inr env, w')"
    and "remote_encryption sk = sm2_public_key P s" "local_decryption k \<noteq> s"
  shows "envelope_open P c k env y \<noteq> Some (Inr q)"
proof -
  obtain key w2 wrapped w3 where s: "sm2_encrypt P (remote_encryption sk) key w2 = (Some wrapped, w3)"
    "wrapped_session_key env = base64_encode P wrapped"
    by (rule seal_parts [OF core seal]) auto
  have "base64_decode P (wrapped_session_key env) = Some wrapped" by (simp add: s(2) base64_core [OF core])
  then show ?thesis
    by (rule unwrapped_refused) (use sm2_strictD(3) [OF core] s(1) assms(3,4) in metis)
qed

section \<open>Writing tests\<close>

type_synonym ('w, 'sk, 'pk, 'cert) core_test =
  "('w, 'sk, 'pk) crypto \<Rightarrow> ('sk, 'pk, 'cert) key_lib \<Rightarrow> ('sk, 'pk) raw_keys \<Rightarrow> ('w, unit) test"

text \<open>Subtraction and indexing of slices in a debug build: out of range is a panic.\<close>

definition usize_sub :: "usize \<Rightarrow> usize \<Rightarrow> usize option" where
  "usize_sub a b = (if b \<le> a then Some (a - b) else None)"

definition set_at :: "usize \<Rightarrow> (byte \<Rightarrow> byte) \<Rightarrow> bytes \<Rightarrow> bytes option" where
  "set_at i f bs = (if i < length bs then Some (bs[i := f (bs ! i)]) else None)"

text \<open>\<^verbatim>\<open>assert_eq!(open(..).expect(..), expected)\<close> and \<^verbatim>\<open>assert_invalid_envelope(open(..))\<close>.\<close>

definition assert_opens ::
  "('w, 'sk, 'pk) crypto \<Rightarrow> ClientConfig \<Rightarrow> ('sk, 'pk) KeyMaterial \<Rightarrow> SecureEnvelope \<Rightarrow> AuthenticationContext \<Rightarrow>
    bytes \<Rightarrow> ('w, unit) test" where
  "assert_opens P c k env x expected = bindW (opened P c k env x) (\<lambda>p. assertT (p = expected))"

definition assert_refused ::
  "('w, 'sk, 'pk) crypto \<Rightarrow> ClientConfig \<Rightarrow> ('sk, 'pk) KeyMaterial \<Rightarrow> SecureEnvelope \<Rightarrow> AuthenticationContext \<Rightarrow>
    ('w, unit) test" where
  "assert_refused P c k env x = bindW (openT P c k env x) assert_invalid_envelope"

lemma passes_assert_opens:
  assumes "envelope_open P c k env x = Some (Inr p)"
  shows "passes (assert_opens P c k env x e) (w, calls) Q \<longleftrightarrow> p = e \<and> Q () (w, tally P c k env calls)"
  by (simp add: assert_opens_def passes_simps passes_opened [OF assms])

lemma passes_assert_refused:
  assumes "envelope_open P c k env x = Some (Inl InvalidEnvelope)"
  shows "passes (assert_refused P c k env x) (w, calls) Q \<longleftrightarrow> Q () (w, tally P c k env calls)"
  by (simp add: assert_refused_def passes_simps passes_open [OF assms])

lemma passes_seals:
  assumes core: "test_core P L K" and lim: "pair_limits mode payload n"
    and "context_matches mode x" "length p \<le> n"
    and "80 + length (mode_domain mode) + length (context_bytes x) + length p \<le> usize_MAX"
    and "\<And>env w'. envelope_seal P (sender_config (pair_of P K mode payload n))
        (sender_keys (pair_of P K mode payload n)) p x w = (Inr env, w') \<Longrightarrow> Q env (w', calls)"
  shows "passes (sealed P (sender_config (pair_of P K mode payload n))
    (sender_keys (pair_of P K mode payload n)) p x) (w, calls) Q"
  by (rule passes_sealed [OF core pair_configs_ok(1) [OF lim]]) (use assms(3-6) in simp_all)

lemma pair_opens:
  assumes "test_core P L K" "pair_limits mode payload n" "length p < 2 ^ 61"
    and "envelope_seal P (sender_config (pair_of P K mode payload n))
        (sender_keys (pair_of P K mode payload n)) p x w = (Inr env, w')"
  shows "envelope_open P (receiver_config (pair_of P K mode payload n))
    (receiver_keys (pair_of P K mode payload n)) env x = Some (Inr p)"
  using sealed_opens [OF assms(1) pair_configs_ok(1) [OF assms(2)] pair_peers(1) assms(3,4)] .

text \<open>\<^verbatim>\<open>Vec::pop\<close>, the last byte of a signature flipped, and the payloads of several tests.\<close>

definition popped :: "bytes \<Rightarrow> bytes option" where
  "popped bs = (if bs = [] then None else Some (butlast bs))"

definition flip_final_byte :: "bytes \<Rightarrow> bytes option" where
  "flip_final_byte bs = Option.bind (usize_sub (length bs) 1) (\<lambda>final_byte. set_at final_byte (\<lambda>b. b XOR 1) bs)"

definition unicode_plaintext :: bytes where
  "unicode_plaintext = as_bytes ([0x4F60, 0x597D, 0xFF0C] @ lit ''secure envelope '' @ [0x1F510] @ lit '' '' @
     [0x2014] @ lit '' caf'' @ [0xE9])"

definition sweep_plaintext :: "usize \<Rightarrow> bytes" where
  "sweep_plaintext n = map (\<lambda>index. word_of_nat (index mod 251)) [0..<n]"

lemma unicode_length: "length unicode_plaintext = 39"
  by (simp add: unicode_plaintext_def as_bytes_def utf8_nats.simps lit_def)

lemma set_at_eq: "i < length bs \<Longrightarrow> set_at i f bs = Some (bs[i := f (bs ! i)])"
  by (simp add: set_at_def)

lemma flip_final_byte_eq: "bs \<noteq> [] \<Longrightarrow> flip_final_byte bs = Some (flip_last bs)"
  by (cases bs) (simp_all add: flip_final_byte_def usize_sub_def set_at_def flip_last_def)

lemma popped_eq: "bs \<noteq> [] \<Longrightarrow> popped bs = Some (butlast bs)"
  by (simp add: popped_def)

lemma set_at_changes:
  fixes v :: byte
  assumes "i < length bs" "v \<noteq> 0"
  shows "bs[i := bs ! i XOR v] \<noteq> bs"
proof
  assume "bs[i := bs ! i XOR v] = bs"
  then have "bs ! i XOR v = bs ! i" using nth_list_update_eq [OF assms(1), of "bs ! i XOR v"] by simp
  then have "bs ! i XOR (bs ! i XOR v) = bs ! i XOR bs ! i" by simp
  then have "v = 0" by (simp add: xor.assoc [symmetric])
  with assms(2) show False by simp
qed

text \<open>The literals of the tests.\<close>

lemma context_bound_eq:
  "bs \<noteq> [] \<Longrightarrow> AuthenticationContext_context_bound bs = Inr (AuthenticationContext (Bound bs))"
  "bs \<noteq> [] \<Longrightarrow> AuthenticationMode_context_bound bs = Inr (ContextBound bs)"
  by (simp_all add: AuthenticationContext_context_bound_def AuthenticationMode_context_bound_def)

lemma blit_length: "length (blit s) = length s" "blit s = [] \<longleftrightarrow> s = []"
  by (simp_all add: blit_def)

lemma legacy_context_simps [simp]:
  "context_matches LegacyPlaintext legacy_context" "context_bytes legacy_context = []"
  "\<not> context_matches (ContextBound d) legacy_context"
  by (simp_all add: legacy_context_def AuthenticationContext_legacy_def)

section \<open>The pair at work\<close>

abbreviation sender_seal where
  "sender_seal P K mode payload n p x w \<equiv> envelope_seal P (sender_config (pair_of P K mode payload n))
     (sender_keys (pair_of P K mode payload n)) p x w"

abbreviation receiver_open where
  "receiver_open P K mode payload n env x \<equiv> envelope_open P (receiver_config (pair_of P K mode payload n))
     (receiver_keys (pair_of P K mode payload n)) env x"

lemma passes_sealed_run:
  "envelope_seal P c k p x w = (Inr env, w') \<Longrightarrow> passes (sealed P c k p x) (w, calls) Q \<longleftrightarrow> Q env (w', calls)"
  by (simp add: sealed_def passes_simps passes_seal)

lemma pair_seals:
  assumes core: "test_core P L K" and lim: "pair_limits mode payload n"
    and fits: "context_matches mode x" "length p \<le> n" "length p < 2 ^ 61"
      "length (mode_domain mode) + length (context_bytes x) < 1000"
  obtains env w' where "sender_seal P K mode payload n p x w = (Inr env, w')"
    "receiver_open P K mode payload n env x = Some (Inr p)"
proof -
  have "80 + length (mode_domain mode) + length (context_bytes x) + length p \<le> usize_MAX"
    using fits(3,4) by (simp add: usize_MAX_def)
  then have "\<exists>env w'. sender_seal P K mode payload n p x w = (Inr env, w')"
    by (intro seal_live [OF core pair_configs_ok(1) [OF lim]]) (simp_all add: fits(1,2))
  then obtain env w' where s: "sender_seal P K mode payload n p x w = (Inr env, w')" by blast
  from that [OF s pair_opens [OF core lim fits(3) s]] show ?thesis .
qed

lemma pair_bound:
  assumes "receiver_open P K mode payload n env x = Some (Inr p)"
  shows "str_len (cipher env) \<le> cipher_bound (receiver_config (pair_of P K mode payload n))"
  using env.accepted [OF assms] by blast

text \<open>Refusals of the receiver, for envelopes that differ from a sealed one in one field.\<close>

lemma pair_field_refused:
  assumes core: "test_core P L K" and opens: "receiver_open P K mode payload n env x = Some (Inr p)"
    and "base64_decode P wrapped = None \<or> MAX_AUXILIARY_BASE64_BYTES < str_len wrapped \<or>
      (\<exists>b r. base64_decode P wrapped = Some (b # r) \<and> b \<noteq> 0x30)"
  shows "receiver_open P K mode payload n (env\<lparr>wrapped_session_key := wrapped\<rparr>) x = Some (Inl InvalidEnvelope)"
proof (rule refusedI)
  show "receiver_open P K mode payload n (env\<lparr>wrapped_session_key := wrapped\<rparr>) x \<noteq> Some (Inr q)" for q
    using assms(3)
    by (elim disjE, intro undecodable_refused, simp, intro auxiliary_refused, simp,
        intro malformed_refused [OF core], simp)
qed (use pair_bound [OF opens] in simp)

lemma pair_signature_refused:
  assumes core: "test_core P L K" and opens: "receiver_open P K mode payload n env x = Some (Inr p)"
    and "base64_decode P sig = None \<or> MAX_AUXILIARY_BASE64_BYTES < str_len sig \<or>
      (\<exists>b r. base64_decode P sig = Some (b # r) \<and> (b \<noteq> 0x30 \<or> (\<exists>l m. r = l # m \<and> take 1 m \<noteq> [0x02])))"
  shows "receiver_open P K mode payload n (env\<lparr>signature := sig\<rparr>) x = Some (Inl InvalidEnvelope)"
proof (rule refusedI)
  show "receiver_open P K mode payload n (env\<lparr>signature := sig\<rparr>) x \<noteq> Some (Inr q)" for q
    using assms(3)
    by (elim disjE, intro undecodable_refused, simp, intro auxiliary_refused, simp,
        intro malformed_refused [OF core], simp)
qed (use pair_bound [OF opens] in simp)

lemma pair_cipher_refused:
  assumes opens: "receiver_open P K mode payload n env x = Some (Inr p)"
    and "base64_decode P ciph = None" "str_len ciph \<le> str_len (cipher env)"
  shows "receiver_open P K mode payload n (env\<lparr>cipher := ciph\<rparr>) x = Some (Inl InvalidEnvelope)"
proof (rule refusedI)
  show "receiver_open P K mode payload n (env\<lparr>cipher := ciph\<rparr>) x \<noteq> Some (Inr q)" for q
    using assms(2) by (intro undecodable_refused) simp
qed (use pair_bound [OF opens] assms(3) in simp)

lemma pair_tampered:
  assumes core: "test_core P L K" and lim: "pair_limits mode payload n"
    and seal: "sender_seal P K mode payload n p x w = (Inr env, w')"
    and opens: "receiver_open P K mode payload n env x = Some (Inr p)"
    and b: "binds_message P mode x p"
    and f: "base64_decode P (cipher env) = Some f" "f' \<noteq> f" "length f' \<le> length f"
    and part: "payload = LegacyCbc \<or> length f' \<noteq> length f \<or> take 14 f' = take 14 f \<or> drop 14 f' = drop 14 f"
  shows "receiver_open P K mode payload n (env\<lparr>cipher := base64_encode P f'\<rparr>) x = Some (Inl InvalidEnvelope)"
proof (rule refusedI)
  have iv: "length (iv (sender_config (pair_of P K mode payload n))) = 16"
    using pair_configs_ok(1) [OF lim, of P K] by (simp add: config_ok_def)
  show "receiver_open P K mode payload n (env\<lparr>cipher := base64_encode P f'\<rparr>) x \<noteq> Some (Inr q)" for q
    using b part base64_core [OF core]
    by (intro tampered_refused [OF core iv pair_peers(1) seal _ _ _ _ _ _ f(1) _ f(2)]) simp_all
  obtain f0 where "cipher env = base64_encode P f0" by (rule seal_parts [OF core seal]) auto
  then have "str_len (cipher env) = 4 * ((length f + 2) div 3)"
    using f(1) base64_core [OF core] base64_str_len [OF crypto_lawsD(2) [OF test_coreD(1) [OF core]]] by simp
  moreover have "str_len (base64_encode P f') = 4 * ((length f' + 2) div 3)"
    by (rule base64_str_len [OF crypto_lawsD(2) [OF test_coreD(1) [OF core]]])
  ultimately have "str_len (base64_encode P f') \<le> str_len (cipher env)"
    using f(3) by (simp add: div_le_mono)
  then show "str_len (cipher (env\<lparr>cipher := base64_encode P f'\<rparr>)) \<le>
      cipher_bound (receiver_config (pair_of P K mode payload n))"
    using pair_bound [OF opens] by simp
qed

lemma pair_flipped:
  assumes core: "test_core P L K"
    and seal: "sender_seal P K mode payload n p x w = (Inr env, w')"
    and opens: "receiver_open P K mode payload n env x = Some (Inr p)"
    and b: "binds_message P mode x p" and s: "base64_decode P (signature env) = Some s"
  shows "receiver_open P K mode payload n (env\<lparr>signature := base64_encode P (flip_last s)\<rparr>) x = Some (Inl InvalidEnvelope)"
proof (rule refusedI)
  show "receiver_open P K mode payload n (env\<lparr>signature := base64_encode P (flip_last s)\<rparr>) x \<noteq> Some (Inr q)" for q
    by (rule flipped_refused [OF core seal _ s]) (simp_all add: b base64_core [OF core])
qed (use pair_bound [OF opens] in simp)

lemma pair_wrong_context:
  assumes core: "test_core P L K"
    and seal: "sender_seal P K mode payload n p x w = (Inr env, w')"
    and opens: "receiver_open P K mode payload n env x = Some (Inr p)"
    and b: "binds_message P mode x p" and "y \<noteq> x"
  shows "receiver_open P K mode payload n env y = Some (Inl InvalidEnvelope)"
proof (rule refusedI)
  show "receiver_open P K mode payload n env y \<noteq> Some (Inr q)" for q
    by (rule wrong_context_refused [OF core seal, where s = "skey K SENDER_SIGNING"]) (simp_all add: b assms(5))
qed (use pair_bound [OF opens] in simp)

lemma pair_wrong_domain:
  assumes core: "test_core P L K"
    and seal: "sender_seal P K (ContextBound d) payload n p x w = (Inr env, w')"
    and opens: "receiver_open P K (ContextBound d) payload n env x = Some (Inr p)"
    and b: "binds_message P (ContextBound d) x p" and "d' \<noteq> d"
  shows "envelope_open P (bench_config ''receiver'' RECEIVER_SIGNER_ID SENDER_SIGNER_ID (ContextBound d') payload n)
    (receiver_keys (pair_of P K (ContextBound d) payload n)) env x = Some (Inl InvalidEnvelope)"
proof -
  let ?c = "bench_config ''receiver'' RECEIVER_SIGNER_ID SENDER_SIGNER_ID (ContextBound d') payload n"
  have "cipher_bound ?c = cipher_bound (receiver_config (pair_of P K (ContextBound d) payload n))"
    by (cases payload) (simp_all add: cipher_bound_def bench_config_def)
  moreover have "authentication_mode ?c = ContextBound d'" by (simp add: bench_config_def)
  ultimately show ?thesis
    using pair_bound [OF opens] assms(5)
    by (intro refusedI [OF wrong_context_refused [OF core seal, where s = "skey K SENDER_SIGNING"]])
      (simp_all add: b)
qed

lemma pair_wrong_keys:
  assumes core: "test_core P L K"
    and seal: "sender_seal P K mode payload n p x w = (Inr env, w')"
    and opens: "receiver_open P K mode payload n env x = Some (Inr p)"
  shows "envelope_open P (receiver_config (pair_of P K mode payload n))
      (bench_keys P K RECEIVER_SIGNING UNRELATED_KEY SENDER_SIGNING SENDER_DECRYPTION) env x = Some (Inl InvalidEnvelope)"
    and "binds_message P mode x p \<Longrightarrow> envelope_open P (receiver_config (pair_of P K mode payload n))
      (bench_keys P K RECEIVER_SIGNING RECEIVER_DECRYPTION UNRELATED_KEY SENDER_DECRYPTION) env x = Some (Inl InvalidEnvelope)"
proof -
  note keys = test_coreD(4) [OF core]
  have apart: "skey K UNRELATED_KEY \<noteq> skey K RECEIVER_DECRYPTION" "skey K UNRELATED_KEY \<noteq> skey K SENDER_SIGNING"
    using skey_inject [OF keys] by (simp_all add: test_scalars)
  show "envelope_open P (receiver_config (pair_of P K mode payload n))
      (bench_keys P K RECEIVER_SIGNING UNRELATED_KEY SENDER_SIGNING SENDER_DECRYPTION) env x = Some (Inl InvalidEnvelope)"
    by (rule refusedI [OF wrong_decryption_refused [OF core seal, where s = "skey K RECEIVER_DECRYPTION"]])
      (simp_all add: bench_keys_def apart pair_bound [OF opens])
  assume b: "binds_message P mode x p"
  show "envelope_open P (receiver_config (pair_of P K mode payload n))
      (bench_keys P K RECEIVER_SIGNING RECEIVER_DECRYPTION UNRELATED_KEY SENDER_DECRYPTION) env x = Some (Inl InvalidEnvelope)"
    by (rule refusedI [OF wrong_verification_refused [OF core seal, where s = "skey K UNRELATED_KEY"]])
      (simp_all add: bench_keys_def b apart pair_bound [OF opens])
qed

lemma wrong_keys_eq:
  assumes "test_core P L K"
  shows "key_material P L K RECEIVER_SIGNING UNRELATED_KEY SENDER_SIGNING SENDER_DECRYPTION =
      Some (bench_keys P K RECEIVER_SIGNING UNRELATED_KEY SENDER_SIGNING SENDER_DECRYPTION)"
    "key_material P L K RECEIVER_SIGNING RECEIVER_DECRYPTION UNRELATED_KEY SENDER_DECRYPTION =
      Some (bench_keys P K RECEIVER_SIGNING RECEIVER_DECRYPTION UNRELATED_KEY SENDER_DECRYPTION)"
  using key_material_eq [OF test_coreD(4) [OF assms]] by (simp_all add: test_scalars)

text \<open>A receiver with the same keys and a smaller limit, when the encoded cipher text still fits.\<close>

lemma frame_of_inject:
  assumes "frame_of alg n ct tag = frame_of alg n' ct' tag'" "length n = length n'" "length tag = length tag'"
  shows "n = n' \<and> ct = ct' \<and> tag = tag'"
  using assms by (simp add: frame_of_def)

lemma open_same_payload:
  assumes "envelope_open P c k env x = Some (Inr p)" "envelope_open P c' k env x = Some (Inr q)"
    and "envelope_mode c' = envelope_mode c" "iv c' = iv c" "authentication_mode c' = authentication_mode c"
  shows "q = p"
proof (cases "envelope_mode c")
  case LegacyCbc
  with assms show ?thesis by (auto simp: opens_to_iff opens_to_def cbc_unwrapped_def)
next
  case (Aead alg)
  with assms show ?thesis
    by (auto simp: opens_to_iff opens_to_def aead_accepts_def dest!: frame_of_inject)
qed

lemma smaller_limit_refused:
  assumes core: "test_core P L K" and lim: "pair_limits mode payload n"
    and seal: "sender_seal P K mode payload n p x w = (Inr env, w')"
    and opens: "receiver_open P K mode payload n env x = Some (Inr p)"
    and len: "m < length p" and fits: "4 * ((sealed_len payload (length p) + 2) div 3) \<le>
      cipher_bound (receiver_config (pair_of P K mode payload m))"
  shows "receiver_open P K mode payload m env x = Some (Inl InvalidEnvelope)"
proof (rule refusedI)
  have same: "receiver_keys (pair_of P K mode payload m) = receiver_keys (pair_of P K mode payload n)"
    by (simp add: pair_of_def)
  show "receiver_open P K mode payload m env x \<noteq> Some (Inr q)" for q
  proof
    assume o: "receiver_open P K mode payload m env x = Some (Inr q)"
    have "q = p" by (rule open_same_payload [OF opens o [unfolded same]]) simp_all
    with env.within [OF test_coreD(2) [OF core] o] len show False by simp
  qed
  show "str_len (cipher env) \<le> cipher_bound (receiver_config (pair_of P K mode payload m))"
    using envelope_seal_size [OF test_coreD(1) [OF core] pair_configs_ok(1) [OF lim] seal] fits by simp
qed

lemma sealed_run:
  "envelope_seal P c k p x w = (Inr env, w') \<Longrightarrow> sealed P c k p x (w, calls) = (Inr env, (w', calls))"
  by (simp add: sealed_def bindW_def sealT_def expectT_def unwrapT_def)

lemma pure_steps:
  "bindW (unwrapT (Some a)) f = f a"
  "bindW (assertT b) g s = (if b then g () s else (Inl (), s))"
  "snd (assertT b s) = s"
  by (simp_all add: unwrapT_def assertT_def assert_that_def)

text \<open>Two envelopes sealed one after the other have different session keys.\<close>

lemma second_seal_is_fresh:
  assumes core: "test_core P L K" and fresh: "fresh_source P age n"
    and seal: "envelope_seal P c k p x w = (Inr env, w')" "envelope_seal P c k p x w' = (Inr env', w'')"
    and bound: "age w'' \<le> n" and sk: "remote_encryption k = sm2_public_key P s"
  obtains key key' wrapped wrapped' b b' where "key \<noteq> key'" "length key = 16" "length key' = 16"
    "carries P c x key p b" "carries P c x key' p b'"
    "cipher env = base64_encode P b" "cipher env' = base64_encode P b'"
    "wrapped_session_key env = base64_encode P wrapped" "wrapped_session_key env' = base64_encode P wrapped'"
    "sm2_decrypt P s wrapped = Some key" "sm2_decrypt P s wrapped' = Some key'"
proof -
  let ?cl = "\<lparr>config = c, keys = k, adapter = undefined\<rparr>"
  have ages: "age w < age w'" "age w' < age w''"
    using seal_ages [OF fresh, of ?cl p x] seal by (simp_all add: SecureClient_seal_def)
  obtain key w1 wrapped w2 w3 b where 1: "getrandom_fill P 16 w = (Some key, w1)" "length key = 16"
    "carries P c x key p b" "sm2_encrypt P (remote_encryption k) key w2 = (Some wrapped, w3)"
    "cipher env = base64_encode P b" "wrapped_session_key env = base64_encode P wrapped"
    by (rule seal_parts [OF core seal(1)]) auto
  obtain key' w1' wrapped' w2' w3' b' where 2: "getrandom_fill P 16 w' = (Some key', w1')" "length key' = 16"
    "carries P c x key' p b'" "sm2_encrypt P (remote_encryption k) key' w2' = (Some wrapped', w3')"
    "cipher env' = base64_encode P b'" "wrapped_session_key env' = base64_encode P wrapped'"
    by (rule seal_parts [OF core seal(2)]) auto
  have "key \<noteq> key'"
    using fresh_draws [OF fresh _ ages(1), of 16 key key'] ages(2) bound 1(1) 2(1) by simp
  moreover have "sm2_decrypt P s wrapped = Some key" "sm2_decrypt P s wrapped' = Some key'"
    using 1(4) 2(4) sk crypto_lawsD(3) [OF test_coreD(1) [OF core]] unfolding sm2_laws_def by metis+
  ultimately show ?thesis using that 1 2 by blast
qed

lemma over_bound_refused:
  assumes "cipher_bound c < str_len (cipher env)"
  shows "envelope_open P c k env x = Some (Inl (MessageTooLarge (max_plaintext_bytes c)))"
proof -
  obtain r where r: "envelope_open P c k env x = Some r" using env.returns by blast
  show ?thesis
  proof (cases r)
    case (Inl e)
    with r env.refused [of P c k env x e] assms show ?thesis by simp
  next
    case (Inr p)
    with r env.accepted [of P c k env x p] assms show ?thesis by simp
  qed
qed

lemma undecodable_fields:
  assumes core: "test_core P L K"
  shows "base64_decode P (lit ''!!!!'') = None" "base64_decode P (lit ''AA'') = None" "base64_decode P (lit ''AB=='') = None"
    "str_len (lit ''!!!!'') = 4" "str_len (lit ''AA'') = 2"
  unfolding test_coreD(8) [OF core] by (simp_all add: lit_def b64_val_def str_len_ascii)

lemma passes_run: "m s = (Inr a, s') \<Longrightarrow> passes m s Q \<longleftrightarrow> Q a s'"
  by (simp add: passes_def)

lemma wrapped_for_receiver:
  assumes core: "test_core P L K"
  obtains c w' where "\<forall>calls. wrapped_plaintext_for_receiver P K bs (w, calls) = (Inr (base64_encode P c), (w', calls))"
    "sm2_decrypt P (skey K RECEIVER_DECRYPTION) c = Some bs"
proof -
  obtain c w' where c: "sm2_encrypt P (sm2_public_key P (skey K RECEIVER_DECRYPTION)) bs w = (Some c, w')"
    using availableD(2) [OF test_coreD(3) [OF core]] by blast
  have "raw_private_key K RECEIVER_DECRYPTION = Some (skey K RECEIVER_DECRYPTION)"
    by (rule raw_key [OF test_coreD(4) [OF core]]) (simp add: test_scalars)
  then have "\<forall>calls. wrapped_plaintext_for_receiver P K bs (w, calls) = (Inr (base64_encode P c), (w', calls))"
    using c by (simp add: wrapped_plaintext_for_receiver_def bindW_def unwrapT_def)
  moreover have "sm2_decrypt P (skey K RECEIVER_DECRYPTION) c = Some bs"
    using c crypto_lawsD(3) [OF test_coreD(1) [OF core]] unfolding sm2_laws_def by blast
  ultimately show ?thesis by (rule that)
qed

lemma pair_wrong_length:
  assumes core: "test_core P L K" and opens: "receiver_open P K mode payload n env x = Some (Inr p)"
    and "sm2_decrypt P (skey K RECEIVER_DECRYPTION) c = Some bs" "length bs \<noteq> 16"
  shows "receiver_open P K mode payload n (env\<lparr>wrapped_session_key := base64_encode P c\<rparr>) x = Some (Inl InvalidEnvelope)"
  by (rule refusedI [OF unwrapped_refused [of _ _ c]])
    (use assms(3,4) pair_bound [OF opens] in \<open>simp_all add: base64_core [OF core]\<close>)

lemma sealed_signature:
  assumes core: "test_core P L K" and seal: "envelope_seal P c k p x w = (Inr env, w')"
  obtains s where "base64_decode P (signature env) = Some s" "flip_final_byte s = Some (flip_last s)"
proof -
  obtain t w3 s where s: "sm2_sign_with_id P (local_signing k) (local_signer_id c) t w3 = (Some s, w')"
    "signature env = base64_encode P s"
    by (rule seal_parts [OF core seal]) auto
  have "s \<noteq> []" using crypto_lawsD(4) [OF test_coreD(1) [OF core]] s(1) unfolding sm2_sizes_def by fastforce
  with s(2) show ?thesis by (intro that [of s]) (simp_all add: base64_core [OF core] flip_final_byte_eq)
qed

end
