(* ===== verification/Test_Instance.thy ===== *)
theory Test_Instance
  imports Test_Support
begin

text \<open>
  A concrete instance of everything the unit tests rely on: the stand-ins of \<^verbatim>\<open>Concrete\<close> with
  ASN.1-like framing, a CBC stand-in whose first block depends on the key, authentication
  tags that contain the nonce, and signatures that tell the transcripts of a given list
  apart. It shows that the laws named in \<^verbatim>\<open>Test_Support\<close> can hold together.
\<close>

unbundle bit_operations_syntax

section \<open>The instance\<close>

fun mark :: "bytes list \<Rightarrow> bytes \<Rightarrow> nat" where
  "mark [] t = 0"
| "mark (a # r) t = (if a = t then Suc (length r) else mark r t)"

definition mix :: "bytes \<Rightarrow> bytes \<Rightarrow> bytes" where
  "mix k c = map2 (XOR) (take 16 c) k @ drop 16 c"

definition nonce_tag :: "bytes \<Rightarrow> bytes \<Rightarrow> bytes" where
  "nonce_tag n a = n @ replicate 4 (checksum a)"

definition marked_signature :: "bytes list \<Rightarrow> byte \<Rightarrow> bytes \<Rightarrow> bytes \<Rightarrow> bytes" where
  "marked_signature T k i t = [0x30, 5, 0x02, k, checksum i, word_of_nat (mark T t), 0]"

definition tested_core :: "bytes list \<Rightarrow> (nat, byte, byte) crypto" where
  "tested_core T = plain_crypto
     \<lparr>sm2_encrypt := (\<lambda>pk m w. (Some (0x30 # pk # m), w + 1)),
      sm2_decrypt := (\<lambda>sk c. case c of a # k # m \<Rightarrow> if a = 0x30 \<and> k = sk then Some m else None | _ \<Rightarrow> None),
      sm2_sign_with_id := (\<lambda>sk i m w. (Some (marked_signature T sk i m), w + 1)),
      sm2_verify_with_id := (\<lambda>pk i m s. s = marked_signature T pk i m),
      cbc_encrypt := (\<lambda>k v p. mix k (pkcs7 p)),
      cbc_decrypt := (\<lambda>k v c. if length k = 16 then pkcs7_strip (mix k c) else None),
      gcm_encrypt := (\<lambda>k n a p. if length n = 12 then Some (p, nonce_tag n a) else None),
      gcm_decrypt := (\<lambda>k n a c t. if length n = 12 \<and> t = nonce_tag n a then Some c else None),
      ccm_encrypt := (\<lambda>k n a p l. if length n = 12 \<and> l = 16 then Some (p @ nonce_tag n a) else None),
      ccm_decrypt := (\<lambda>k n a j l. if length n = 12 \<and> l = 16 \<and> 16 \<le> length j \<and> drop (length j - 16) j = nonce_tag n a
         then Some (take (length j - 16) j) else None)\<rparr>"

definition tested_lib :: "(byte, byte, byte) key_lib" where
  "tested_lib = \<lparr>pem_decode = (\<lambda>_ _. None), pkcs8_decrypt = (\<lambda>_ _. None),
     spki_decode = (\<lambda>d. case d of [k] \<Rightarrow> Some k | _ \<Rightarrow> None), x509_from_der = (\<lambda>_. None), subject_public_key = (\<lambda>c. c),
     to_bytes_be = (\<lambda>k. (replicate 32 0)[31 := k]), to_sec1_uncompressed = (\<lambda>k. Some [k])\<rparr>"

definition tested_raw :: "(byte, byte) raw_keys" where
  "tested_raw = \<lparr>from_bytes_be = (\<lambda>b. if b = (replicate 32 0)[31 := last b] then Some (last b) else None),
     spki_encode = (\<lambda>k. [k])\<rparr>"

section \<open>Its laws\<close>

lemma length_mix: "length k = 16 \<Longrightarrow> length (mix k c) = length c"
  by (simp add: mix_def)

lemma mix_mix: "length k = 16 \<Longrightarrow> mix k (mix k c) = c"
proof -
  assume k: "length k = 16"
  have "map2 (XOR) (map2 (XOR) x k) k = x" if "length x \<le> length k" for x k :: bytes
    using that
  proof (induction x arbitrary: k)
    case (Cons a x)
    then show ?case by (cases k) (simp_all add: xor.assoc)
  qed simp
  then show ?thesis using k by (cases "length c \<le> 16") (simp_all add: mix_def min_def)
qed

lemma xor_left_cancel:
  fixes a :: byte
  assumes "a XOR b = a XOR c"
  shows "b = c"
proof -
  from assms have "(a XOR a) XOR b = (a XOR a) XOR c" unfolding xor.assoc by simp
  then show ?thesis by simp
qed

lemma mix_key: "length k = 16 \<Longrightarrow> length k' = 16 \<Longrightarrow> 16 \<le> length c \<Longrightarrow> mix k c = mix k' c \<Longrightarrow> k = k'"
proof -
  assume l: "length k = 16" "length k' = 16" "16 \<le> length c" and eq: "mix k c = mix k' c"
  have "k = k'" if "length x = length k" "length k = length k'" "map2 (XOR) x k = map2 (XOR) x k'" for x k k' :: bytes
    using that
  proof (induction x k k' rule: list_induct3)
    case (Cons a x b y c z)
    then have "a XOR b = a XOR c" by simp
    then have "b = c" by (rule xor_left_cancel)
    with Cons show ?case by simp
  qed simp
  from this [of "take 16 c" k k'] l eq show ?thesis by (simp add: mix_def)
qed

lemma pkcs7_exact: "pkcs7_strip c = Some p \<Longrightarrow> c = pkcs7 p"
proof -
  assume s: "pkcs7_strip c = Some p"
  define n where "n = unat (last c)"
  have c: "length c mod 16 = 0" "1 \<le> n" "n \<le> 16" "drop (length c - n) c = replicate n (last c)"
    "p = take (length c - n) c" "c \<noteq> []"
    using s by (auto simp: pkcs7_strip_def Let_def n_def split: if_splits)
  have "16 \<le> length c" using c(1,6) by (metis dvd_imp_le length_greater_0_conv mod_0_imp_dvd)
  then have len: "length p = length c - n" "n \<le> length c" using c(3,5) by simp_all
  have "(length p mod 16 + n) mod 16 = 0" using len c(1) by (simp add: mod_add_left_eq)
  then obtain k where k: "length p mod 16 + n = 16 * k" by auto
  moreover have "0 < length p mod 16 + n" "length p mod 16 + n < 32" using c(2,3) mod_less_divisor [of 16 "length p"] by simp_all
  then have "0 < k" "k < 2" unfolding k by simp_all
  then have "k = 1" by simp
  with k have "16 - length p mod 16 = n" by simp
  moreover have "word_of_nat n = last c" by (simp add: n_def)
  ultimately show ?thesis
    using c(4,5) by (simp add: pkcs7_def) (metis append_take_drop_id)
qed

lemma mark_bound: "mark T t \<le> length T"
  by (induction T) auto

lemma mark_head: "mark (a # r) s = Suc (length r) \<longleftrightarrow> s = a"
  using mark_bound [of r s] by auto

lemma mark_inject: "mark T t = mark T t' \<Longrightarrow> t \<in> set T \<Longrightarrow> t = t'"
proof (induction T)
  case (Cons a r)
  show ?case
  proof (cases "t = a \<or> t' = a")
    case True
    with Cons.prems(1) mark_head [of a r t] mark_head [of a r t'] show ?thesis by metis
  next
    case False
    with Cons show ?thesis by auto
  qed
qed simp

lemma tested_lib_keys: "keys_ok (tested_core T) tested_lib tested_raw"
proof -
  have "x = y" if "(replicate 32 0)[31 := x] = (replicate 32 0)[31 := y]" for x y :: byte
    using arg_cong [OF that, of "\<lambda>l. l ! 31"] by simp
  then have "loaders_reject_identity tested_lib" "key_encodings_faithful tested_lib"
    by (auto simp: loaders_reject_identity_def key_encodings_faithful_def tested_lib_def inj_def)
  moreover have "raw_private_key tested_raw s = Some s" for s
    by (simp add: raw_private_key_def tested_raw_def last_list_update)
  ultimately show ?thesis
    by (auto simp: keys_ok_def tested_raw_def tested_lib_def tested_core_def plain_crypto_def inj_def
        split: if_splits)
qed

lemma nonce_tag_length: "length n = 12 \<Longrightarrow> length (nonce_tag n a) = 16"
  by (simp add: nonce_tag_def)

lemma tested_laws: "crypto_laws (tested_core T)"
proof -
  have "os_laws (tested_core T)" "base64_laws (tested_core T)"
    using plain_crypto_laws by (simp_all add: crypto_laws_def os_laws_def base64_laws_def tested_core_def)
  moreover have "sm2_laws (tested_core T)" "sm2_sizes (tested_core T)"
    by (auto simp: sm2_laws_def sm2_sizes_def tested_core_def plain_crypto_def marked_signature_def)
  moreover have "cbc_laws (tested_core T)"
    by (simp add: cbc_laws_def tested_core_def mix_mix pkcs7_round_trip length_mix pkcs7_length)
  moreover have "gcm_laws (tested_core T)" "ccm_laws (tested_core T)"
    by (auto simp: gcm_laws_def ccm_laws_def tested_core_def nonce_tag_length split: if_splits)
  ultimately show ?thesis by (simp add: crypto_laws_def)
qed

lemma tested_decrypt: "sm2_decrypt (tested_core T) sk c = Some m \<longleftrightarrow> c = 0x30 # sk # m"
  by (auto simp: tested_core_def split: list.splits)

lemma tested_ok: "test_core (tested_core T) tested_lib tested_raw"
proof -
  have "aead_sizes (tested_core T)"
    by (auto simp: aead_sizes_def tested_core_def split: if_splits)
  moreover have "available (tested_core T)"
    by (simp add: available_def tested_core_def plain_crypto_def counting_os_def)
  moreover have "sm2_strict (tested_core T)"
    unfolding sm2_strict_def not_None_eq
    by (auto simp: tested_decrypt) (auto simp: tested_core_def plain_crypto_def marked_signature_def)
  moreover have "ciphers_exact (tested_core T)"
    by (auto simp: ciphers_exact_def tested_core_def mix_mix nonce_tag_def split: if_splits dest!: pkcs7_exact)
      (metis mix_mix, metis append_take_drop_id)
  ultimately show ?thesis
    using tested_laws tested_lib_keys by (simp add: test_core_def tested_core_def plain_crypto_def)
qed

lemma tested_binds:
  assumes "length T < 256" "t \<in> set T"
  shows "binds (tested_core T) t"
proof -
  have byte: "unat (word_of_nat (mark T s) :: byte) = mark T s" for s
    using mark_bound [of T s] assms(1) by (simp add: unat_of_nat take_bit_nat_eq_self)
  have same: "t' = t" if "(word_of_nat (mark T t') :: byte) = word_of_nat (mark T t)" for t'
    using byte [of t'] byte [of t] that mark_inject [of T t t'] assms(2) by metis
  have signed: "s = marked_signature T sk i t" if "sm2_sign_with_id (tested_core T) sk i t w = (Some s, w')" for sk i w s w'
    using that by (simp add: tested_core_def)
  have verified: "sm2_verify_with_id (tested_core T) pk i t' s \<longleftrightarrow> s = marked_signature T pk i t'" for pk i t' s
    by (simp add: tested_core_def)
  show ?thesis
    unfolding binds_def
  proof (intro allI impI conjI)
    fix sk i w s w' sk' i' t'
    assume "sm2_sign_with_id (tested_core T) sk i t w = (Some s, w')"
    note s = signed [OF this]
    assume "sm2_verify_with_id (tested_core T) (sm2_public_key (tested_core T) sk') i' t' s"
    then have eq: "sm2_public_key (tested_core T) sk' = sk" "(word_of_nat (mark T t) :: byte) = word_of_nat (mark T t')"
      by (simp_all add: verified s marked_signature_def)
    show "sm2_public_key (tested_core T) sk' = sm2_public_key (tested_core T) sk"
      using eq(1) by (simp add: tested_core_def plain_crypto_def)
    show "t' = t" by (rule same [OF eq(2) [symmetric]])
  next
    fix sk i w s w' pk i' t'
    assume "sm2_sign_with_id (tested_core T) sk i t w = (Some s, w')"
    note s = signed [OF this]
    show "\<not> sm2_verify_with_id (tested_core T) pk i' t' (flip_last s)"
      by (simp add: verified s flip_last_def marked_signature_def)
  qed
qed

lemma tested_fresh: "fresh_source (tested_core T) (\<lambda>w. w) 255"
proof -
  have "(word_of_nat w :: byte) \<noteq> word_of_nat w'" if "w < w'" "w' \<le> 255" for w w'
    using that by (simp add: word_of_nat_eq_iff take_bit_nat_eq_self)
  then show ?thesis
    by (auto simp: fresh_source_def tested_core_def plain_crypto_def counting_os_def)
qed

lemma tested_seal_world: "envelope_seal (tested_core T) c k p x w = (Inr env, w') \<Longrightarrow> w' \<le> w + 4"
proof -
  assume s: "envelope_seal (tested_core T) c k p x w = (Inr env, w')"
  then show ?thesis
    using envelope_seal_within [OF s]
    by (cases "envelope_mode c")
      (auto simp: envelope_seal_mode cbc_seal_iff aead_seal_iff tested_core_def plain_crypto_def counting_os_def)
qed

lemma tested_keyed:
  "length k = 16 \<Longrightarrow> length k' = 16 \<Longrightarrow> k \<noteq> k' \<Longrightarrow>
    cbc_encrypt (tested_core T) k v p \<noteq> cbc_encrypt (tested_core T) k' v p"
  using mix_key [of k k' "pkcs7 p"] by (auto simp: tested_core_def pkcs7_length)

text \<open>The transcripts of the messages that the tests of a module tamper with.\<close>

definition signed_transcripts :: "(AuthenticationMode \<times> AuthenticationContext \<times> bytes) list \<Rightarrow> bytes list" where
  "signed_transcripts ms =
     concat (map (\<lambda>(m, x, p). case authentication_input m x p of Inr t \<Rightarrow> [t] | Inl _ \<Rightarrow> []) ms)"

lemma signed_transcripts_length: "length (signed_transcripts ms) \<le> length ms"
  by (induction ms) (auto simp: signed_transcripts_def split: sum.splits)

lemma tested_binds_messages:
  assumes "length ms < 256" "(m, x, p) \<in> set ms"
  shows "binds_message (tested_core (signed_transcripts ms)) m x p"
  unfolding binds_message_def
proof (intro allI impI)
  fix t
  assume "authentication_input m x p = Inr t"
  then have "t \<in> set (signed_transcripts ms)" using assms(2) by (force simp: signed_transcripts_def)
  with tested_binds signed_transcripts_length [of ms] assms(1)
  show "binds (tested_core (signed_transcripts ms)) t" by simp
qed

end
