(* ===== verification/Cbc_Tests.thy ===== *)
theory Cbc_Tests
  imports Test_Instance
begin

text \<open>
  The unit tests of \<^verbatim>\<open>src/envelope_crypto/cbc.rs\<close>, one definition per test function. They are
  shown to pass for every implementation of SM2, SM4 and Base64 with the behaviour that
  \<open>test_core\<close> names, so each run of the suite is an instance of these theorems. The argument
  \<open>aead\<close> is the crate feature: the suite runs with and without it.
\<close>

unbundle bit_operations_syntax

section \<open>Round trips\<close>

definition legacy_exact_plaintext_round_trips_in_both_directions_with_distinct_roles ::
  "bool \<Rightarrow> ('w, 'sk, 'pk, 'cert) core_test" where
  "legacy_exact_plaintext_round_trips_in_both_directions_with_distinct_roles aead P L K =
     bindW (unwrapT (test_peers aead P L K LegacyPlaintext 256)) (\<lambda>ps.
     (let ctx = legacy_context;
          sender_plaintext = blit ''sender signs exactly these bytes'' @ [0] @ blit ''with no framing'' in
      bindW (sealed P (sender_config ps) (sender_keys ps) sender_plaintext ctx) (\<lambda>sender_envelope.
      bindW (unwrapT (base64_decode P (signature sender_envelope))) (\<lambda>sender_signature.
      bindW (unwrapT (raw_private_key K SENDER_SIGNING)) (\<lambda>k.
      bindW (assertT (sm2_verify_with_id P (sm2_public_key P k) SENDER_SIGNER_ID sender_plaintext sender_signature)) (\<lambda>_.
      bindW (assert_opens P (receiver_config ps) (receiver_keys ps) sender_envelope ctx sender_plaintext) (\<lambda>_.
      (let receiver_plaintext = blit ''receiver response uses inverse directional roles'' in
       bindW (sealed P (receiver_config ps) (receiver_keys ps) receiver_plaintext ctx) (\<lambda>receiver_envelope.
       assert_opens P (sender_config ps) (sender_keys ps) receiver_envelope ctx receiver_plaintext)))))))))"

definition context_bound_round_trip_rejects_different_or_wrong_context_kinds ::
  "bool \<Rightarrow> ('w, 'sk, 'pk, 'cert) core_test" where
  "context_bound_round_trip_rejects_different_or_wrong_context_kinds aead P L K =
     bindW (expectT (AuthenticationMode_context_bound (blit ''example/request/v1''))) (\<lambda>mode.
     bindW (unwrapT (test_peers aead P L K mode 256)) (\<lambda>ps.
     bindW (expectT (AuthenticationContext_context_bound (blit ''operation=pay&id=17''))) (\<lambda>ctx.
     bindW (sealed P (sender_config ps) (sender_keys ps) (blit ''context-bound payload'') ctx) (\<lambda>env.
     bindW (assert_opens P (receiver_config ps) (receiver_keys ps) env ctx (blit ''context-bound payload'')) (\<lambda>_.
     bindW (expectT (AuthenticationContext_context_bound (blit ''operation=pay&id=18''))) (\<lambda>different.
     bindW (assert_refused P (receiver_config ps) (receiver_keys ps) env different) (\<lambda>_.
     bindW (assert_refused P (receiver_config ps) (receiver_keys ps) env legacy_context) (\<lambda>_.
     bindW (sealT P (sender_config ps) (sender_keys ps) (blit ''wrong context kind'') legacy_context) (\<lambda>r.
     bindW (expect_errT r) (\<lambda>seal_error.
     assertT (seal_error = AuthenticationContextError)))))))))))"

definition context_bound_round_trip_preserves_exact_unicode_utf8_bytes ::
  "bool \<Rightarrow> ('w, 'sk, 'pk, 'cert) core_test" where
  "context_bound_round_trip_preserves_exact_unicode_utf8_bytes aead P L K =
     bindW (expectT (AuthenticationMode_context_bound (blit ''example/unicode/v1''))) (\<lambda>mode.
     bindW (unwrapT (test_peers aead P L K mode 256)) (\<lambda>ps.
     bindW (expectT (AuthenticationContext_context_bound (blit ''operation=unicode''))) (\<lambda>ctx.
     bindW (sealed P (sender_config ps) (sender_keys ps) unicode_plaintext ctx) (\<lambda>env.
     assert_opens P (receiver_config ps) (receiver_keys ps) env ctx unicode_plaintext))))"

definition context_bound_domain_separator_is_part_of_the_verified_transcript ::
  "bool \<Rightarrow> ('w, 'sk, 'pk, 'cert) core_test" where
  "context_bound_domain_separator_is_part_of_the_verified_transcript aead P L K =
     bindW (expectT (AuthenticationMode_context_bound (blit ''example/request/v1''))) (\<lambda>sender_mode.
     bindW (expectT (AuthenticationMode_context_bound (blit ''example/response/v1''))) (\<lambda>receiver_mode.
     bindW (unwrapT (test_peers aead P L K sender_mode 256)) (\<lambda>ps.
     bindW (unwrapT (test_config aead ''receiver'' RECEIVER_SIGNER_ID SENDER_SIGNER_ID receiver_mode 256))
       (\<lambda>mismatched_receiver_config.
     bindW (expectT (AuthenticationContext_context_bound (blit ''operation=pay&id=17''))) (\<lambda>ctx.
     bindW (sealed P (sender_config ps) (sender_keys ps) (blit ''domain-separated payload'') ctx) (\<lambda>env.
     assert_refused P mismatched_receiver_config (receiver_keys ps) env ctx))))))"

definition empty_plaintext_round_trips :: "bool \<Rightarrow> ('w, 'sk, 'pk, 'cert) core_test" where
  "empty_plaintext_round_trips aead P L K =
     bindW (unwrapT (test_peers aead P L K LegacyPlaintext 32)) (\<lambda>ps.
     bindW (sealed P (sender_config ps) (sender_keys ps) [] legacy_context) (\<lambda>env.
     assert_opens P (receiver_config ps) (receiver_keys ps) env legacy_context []))"

definition SWEEP_LENGTHS :: "usize list" where
  "SWEEP_LENGTHS = [0, 1, 2, 3, 4, 5, 15, 16, 17, 31, 32, 33, 47, 48, 49, 63, 64, 65, 255, 256, 257, 1023, 1024, 1025]"

definition cbc_sweep_case ::
  "('w, 'sk, 'pk) crypto \<Rightarrow> ('sk, 'pk) Peers \<Rightarrow> AuthenticationContext \<Rightarrow> usize \<Rightarrow> ('w, unit) test" where
  "cbc_sweep_case P ps ctx n =
     (let plaintext = sweep_plaintext n in
      bindW (sealed P (sender_config ps) (sender_keys ps) plaintext ctx) (\<lambda>env.
      bindW (opened P (receiver_config ps) (receiver_keys ps) env ctx) (\<lambda>p.
      assertT (p = plaintext))))"

definition plaintext_length_sweep_round_trips_across_block_and_base64_boundaries ::
  "bool \<Rightarrow> ('w, 'sk, 'pk, 'cert) core_test" where
  "plaintext_length_sweep_round_trips_across_block_and_base64_boundaries aead P L K =
     bindW (expectT (AuthenticationMode_context_bound (blit ''example/sweep/v1''))) (\<lambda>bound_mode.
     bindW (expectT (AuthenticationContext_context_bound (blit ''operation=sweep''))) (\<lambda>bound_context.
     for_eachW (\<lambda>(mode, ctx).
       bindW (unwrapT (test_peers aead P L K mode 2048)) (\<lambda>ps.
       for_eachW (cbc_sweep_case P ps ctx) SWEEP_LENGTHS))
       [(LegacyPlaintext, legacy_context), (bound_mode, bound_context)]))"

definition configured_plaintext_boundary_round_trips :: "bool \<Rightarrow> ('w, 'sk, 'pk, 'cert) core_test" where
  "configured_plaintext_boundary_round_trips aead P L K =
     bindW (unwrapT (test_peers aead P L K LegacyPlaintext 64)) (\<lambda>ps.
     (let plaintext = replicate 64 0xa5 in
      bindW (sealed P (sender_config ps) (sender_keys ps) plaintext legacy_context) (\<lambda>env.
      assert_opens P (receiver_config ps) (receiver_keys ps) env legacy_context plaintext)))"

definition every_seal_uses_a_fresh_random_session_key :: "bool \<Rightarrow> ('w, 'sk, 'pk, 'cert) core_test" where
  "every_seal_uses_a_fresh_random_session_key aead P L K =
     bindW (unwrapT (test_peers aead P L K LegacyPlaintext 128)) (\<lambda>ps.
     (let plaintext = blit ''same payload'' in
      bindW (sealed P (sender_config ps) (sender_keys ps) plaintext legacy_context) (\<lambda>first_envelope.
      bindW (sealed P (sender_config ps) (sender_keys ps) plaintext legacy_context) (\<lambda>second_envelope.
      bindW (assertT (cipher first_envelope \<noteq> cipher second_envelope)) (\<lambda>_.
      bindW (unwrapT (raw_private_key K RECEIVER_DECRYPTION)) (\<lambda>receiver_private.
      bindW (unwrapT (base64_decode P (wrapped_session_key first_envelope))) (\<lambda>first_wrapped.
      bindW (unwrapT (base64_decode P (wrapped_session_key second_envelope))) (\<lambda>second_wrapped.
      bindW (unwrapT (sm2_decrypt P receiver_private first_wrapped)) (\<lambda>first_key.
      bindW (unwrapT (sm2_decrypt P receiver_private second_wrapped)) (\<lambda>second_key.
      assertT (first_key \<noteq> second_key)))))))))))"

section \<open>Size limits\<close>

definition seal_rejects_plaintext_over_the_configured_limit :: "bool \<Rightarrow> ('w, 'sk, 'pk, 'cert) core_test" where
  "seal_rejects_plaintext_over_the_configured_limit aead P L K =
     bindW (unwrapT (test_peers aead P L K LegacyPlaintext 8)) (\<lambda>ps.
     bindW (sealT P (sender_config ps) (sender_keys ps) (blit ''123456789'') legacy_context) (\<lambda>r.
     bindW (expect_errT r) (\<lambda>error. assertT (error = MessageTooLarge 8))))"

definition oversized_encoded_or_decoded_cipher_is_rejected_before_key_operations ::
  "bool \<Rightarrow> ('w, 'sk, 'pk, 'cert) core_test" where
  "oversized_encoded_or_decoded_cipher_is_rejected_before_key_operations aead P L K =
     bindW (unwrapT (test_peers aead P L K LegacyPlaintext 17)) (\<lambda>ps.
     (let encoded_too_large = \<lparr>cipher = replicate 45 33, wrapped_session_key = lit ''not Base64'',
            signature = lit ''not Base64''\<rparr> in
      bindW (openT P (receiver_config ps) (receiver_keys ps) encoded_too_large legacy_context) (\<lambda>r.
      bindW (expect_errT r) (\<lambda>encoded_error.
      bindW (assertT (encoded_error = MessageTooLarge 17)) (\<lambda>_.
      (let decoded_too_large = \<lparr>cipher = base64_encode P (replicate 33 0), wrapped_session_key = lit ''not Base64'',
             signature = lit ''not Base64''\<rparr> in
       bindW (openT P (receiver_config ps) (receiver_keys ps) decoded_too_large legacy_context) (\<lambda>r.
       bindW (expect_errT r) (\<lambda>decoded_error.
       assertT (decoded_error = InvalidEnvelope)))))))))"

definition oversized_wrapped_key_and_signature_inputs_are_bounded :: "bool \<Rightarrow> ('w, 'sk, 'pk, 'cert) core_test" where
  "oversized_wrapped_key_and_signature_inputs_are_bounded aead P L K =
     bindW (unwrapT (test_peers aead P L K LegacyPlaintext 128)) (\<lambda>ps.
     bindW (sealed P (sender_config ps) (sender_keys ps) (blit ''bounded auxiliary fields'') legacy_context) (\<lambda>valid.
     (let oversized = replicate (16 * 1024 + 1) 65 in
      bindW (assert_refused P (receiver_config ps) (receiver_keys ps)
        (valid\<lparr>wrapped_session_key := oversized\<rparr>) legacy_context) (\<lambda>_.
      assert_refused P (receiver_config ps) (receiver_keys ps) (valid\<lparr>signature := oversized\<rparr>) legacy_context))))"

definition post_decrypt_oversize_and_unverified_plaintext_are_never_returned ::
  "bool \<Rightarrow> ('w, 'sk, 'pk, 'cert) core_test" where
  "post_decrypt_oversize_and_unverified_plaintext_are_never_returned aead P L K =
     bindW (unwrapT (test_peers aead P L K LegacyPlaintext 18)) (\<lambda>sealing_peers.
     bindW (unwrapT (test_peers aead P L K LegacyPlaintext 17)) (\<lambda>opening_peers.
     bindW (sealed P (sender_config sealing_peers) (sender_keys sealing_peers) (replicate 18 (0x7A)) legacy_context) (\<lambda>env.
     bindW (assert_refused P (receiver_config opening_peers) (receiver_keys opening_peers) env legacy_context) (\<lambda>_.
     (let unverified = env\<lparr>signature := base64_encode P (blit ''malformed signature'')\<rparr> in
      assert_refused P (receiver_config sealing_peers) (receiver_keys sealing_peers) unverified legacy_context)))))"

section \<open>Encodings, keys and tampering\<close>

definition invalid_base64_in_any_envelope_field_is_indistinguishable :: "bool \<Rightarrow> ('w, 'sk, 'pk, 'cert) core_test" where
  "invalid_base64_in_any_envelope_field_is_indistinguishable aead P L K =
     bindW (unwrapT (test_peers aead P L K LegacyPlaintext 128)) (\<lambda>ps.
     bindW (sealed P (sender_config ps) (sender_keys ps) (blit ''valid envelope'') legacy_context) (\<lambda>valid.
     for_eachW (\<lambda>invalid. assert_refused P (receiver_config ps) (receiver_keys ps) invalid legacy_context)
       [valid\<lparr>cipher := lit ''!!!!''\<rparr>, valid\<lparr>wrapped_session_key := lit ''!!!!''\<rparr>, valid\<lparr>signature := lit ''!!!!''\<rparr>]))"

definition base64_requires_canonical_trailing_bits_and_standard_padding :: "bool \<Rightarrow> ('w, 'sk, 'pk, 'cert) core_test" where
  "base64_requires_canonical_trailing_bits_and_standard_padding aead P L K =
     bindW (unwrapT (test_peers aead P L K LegacyPlaintext 128)) (\<lambda>ps.
     bindW (sealed P (sender_config ps) (sender_keys ps) (blit ''canonical Base64 envelope'') legacy_context) (\<lambda>valid.
     for_eachW (\<lambda>invalid. assert_refused P (receiver_config ps) (receiver_keys ps) invalid legacy_context)
       [valid\<lparr>cipher := lit ''AA''\<rparr>, valid\<lparr>wrapped_session_key := lit ''AB==''\<rparr>, valid\<lparr>signature := lit ''AA''\<rparr>]))"

definition malformed_wrapped_keys_and_wrong_length_unwrapped_keys_are_indistinguishable ::
  "bool \<Rightarrow> ('w, 'sk, 'pk, 'cert) core_test" where
  "malformed_wrapped_keys_and_wrong_length_unwrapped_keys_are_indistinguishable aead P L K =
     bindW (unwrapT (test_peers aead P L K LegacyPlaintext 128)) (\<lambda>ps.
     bindW (sealed P (sender_config ps) (sender_keys ps) (blit ''wrapped key failures'') legacy_context) (\<lambda>valid.
     (let malformed = valid\<lparr>wrapped_session_key := base64_encode P (blit ''not SM2 DER'')\<rparr> in
      bindW (assert_refused P (receiver_config ps) (receiver_keys ps) malformed legacy_context) (\<lambda>_.
      bindW (wrapped_plaintext_for_receiver P K (blit ''not-16-bytes'')) (\<lambda>wrapped.
      (let wrong_length = valid\<lparr>wrapped_session_key := wrapped\<rparr> in
       assert_refused P (receiver_config ps) (receiver_keys ps) wrong_length legacy_context))))))"

definition wrong_decryption_key_is_an_invalid_envelope :: "bool \<Rightarrow> ('w, 'sk, 'pk, 'cert) core_test" where
  "wrong_decryption_key_is_an_invalid_envelope aead P L K =
     bindW (unwrapT (test_peers aead P L K LegacyPlaintext 128)) (\<lambda>ps.
     bindW (sealed P (sender_config ps) (sender_keys ps) (blit ''encrypted for receiver decryption role'') legacy_context)
       (\<lambda>env.
     bindW (unwrapT (key_material P L K RECEIVER_SIGNING UNRELATED_KEY SENDER_SIGNING SENDER_DECRYPTION)) (\<lambda>wrong_keys.
     assert_refused P (receiver_config ps) wrong_keys env legacy_context)))"

definition cbc_padding_and_cipher_tampering_is_an_invalid_envelope :: "bool \<Rightarrow> ('w, 'sk, 'pk, 'cert) core_test" where
  "cbc_padding_and_cipher_tampering_is_an_invalid_envelope aead P L K =
     bindW (unwrapT (test_peers aead P L K LegacyPlaintext 128)) (\<lambda>ps.
     bindW (sealed P (sender_config ps) (sender_keys ps) (replicate 17 0x78) legacy_context) (\<lambda>valid.
     bindW (unwrapT (base64_decode P (cipher valid))) (\<lambda>bad_padding.
     bindW (unwrapT (usize_sub (length bad_padding) 17)) (\<lambda>previous_block_last_byte.
     bindW (unwrapT (set_at previous_block_last_byte (\<lambda>b. b XOR 0x0f) bad_padding)) (\<lambda>bad_padding.
     bindW (assert_refused P (receiver_config ps) (receiver_keys ps)
       (valid\<lparr>cipher := base64_encode P bad_padding\<rparr>) legacy_context) (\<lambda>_.
     bindW (unwrapT (base64_decode P (cipher valid))) (\<lambda>changed_cipher.
     bindW (unwrapT (set_at 0 (\<lambda>b. b XOR 1) changed_cipher)) (\<lambda>changed_cipher.
     assert_refused P (receiver_config ps) (receiver_keys ps)
       (valid\<lparr>cipher := base64_encode P changed_cipher\<rparr>) legacy_context))))))))"

definition truncated_cipher_and_malformed_signature_encoding_are_invalid_envelopes ::
  "bool \<Rightarrow> ('w, 'sk, 'pk, 'cert) core_test" where
  "truncated_cipher_and_malformed_signature_encoding_are_invalid_envelopes aead P L K =
     bindW (unwrapT (test_peers aead P L K LegacyPlaintext 128)) (\<lambda>ps.
     bindW (sealed P (sender_config ps) (sender_keys ps) (blit ''truncation and signature encoding'') legacy_context) (\<lambda>valid.
     bindW (unwrapT (base64_decode P (cipher valid))) (\<lambda>truncated_cipher.
     bindW (unwrapT (popped truncated_cipher)) (\<lambda>truncated_cipher.
     bindW (assert_refused P (receiver_config ps) (receiver_keys ps)
       (valid\<lparr>cipher := base64_encode P truncated_cipher\<rparr>) legacy_context) (\<lambda>_.
     assert_refused P (receiver_config ps) (receiver_keys ps)
       (valid\<lparr>signature := base64_encode P [0x30, 0x01, 0x00]\<rparr>) legacy_context)))))"

definition signature_tampering_and_wrong_verification_key_are_indistinguishable ::
  "bool \<Rightarrow> ('w, 'sk, 'pk, 'cert) core_test" where
  "signature_tampering_and_wrong_verification_key_are_indistinguishable aead P L K =
     bindW (unwrapT (test_peers aead P L K LegacyPlaintext 128)) (\<lambda>ps.
     bindW (sealed P (sender_config ps) (sender_keys ps) (blit ''decrypted plaintext must remain unverified'') legacy_context)
       (\<lambda>valid.
     bindW (unwrapT (base64_decode P (signature valid))) (\<lambda>sig.
     bindW (unwrapT (flip_final_byte sig)) (\<lambda>sig.
     bindW (assert_refused P (receiver_config ps) (receiver_keys ps)
       (valid\<lparr>signature := base64_encode P sig\<rparr>) legacy_context) (\<lambda>_.
     bindW (unwrapT (key_material P L K RECEIVER_SIGNING RECEIVER_DECRYPTION UNRELATED_KEY SENDER_DECRYPTION)) (\<lambda>wrong_keys.
     assert_refused P (receiver_config ps) wrong_keys valid legacy_context))))))"

section \<open>One verification per envelope\<close>

definition assert_refused_after ::
  "u32 \<Rightarrow> ('w, 'sk, 'pk) crypto \<Rightarrow> ClientConfig \<Rightarrow> ('sk, 'pk) KeyMaterial \<Rightarrow> SecureEnvelope \<Rightarrow> ('w, unit) test" where
  "assert_refused_after n P c k env =
     bindW take_verify_callsT (\<lambda>_.
     bindW (assert_refused P c k env legacy_context) (\<lambda>_.
     bindW take_verify_callsT (\<lambda>calls. assertT (calls = n))))"

definition open_runs_exactly_one_verification_on_every_post_unwrap_path ::
  "bool \<Rightarrow> ('w, 'sk, 'pk, 'cert) core_test" where
  "open_runs_exactly_one_verification_on_every_post_unwrap_path aead P L K =
     bindW (unwrapT (test_peers aead P L K LegacyPlaintext 128)) (\<lambda>ps.
     bindW (sealed P (sender_config ps) (sender_keys ps) (replicate 17 0x78) legacy_context) (\<lambda>valid.
     bindW take_verify_callsT (\<lambda>_.
     bindW (opened P (receiver_config ps) (receiver_keys ps) valid legacy_context) (\<lambda>_.
     bindW take_verify_callsT (\<lambda>calls.
     bindW (assertT (calls = 1)) (\<lambda>_.
     bindW (unwrapT (base64_decode P (cipher valid))) (\<lambda>bad_padding.
     bindW (unwrapT (usize_sub (length bad_padding) 17)) (\<lambda>previous_block_last_byte.
     bindW (unwrapT (set_at previous_block_last_byte (\<lambda>b. b XOR 0x0f) bad_padding)) (\<lambda>bad_padding.
     bindW (assert_refused_after 1 P (receiver_config ps) (receiver_keys ps)
       (valid\<lparr>cipher := base64_encode P bad_padding\<rparr>)) (\<lambda>_.
     bindW (unwrapT (test_peers aead P L K LegacyPlaintext 16)) (\<lambda>smaller.
     bindW (assert_refused_after 1 P (receiver_config smaller) (receiver_keys smaller) valid) (\<lambda>_.
     bindW (unwrapT (base64_decode P (signature valid))) (\<lambda>sig.
     bindW (unwrapT (flip_final_byte sig)) (\<lambda>sig.
     bindW (assert_refused_after 1 P (receiver_config ps) (receiver_keys ps)
       (valid\<lparr>signature := base64_encode P sig\<rparr>)) (\<lambda>_.
     assert_refused_after 0 P (receiver_config ps) (receiver_keys ps)
       (valid\<lparr>wrapped_session_key := base64_encode P (blit ''not an SM2 ciphertext'')\<rparr>))))))))))))))))"

definition a_signed_cleartext_placed_in_cipher_reaches_verify_yet_is_rejected ::
  "bool \<Rightarrow> ('w, 'sk, 'pk, 'cert) core_test" where
  "a_signed_cleartext_placed_in_cipher_reaches_verify_yet_is_rejected aead P L K =
     bindW (unwrapT (test_peers aead P L K LegacyPlaintext 128)) (\<lambda>ps.
     (let signed_plaintext = blit ''a legitimately signed plaintext, replayed as cleartext'' in
      bindW (assertT (length signed_plaintext mod 16 \<noteq> 0)) (\<lambda>_.
      bindW (sealed P (sender_config ps) (sender_keys ps) signed_plaintext legacy_context) (\<lambda>legitimate.
      (let forged = legitimate\<lparr>cipher := base64_encode P signed_plaintext\<rparr> in
       bindW take_verify_callsT (\<lambda>_.
       bindW (openT P (receiver_config ps) (receiver_keys ps) forged legacy_context) (\<lambda>result.
       bindW take_verify_callsT (\<lambda>calls.
       bindW (assertT (calls = 1)) (\<lambda>_.
       assert_invalid_envelope result)))))))))"

section \<open>The tests pass\<close>

lemma legacy_round_trips_pass:
  assumes core: "test_core P L K"
  shows "passes (legacy_exact_plaintext_round_trips_in_both_directions_with_distinct_roles aead P L K) (w, calls) (\<lambda>_ _. True)"
proof -
  note keys = test_coreD(4) [OF core]
  let ?p = "blit ''sender signs exactly these bytes'' @ 0 # blit ''with no framing''"
  let ?q = "blit ''receiver response uses inverse directional roles''"
  let ?ps = "pair_of P K LegacyPlaintext LegacyCbc 256"
  have lim: "pair_limits LegacyPlaintext LegacyCbc 256" by (simp add: pair_limits_def mode_ok_def)
  obtain env w' where seal: "sender_seal P K LegacyPlaintext LegacyCbc 256 ?p legacy_context w = (Inr env, w')"
    and opens: "receiver_open P K LegacyPlaintext LegacyCbc 256 env legacy_context = Some (Inr ?p)"
    by (rule pair_seals [OF core lim, of legacy_context ?p w]) (simp_all add: blit_length)
  obtain t w3 g where g: "authentication_input LegacyPlaintext legacy_context ?p = Inr t"
    "sm2_sign_with_id P (skey K SENDER_SIGNING) SENDER_SIGNER_ID t w3 = (Some g, w')" "signature env = base64_encode P g"
    by (rule seal_parts [OF core seal]) auto
  have "t = ?p" using g(1) by (simp add: authentication_input_def legacy_context_def AuthenticationContext_legacy_def)
  then have verified: "sm2_verify_with_id P (sm2_public_key P (skey K SENDER_SIGNING)) SENDER_SIGNER_ID ?p g"
    using g(2) crypto_lawsD(3) [OF test_coreD(1) [OF core]] unfolding sm2_laws_def by blast
  have "\<exists>env w''. envelope_seal P (receiver_config ?ps) (receiver_keys ?ps) ?q legacy_context w' = (Inr env, w'')"
    by (rule seal_live [OF core pair_configs_ok(2) [OF lim]]) (simp_all add: blit_length usize_MAX_def)
  then obtain env' w'' where seal': "envelope_seal P (receiver_config ?ps) (receiver_keys ?ps) ?q legacy_context w' = (Inr env', w'')"
    by blast
  have opens': "envelope_open P (sender_config ?ps) (sender_keys ?ps) env' legacy_context = Some (Inr ?q)"
    by (rule sealed_opens [OF core pair_configs_ok(2) [OF lim] pair_peers(2) _ seal']) (simp add: blit_length)
  have key: "raw_private_key K SENDER_SIGNING = Some (skey K SENDER_SIGNING)"
    by (rule raw_key [OF keys]) (simp add: test_scalars)
  show ?thesis
    by (simp add: legacy_exact_plaintext_round_trips_in_both_directions_with_distinct_roles_def passes_simps Let_def
        test_peers_eq [OF keys] mode_ok_def passes_sealed_run [OF seal] passes_assert_opens [OF opens]
        passes_sealed_run [OF seal'] passes_assert_opens [OF opens'] g(3) base64_core [OF core] key verified)
qed

lemma context_bound_round_trip_passes:
  assumes core: "test_core P L K"
    and b: "binds_message P (ContextBound (blit ''example/request/v1''))
      (AuthenticationContext (Bound (blit ''operation=pay&id=17''))) (blit ''context-bound payload'')"
  shows "passes (context_bound_round_trip_rejects_different_or_wrong_context_kinds aead P L K) (w, calls) (\<lambda>_ _. True)"
proof -
  note keys = test_coreD(4) [OF core]
  let ?m = "ContextBound (blit ''example/request/v1'')" and ?p = "blit ''context-bound payload''"
  let ?x = "AuthenticationContext (Bound (blit ''operation=pay&id=17''))"
  have lim: "pair_limits ?m LegacyCbc 256" by (simp add: pair_limits_def mode_ok_def blit_length)
  obtain env w' where seal: "sender_seal P K ?m LegacyCbc 256 ?p ?x w = (Inr env, w')"
    and opens: "receiver_open P K ?m LegacyCbc 256 env ?x = Some (Inr ?p)"
    by (rule pair_seals [OF core lim, of ?x ?p w]) (simp_all add: blit_length)
  have different: "receiver_open P K ?m LegacyCbc 256 env (AuthenticationContext (Bound (blit ''operation=pay&id=18''))) =
      Some (Inl InvalidEnvelope)"
    by (rule pair_wrong_context [OF core seal opens b]) (simp add: blit_def)
  have legacy: "receiver_open P K ?m LegacyCbc 256 env legacy_context = Some (Inl InvalidEnvelope)"
    by (rule refusedI [OF wrong_kind_refused]) (simp_all add: pair_bound [OF opens])
  have kind: "sender_seal P K ?m LegacyCbc 256 (blit ''wrong context kind'') legacy_context w' =
      (Inl AuthenticationContextError, w')" for w'
    by (simp add: envelope_seal_def Let_def blit_length cbc_seal_def authentication_input_def legacy_context_def
        AuthenticationContext_legacy_def)
  show ?thesis
    by (simp add: context_bound_round_trip_rejects_different_or_wrong_context_kinds_def passes_simps Let_def context_bound_eq
        test_peers_eq [OF keys] mode_ok_def blit_length passes_sealed_run [OF seal] passes_assert_opens [OF opens]
        passes_assert_refused [OF different] passes_assert_refused [OF legacy] passes_seal [OF kind])
qed

lemma unicode_round_trip_passes:
  assumes core: "test_core P L K"
  shows "passes (context_bound_round_trip_preserves_exact_unicode_utf8_bytes aead P L K) (w, calls) (\<lambda>_ _. True)"
proof -
  note keys = test_coreD(4) [OF core]
  let ?m = "ContextBound (blit ''example/unicode/v1'')"
  let ?x = "AuthenticationContext (Bound (blit ''operation=unicode''))"
  have lim: "pair_limits ?m LegacyCbc 256" by (simp add: pair_limits_def mode_ok_def blit_length)
  obtain env w' where seal: "sender_seal P K ?m LegacyCbc 256 unicode_plaintext ?x w = (Inr env, w')"
    and opens: "receiver_open P K ?m LegacyCbc 256 env ?x = Some (Inr unicode_plaintext)"
    by (rule pair_seals [OF core lim, of ?x unicode_plaintext w]) (simp_all add: blit_length unicode_length)
  show ?thesis
    by (simp add: context_bound_round_trip_preserves_exact_unicode_utf8_bytes_def passes_simps context_bound_eq
        test_peers_eq [OF keys] mode_ok_def blit_length passes_sealed_run [OF seal] passes_assert_opens [OF opens])
qed

lemma domain_separator_passes:
  assumes core: "test_core P L K"
    and b: "binds_message P (ContextBound (blit ''example/request/v1''))
      (AuthenticationContext (Bound (blit ''operation=pay&id=17''))) (blit ''domain-separated payload'')"
  shows "passes (context_bound_domain_separator_is_part_of_the_verified_transcript aead P L K) (w, calls) (\<lambda>_ _. True)"
proof -
  note keys = test_coreD(4) [OF core]
  let ?m = "ContextBound (blit ''example/request/v1'')" and ?p = "blit ''domain-separated payload''"
  let ?m' = "ContextBound (blit ''example/response/v1'')"
  let ?x = "AuthenticationContext (Bound (blit ''operation=pay&id=17''))"
  have lim: "pair_limits ?m LegacyCbc 256" by (simp add: pair_limits_def mode_ok_def blit_length)
  obtain env w' where seal: "sender_seal P K ?m LegacyCbc 256 ?p ?x w = (Inr env, w')"
    and opens: "receiver_open P K ?m LegacyCbc 256 env ?x = Some (Inr ?p)"
    by (rule pair_seals [OF core lim, of ?x ?p w]) (simp_all add: blit_length)
  have "blit ''example/response/v1'' \<noteq> blit ''example/request/v1''" by (simp add: blit_def)
  note refused = pair_wrong_domain [OF core seal opens b this]
  show ?thesis
    by (simp add: context_bound_domain_separator_is_part_of_the_verified_transcript_def passes_simps context_bound_eq
        test_peers_eq [OF keys] mode_ok_def blit_length passes_sealed_run [OF seal] test_config_eq test_signer_ids
        passes_assert_refused [OF refused])
qed

lemma empty_round_trip_passes:
  assumes core: "test_core P L K"
  shows "passes (empty_plaintext_round_trips aead P L K) (w, calls) (\<lambda>_ _. True)"
    "passes (configured_plaintext_boundary_round_trips aead P L K) (w, calls) (\<lambda>_ _. True)"
proof -
  note keys = test_coreD(4) [OF core]
  have lim: "pair_limits LegacyPlaintext LegacyCbc 32" "pair_limits LegacyPlaintext LegacyCbc 64"
    by (simp_all add: pair_limits_def mode_ok_def)
  obtain env w' where "sender_seal P K LegacyPlaintext LegacyCbc 32 [] legacy_context w = (Inr env, w')"
    "receiver_open P K LegacyPlaintext LegacyCbc 32 env legacy_context = Some (Inr [])"
    by (rule pair_seals [OF core lim(1), of legacy_context "[]" w]) simp_all
  then show "passes (empty_plaintext_round_trips aead P L K) (w, calls) (\<lambda>_ _. True)"
    by (simp add: empty_plaintext_round_trips_def passes_simps test_peers_eq [OF keys] mode_ok_def passes_sealed_run
        passes_assert_opens)
  obtain env w' where "sender_seal P K LegacyPlaintext LegacyCbc 64 (replicate 64 0xa5) legacy_context w = (Inr env, w')"
    "receiver_open P K LegacyPlaintext LegacyCbc 64 env legacy_context = Some (Inr (replicate 64 0xa5))"
    by (rule pair_seals [OF core lim(2), of legacy_context "replicate 64 0xa5" w]) simp_all
  then show "passes (configured_plaintext_boundary_round_trips aead P L K) (w, calls) (\<lambda>_ _. True)"
    by (simp add: configured_plaintext_boundary_round_trips_def Let_def passes_simps test_peers_eq [OF keys] mode_ok_def
        passes_sealed_run passes_assert_opens)
qed

lemma sweep_case_passes:
  assumes core: "test_core P L K" and lim: "pair_limits mode LegacyCbc 2048"
    and ok: "context_matches mode x" "length (mode_domain mode) + length (context_bytes x) < 1000"
    and n: "n \<in> set SWEEP_LENGTHS"
  shows "passes (cbc_sweep_case P (pair_of P K mode LegacyCbc 2048) x n) s (\<lambda>_ _. True)"
proof -
  have "list_all (\<lambda>n. n \<le> 2048) SWEEP_LENGTHS" by (simp add: SWEEP_LENGTHS_def)
  then have len: "length (sweep_plaintext n) \<le> 2048" using n by (simp add: sweep_plaintext_def list_all_iff)
  obtain env w' where seal: "sender_seal P K mode LegacyCbc 2048 (sweep_plaintext n) x (fst s) = (Inr env, w')"
    and opens: "receiver_open P K mode LegacyCbc 2048 env x = Some (Inr (sweep_plaintext n))"
    by (rule pair_seals [OF core lim ok(1) len _ ok(2)]) (use len in simp)
  then show ?thesis
    by (cases s) (simp add: cbc_sweep_case_def Let_def passes_simps passes_sealed_run passes_opened)
qed

lemma length_sweep_passes:
  assumes core: "test_core P L K"
  shows "passes (plaintext_length_sweep_round_trips_across_block_and_base64_boundaries aead P L K) s (\<lambda>_ _. True)"
proof -
  note keys = test_coreD(4) [OF core]
  have "passes (bindW (unwrapT (test_peers aead P L K mode 2048)) (\<lambda>ps.
      for_eachW (cbc_sweep_case P ps x) SWEEP_LENGTHS)) s (\<lambda>_ _. True)"
    if "pair_limits mode LegacyCbc 2048" "context_matches mode x"
      "length (mode_domain mode) + length (context_bytes x) < 1000" for mode x s
    using passes_loop [OF sweep_case_passes [OF core that]] that(1)
    by (simp add: passes_simps test_peers_eq [OF keys] pair_limits_def)
  then have "passes (for_eachW (\<lambda>(mode, x). bindW (unwrapT (test_peers aead P L K mode 2048)) (\<lambda>ps.
      for_eachW (cbc_sweep_case P ps x) SWEEP_LENGTHS))
      [(LegacyPlaintext, legacy_context),
       (ContextBound (blit ''example/sweep/v1''), AuthenticationContext (Bound (blit ''operation=sweep'')))]) s (\<lambda>_ _. True)"
    by (intro passes_loop) (auto simp: pair_limits_def mode_ok_def blit_length)
  then show ?thesis
    by (simp only: plaintext_length_sweep_round_trips_across_block_and_base64_boundaries_def passes_simps context_bound_eq
        blit_length list.simps simp_thms sum.inject)
qed

text \<open>What most tests start from: an envelope that opens, sealed with a limit of 128.\<close>

lemma legacy_pair_seals:
  assumes core: "test_core P L K" and "length p \<le> 128"
  obtains env w' where "sender_seal P K LegacyPlaintext LegacyCbc 128 p legacy_context w = (Inr env, w')"
    "receiver_open P K LegacyPlaintext LegacyCbc 128 env legacy_context = Some (Inr p)"
proof -
  have lim: "pair_limits LegacyPlaintext LegacyCbc 128" by (simp add: pair_limits_def mode_ok_def)
  show ?thesis
    by (rule pair_seals [OF core lim, of legacy_context p w]) (use assms(2) that in simp_all)
qed

lemma fresh_session_key_run:
  assumes core: "test_core P L K"
    and seal: "sender_seal P K LegacyPlaintext LegacyCbc 128 (blit ''same payload'') legacy_context w = (Inr env, w1)"
    and seal': "sender_seal P K LegacyPlaintext LegacyCbc 128 (blit ''same payload'') legacy_context w1 = (Inr env', w2)"
    and wr: "wrapped_session_key env = base64_encode P wr" "wrapped_session_key env' = base64_encode P wr'"
  shows "every_seal_uses_a_fresh_random_session_key aead P L K (w, calls) =
      bindW (assertT (cipher env \<noteq> cipher env')) (\<lambda>_.
      bindW (unwrapT (sm2_decrypt P (skey K RECEIVER_DECRYPTION) wr)) (\<lambda>k1.
      bindW (unwrapT (sm2_decrypt P (skey K RECEIVER_DECRYPTION) wr')) (\<lambda>k2. assertT (k1 \<noteq> k2)))) (w2, calls)"
proof -
  note keys = test_coreD(4) [OF core]
  have key: "raw_private_key K RECEIVER_DECRYPTION = Some (skey K RECEIVER_DECRYPTION)"
    by (rule raw_key [OF keys]) (simp add: test_scalars)
  show ?thesis
    by (simp add: every_seal_uses_a_fresh_random_session_key_def test_peers_eq [OF keys] mode_ok_def Let_def pure_steps
        bindW_step(1) [where m = "sealed _ _ _ _ _", OF sealed_run [OF seal]]
        bindW_step(1) [where m = "sealed _ _ _ _ _", OF sealed_run [OF seal']] key wr base64_core [OF core])
qed

lemma fresh_session_key_world:
  assumes core: "test_core P L K"
    and seal: "sender_seal P K LegacyPlaintext LegacyCbc 128 (blit ''same payload'') legacy_context w = (Inr env, w1)"
    and seal': "sender_seal P K LegacyPlaintext LegacyCbc 128 (blit ''same payload'') legacy_context w1 = (Inr env', w2)"
  shows "snd (every_seal_uses_a_fresh_random_session_key aead P L K (w, calls)) = (w2, calls)"
proof -
  obtain wr wr' where wr: "wrapped_session_key env = base64_encode P wr" "wrapped_session_key env' = base64_encode P wr'"
    using seal_parts [OF core seal] seal_parts [OF core seal'] by (metis SecureEnvelope.select_convs(2))
  show ?thesis
    unfolding fresh_session_key_run [OF core seal seal' wr]
    by (cases "sm2_decrypt P (skey K RECEIVER_DECRYPTION) wr"; cases "sm2_decrypt P (skey K RECEIVER_DECRYPTION) wr'")
      (simp_all add: pure_steps unwrapT_def)
qed

lemma fresh_session_key_passes:
  assumes core: "test_core P L K" and fresh: "fresh_source P age n"
    and keyed: "\<forall>k k'. length k = 16 \<longrightarrow> length k' = 16 \<longrightarrow> k \<noteq> k' \<longrightarrow>
      cbc_encrypt P k IV (blit ''same payload'') \<noteq> cbc_encrypt P k' IV (blit ''same payload'')"
    and bound: "age (fst (snd (every_seal_uses_a_fresh_random_session_key aead P L K (w, calls)))) \<le> n"
  shows "passes (every_seal_uses_a_fresh_random_session_key aead P L K) (w, calls) (\<lambda>_ _. True)"
proof -
  let ?p = "blit ''same payload''" and ?ps = "pair_of P K LegacyPlaintext LegacyCbc 128"
  obtain env w1 where seal: "sender_seal P K LegacyPlaintext LegacyCbc 128 ?p legacy_context w = (Inr env, w1)"
    by (rule legacy_pair_seals [OF core, of ?p w]) (simp_all add: blit_length)
  obtain env' w2 where seal': "sender_seal P K LegacyPlaintext LegacyCbc 128 ?p legacy_context w1 = (Inr env', w2)"
    by (rule legacy_pair_seals [OF core, of ?p w1]) (simp_all add: blit_length)
  have age: "age w2 \<le> n" using bound by (simp add: fresh_session_key_world [OF core seal seal'])
  have enc: "remote_encryption (sender_keys ?ps) = sm2_public_key P (skey K RECEIVER_DECRYPTION)" by simp
  obtain k1 k2 b1 b2 wr1 wr2 where f: "k1 \<noteq> k2" "length k1 = 16" "length k2 = 16"
    "carries P (sender_config ?ps) legacy_context k1 ?p b1" "carries P (sender_config ?ps) legacy_context k2 ?p b2"
    "cipher env = base64_encode P b1" "cipher env' = base64_encode P b2"
    "wrapped_session_key env = base64_encode P wr1" "wrapped_session_key env' = base64_encode P wr2"
    "sm2_decrypt P (skey K RECEIVER_DECRYPTION) wr1 = Some k1" "sm2_decrypt P (skey K RECEIVER_DECRYPTION) wr2 = Some k2"
    by (rule second_seal_is_fresh [OF core fresh seal seal' age enc])
  have "b1 \<noteq> b2" using keyed f(1-5) by (simp add: carries_def payload_iv_def)
  then have "cipher env \<noteq> cipher env'" unfolding f(6,7) using base64_core [OF core] by (metis option.inject)
  then show ?thesis
    using f by (simp add: passes_def fresh_session_key_run [OF core seal seal' f(8,9)] pure_steps assertT_def unwrapT_def assert_that_def)
qed

lemma seal_limit_passes:
  assumes core: "test_core P L K"
  shows "passes (seal_rejects_plaintext_over_the_configured_limit aead P L K) (w, calls) (\<lambda>_ _. True)"
proof -
  have "sender_seal P K LegacyPlaintext LegacyCbc 8 (blit ''123456789'') legacy_context w = (Inl (MessageTooLarge 8), w)"
    by (simp add: envelope_seal_def Let_def blit_length)
  from passes_seal [OF this] show ?thesis
    by (simp add: seal_rejects_plaintext_over_the_configured_limit_def passes_simps test_peers_eq [OF test_coreD(4) [OF core]]
        mode_ok_def)
qed

lemma small_bounds:
  "cipher_bound (receiver_config (pair_of P K mode LegacyCbc 17)) = 44"
  "cipher_bound (receiver_config (pair_of P K mode LegacyCbc 128)) = 192"
  by (simp_all add: cipher_bound_def base64_len_eq padded_cipher_len_eq usize_MAX_def)

lemma oversized_cipher_passes:
  assumes core: "test_core P L K"
  shows "passes (oversized_encoded_or_decoded_cipher_is_rejected_before_key_operations aead P L K) (w, calls) (\<lambda>_ _. True)"
proof -
  let ?e = "\<lparr>cipher = replicate 45 33, wrapped_session_key = lit ''not Base64'', signature = lit ''not Base64''\<rparr>"
  let ?d = "\<lparr>cipher = base64_encode P (replicate 33 0), wrapped_session_key = lit ''not Base64'', signature = lit ''not Base64''\<rparr>"
  have "str_len (replicate 45 33) = 45" by (simp add: str_len_ascii list_all_iff)
  then have encoded: "receiver_open P K LegacyPlaintext LegacyCbc 17 ?e legacy_context = Some (Inl (MessageTooLarge 17))"
    using over_bound_refused [of "receiver_config (pair_of P K LegacyPlaintext LegacyCbc 17)" ?e P]
    by (simp add: small_bounds)
  have "b64_decode (lit ''not Base64'') = None" by (simp add: lit_def b64_val_def)
  then have decoded: "receiver_open P K LegacyPlaintext LegacyCbc 17 ?d legacy_context = Some (Inl InvalidEnvelope)"
    using test_coreD(8) [OF core] base64_str_len [OF crypto_lawsD(2) [OF test_coreD(1) [OF core]], of "replicate 33 0"]
    by (intro refusedI [OF undecodable_refused]) (simp_all add: small_bounds)
  show ?thesis
    by (simp add: oversized_encoded_or_decoded_cipher_is_rejected_before_key_operations_def passes_simps Let_def
        test_peers_eq [OF test_coreD(4) [OF core]] mode_ok_def passes_open [OF encoded] passes_open [OF decoded])
qed

lemma auxiliary_bounds_pass:
  assumes core: "test_core P L K"
  shows "passes (oversized_wrapped_key_and_signature_inputs_are_bounded aead P L K) (w, calls) (\<lambda>_ _. True)"
proof -
  obtain env w' where seal: "sender_seal P K LegacyPlaintext LegacyCbc 128 (blit ''bounded auxiliary fields'') legacy_context w = (Inr env, w')"
    and opens: "receiver_open P K LegacyPlaintext LegacyCbc 128 env legacy_context = Some (Inr (blit ''bounded auxiliary fields''))"
    by (rule legacy_pair_seals [OF core, of "blit ''bounded auxiliary fields''" w]) (simp_all add: blit_length)
  have big: "MAX_AUXILIARY_BASE64_BYTES < str_len (replicate (16 * 1024 + 1) 65)"
    by (simp add: str_len_ascii list_all_iff MAX_AUXILIARY_BASE64_BYTES_def)
  note refused = pair_field_refused [OF core opens disjI2 [OF disjI1 [OF big]]]
    pair_signature_refused [OF core opens disjI2 [OF disjI1 [OF big]]]
  show ?thesis
    unfolding oversized_wrapped_key_and_signature_inputs_are_bounded_def Let_def
    by (simp add: passes_simps test_peers_eq [OF test_coreD(4) [OF core]] mode_ok_def passes_sealed_run [OF seal]
        passes_assert_refused [OF refused(1), simplified] passes_assert_refused [OF refused(2), simplified])
qed

lemma post_decrypt_passes:
  assumes core: "test_core P L K"
  shows "passes (post_decrypt_oversize_and_unverified_plaintext_are_never_returned aead P L K) (w, calls) (\<lambda>_ _. True)"
proof -
  let ?p = "replicate 18 0x7A"
  have lim: "pair_limits LegacyPlaintext LegacyCbc 18" by (simp add: pair_limits_def mode_ok_def)
  obtain env w' where seal: "sender_seal P K LegacyPlaintext LegacyCbc 18 ?p legacy_context w = (Inr env, w')"
    and opens: "receiver_open P K LegacyPlaintext LegacyCbc 18 env legacy_context = Some (Inr ?p)"
    by (rule pair_seals [OF core lim, of legacy_context ?p w]) simp_all
  have small: "receiver_open P K LegacyPlaintext LegacyCbc 17 env legacy_context = Some (Inl InvalidEnvelope)"
    by (rule smaller_limit_refused [OF core lim seal opens]) (simp_all add: small_bounds sealed_len_def)
  have sig: "receiver_open P K LegacyPlaintext LegacyCbc 18
      (env\<lparr>signature := base64_encode P (blit ''malformed signature'')\<rparr>) legacy_context = Some (Inl InvalidEnvelope)"
    by (rule pair_signature_refused [OF core opens]) (simp add: base64_core [OF core] blit_def)
  show ?thesis
    by (simp add: post_decrypt_oversize_and_unverified_plaintext_are_never_returned_def passes_simps Let_def
        test_peers_eq [OF test_coreD(4) [OF core]] mode_ok_def passes_sealed_run [OF seal] passes_assert_refused [OF small]
        passes_assert_refused [OF sig])
qed

lemma invalid_base64_passes:
  assumes core: "test_core P L K"
  shows "passes (invalid_base64_in_any_envelope_field_is_indistinguishable aead P L K) (w, calls) (\<lambda>_ _. True)"
    "passes (base64_requires_canonical_trailing_bits_and_standard_padding aead P L K) (w, calls) (\<lambda>_ _. True)"
proof -
  note keys = test_coreD(4) [OF core] and none = undecodable_fields [OF core]
  have cipher_refused: "receiver_open P K LegacyPlaintext LegacyCbc 128 (env\<lparr>cipher := ciph\<rparr>) x = Some (Inl InvalidEnvelope)"
    if "base64_decode P ciph = None" "str_len ciph \<le> 192" for env ciph x
    by (rule refusedI [OF undecodable_refused]) (use that in \<open>simp_all add: small_bounds\<close>)
  obtain env w' where seal: "sender_seal P K LegacyPlaintext LegacyCbc 128 (blit ''valid envelope'') legacy_context w = (Inr env, w')"
    and opens: "receiver_open P K LegacyPlaintext LegacyCbc 128 env legacy_context = Some (Inr (blit ''valid envelope''))"
    by (rule legacy_pair_seals [OF core, of "blit ''valid envelope''" w]) (simp_all add: blit_length)
  show "passes (invalid_base64_in_any_envelope_field_is_indistinguishable aead P L K) (w, calls) (\<lambda>_ _. True)"
    by (simp add: invalid_base64_in_any_envelope_field_is_indistinguishable_def passes_simps test_peers_eq [OF keys] mode_ok_def
        passes_sealed_run [OF seal] passes_assert_refused [OF cipher_refused] none
        passes_assert_refused [OF pair_field_refused [OF core opens]]
        passes_assert_refused [OF pair_signature_refused [OF core opens]])
  obtain env w' where seal: "sender_seal P K LegacyPlaintext LegacyCbc 128 (blit ''canonical Base64 envelope'') legacy_context w = (Inr env, w')"
    and opens: "receiver_open P K LegacyPlaintext LegacyCbc 128 env legacy_context = Some (Inr (blit ''canonical Base64 envelope''))"
    by (rule legacy_pair_seals [OF core, of "blit ''canonical Base64 envelope''" w]) (simp_all add: blit_length)
  show "passes (base64_requires_canonical_trailing_bits_and_standard_padding aead P L K) (w, calls) (\<lambda>_ _. True)"
    by (simp add: base64_requires_canonical_trailing_bits_and_standard_padding_def passes_simps test_peers_eq [OF keys] mode_ok_def
        passes_sealed_run [OF seal] passes_assert_refused [OF cipher_refused] none
        passes_assert_refused [OF pair_field_refused [OF core opens]]
        passes_assert_refused [OF pair_signature_refused [OF core opens]])
qed

lemma malformed_wrapped_keys_pass:
  assumes core: "test_core P L K"
  shows "passes (malformed_wrapped_keys_and_wrong_length_unwrapped_keys_are_indistinguishable aead P L K) (w, calls) (\<lambda>_ _. True)"
proof -
  let ?p = "blit ''wrapped key failures''"
  obtain env w' where seal: "sender_seal P K LegacyPlaintext LegacyCbc 128 ?p legacy_context w = (Inr env, w')"
    and opens: "receiver_open P K LegacyPlaintext LegacyCbc 128 env legacy_context = Some (Inr ?p)"
    by (rule legacy_pair_seals [OF core, of ?p w]) (simp_all add: blit_length)
  have malformed: "receiver_open P K LegacyPlaintext LegacyCbc 128
      (env\<lparr>wrapped_session_key := base64_encode P (blit ''not SM2 DER'')\<rparr>) legacy_context = Some (Inl InvalidEnvelope)"
    by (rule pair_field_refused [OF core opens]) (simp add: base64_core [OF core] blit_def)
  obtain c w'' where c: "\<forall>calls. wrapped_plaintext_for_receiver P K (blit ''not-16-bytes'') (w', calls) =
      (Inr (base64_encode P c), (w'', calls))"
    "sm2_decrypt P (skey K RECEIVER_DECRYPTION) c = Some (blit ''not-16-bytes'')"
    by (rule wrapped_for_receiver [OF core, of "blit ''not-16-bytes''" w'])
  have wrong: "receiver_open P K LegacyPlaintext LegacyCbc 128 (env\<lparr>wrapped_session_key := base64_encode P c\<rparr>) legacy_context =
      Some (Inl InvalidEnvelope)"
    by (rule pair_wrong_length [OF core opens c(2)]) (simp add: blit_length)
  show ?thesis
    by (simp add: malformed_wrapped_keys_and_wrong_length_unwrapped_keys_are_indistinguishable_def passes_simps Let_def
        test_peers_eq [OF test_coreD(4) [OF core]] mode_ok_def passes_sealed_run [OF seal]
        passes_assert_refused [OF malformed] passes_run [where m = "wrapped_plaintext_for_receiver _ _ _", OF c(1) [rule_format]] passes_assert_refused [OF wrong])
qed

lemma wrong_decryption_key_passes:
  assumes core: "test_core P L K"
  shows "passes (wrong_decryption_key_is_an_invalid_envelope aead P L K) (w, calls) (\<lambda>_ _. True)"
proof -
  let ?p = "blit ''encrypted for receiver decryption role''"
  obtain env w' where seal: "sender_seal P K LegacyPlaintext LegacyCbc 128 ?p legacy_context w = (Inr env, w')"
    and opens: "receiver_open P K LegacyPlaintext LegacyCbc 128 env legacy_context = Some (Inr ?p)"
    by (rule legacy_pair_seals [OF core, of ?p w]) (simp_all add: blit_length)
  show ?thesis
    by (simp add: wrong_decryption_key_is_an_invalid_envelope_def passes_simps test_peers_eq [OF test_coreD(4) [OF core]]
        mode_ok_def passes_sealed_run [OF seal] wrong_keys_eq [OF core]
        passes_assert_refused [OF pair_wrong_keys(1) [OF core seal opens]])
qed

lemma legacy_cipher:
  assumes core: "test_core P L K"
    and seal: "sender_seal P K LegacyPlaintext LegacyCbc n p legacy_context w = (Inr env, w')"
  obtains f where "cipher env = base64_encode P f" "base64_decode P (cipher env) = Some f"
    "length f = (length p div 16 + 1) * 16"
proof -
  obtain key f where f: "length key = 16"
    "carries P (sender_config (pair_of P K LegacyPlaintext LegacyCbc n)) legacy_context key p f"
    "cipher env = base64_encode P f"
    by (rule seal_parts [OF core seal]) auto
  moreover have "length f = (length p div 16 + 1) * 16"
    using carries_length [OF core _ f(1,2)] test_signer_ids(3) by (simp add: payload_iv_def sealed_len_def)
  ultimately show ?thesis using that [of f] base64_core [OF core] by simp
qed

lemma cipher_tampering_passes:
  assumes core: "test_core P L K" and b: "binds_message P LegacyPlaintext legacy_context (replicate 17 0x78)"
  shows "passes (cbc_padding_and_cipher_tampering_is_an_invalid_envelope aead P L K) (w, calls) (\<lambda>_ _. True)"
proof -
  let ?p = "replicate 17 0x78"
  have lim: "pair_limits LegacyPlaintext LegacyCbc 128" by (simp add: pair_limits_def mode_ok_def)
  obtain env w' where seal: "sender_seal P K LegacyPlaintext LegacyCbc 128 ?p legacy_context w = (Inr env, w')"
    and opens: "receiver_open P K LegacyPlaintext LegacyCbc 128 env legacy_context = Some (Inr ?p)"
    by (rule legacy_pair_seals [OF core, of ?p w]) simp_all
  obtain f where f: "base64_decode P (cipher env) = Some f" "length f = 32"
    by (rule legacy_cipher [OF core seal]) simp
  then have "f \<noteq> []" by auto
  have refused: "receiver_open P K LegacyPlaintext LegacyCbc 128
      (env\<lparr>cipher := base64_encode P (f[i := f ! i XOR v])\<rparr>) legacy_context = Some (Inl InvalidEnvelope)"
    if "i < 32" "v \<noteq> 0" for i v
    by (rule pair_tampered [OF core lim seal opens b f(1) set_at_changes]) (use that f(2) in simp_all)
  show ?thesis
    using \<open>f \<noteq> []\<close>
    by (simp add: cbc_padding_and_cipher_tampering_is_an_invalid_envelope_def passes_simps
        test_peers_eq [OF test_coreD(4) [OF core]] mode_ok_def passes_sealed_run [OF seal] f usize_sub_def set_at_def
        passes_assert_refused [OF refused])
qed

lemma truncated_cipher_passes:
  assumes core: "test_core P L K"
    and b: "binds_message P LegacyPlaintext legacy_context (blit ''truncation and signature encoding'')"
  shows "passes (truncated_cipher_and_malformed_signature_encoding_are_invalid_envelopes aead P L K) (w, calls) (\<lambda>_ _. True)"
proof -
  let ?p = "blit ''truncation and signature encoding''"
  have lim: "pair_limits LegacyPlaintext LegacyCbc 128" by (simp add: pair_limits_def mode_ok_def)
  obtain env w' where seal: "sender_seal P K LegacyPlaintext LegacyCbc 128 ?p legacy_context w = (Inr env, w')"
    and opens: "receiver_open P K LegacyPlaintext LegacyCbc 128 env legacy_context = Some (Inr ?p)"
    by (rule legacy_pair_seals [OF core, of ?p w]) (simp_all add: blit_length)
  obtain f where f: "base64_decode P (cipher env) = Some f" "length f = (length ?p div 16 + 1) * 16"
    by (rule legacy_cipher [OF core seal])
  then have ne: "f \<noteq> []" by auto
  then have "butlast f \<noteq> f" using length_butlast [of f] by (metis One_nat_def diff_less length_greater_0_conv less_irrefl zero_less_one)
  then have truncated: "receiver_open P K LegacyPlaintext LegacyCbc 128
      (env\<lparr>cipher := base64_encode P (butlast f)\<rparr>) legacy_context = Some (Inl InvalidEnvelope)"
    by (rule pair_tampered [OF core lim seal opens b f(1)]) simp_all
  have sig: "receiver_open P K LegacyPlaintext LegacyCbc 128
      (env\<lparr>signature := base64_encode P [0x30, 0x01, 0x00]\<rparr>) legacy_context = Some (Inl InvalidEnvelope)"
    by (rule pair_signature_refused [OF core opens]) (simp add: base64_core [OF core])
  show ?thesis
    by (simp add: truncated_cipher_and_malformed_signature_encoding_are_invalid_envelopes_def passes_simps
        test_peers_eq [OF test_coreD(4) [OF core]] mode_ok_def passes_sealed_run [OF seal] f(1) popped_eq [OF ne]
        passes_assert_refused [OF truncated] passes_assert_refused [OF sig])
qed

lemma signature_tampering_passes:
  assumes core: "test_core P L K"
    and b: "binds_message P LegacyPlaintext legacy_context (blit ''decrypted plaintext must remain unverified'')"
  shows "passes (signature_tampering_and_wrong_verification_key_are_indistinguishable aead P L K) (w, calls) (\<lambda>_ _. True)"
proof -
  let ?p = "blit ''decrypted plaintext must remain unverified''"
  obtain env w' where seal: "sender_seal P K LegacyPlaintext LegacyCbc 128 ?p legacy_context w = (Inr env, w')"
    and opens: "receiver_open P K LegacyPlaintext LegacyCbc 128 env legacy_context = Some (Inr ?p)"
    by (rule legacy_pair_seals [OF core, of ?p w]) (simp_all add: blit_length)
  obtain s where s: "base64_decode P (signature env) = Some s" "flip_final_byte s = Some (flip_last s)"
    by (rule sealed_signature [OF core seal])
  show ?thesis
    by (simp add: signature_tampering_and_wrong_verification_key_are_indistinguishable_def passes_simps
        test_peers_eq [OF test_coreD(4) [OF core]] mode_ok_def passes_sealed_run [OF seal] s wrong_keys_eq [OF core]
        passes_assert_refused [OF pair_flipped [OF core seal opens b s(1)]]
        passes_assert_refused [OF pair_wrong_keys(2) [OF core seal opens b]])
qed

lemma passes_refused_after:
  "envelope_open P c k env legacy_context = Some (Inl InvalidEnvelope) \<Longrightarrow>
     passes (assert_refused_after n P c k env) (w, calls) Q \<longleftrightarrow> tally P c k env 0 = n \<and> Q () (w, 0)"
  by (simp add: assert_refused_after_def passes_simps passes_assert_refused)

lemma record_first: "record_verify_call 0 = 1"
  by (simp add: record_verify_call_def)

lemma opened_reaches:
  assumes "envelope_open P c k env x = Some (Inr p)" "envelope_mode c = LegacyCbc"
  shows "cbc_reaches_verify P c k env"
  using assms by (auto simp: opens_to_iff opens_to_def reaches_verify_iff)

lemma reaches_with_cipher:
  assumes "cbc_reaches_verify P c k env" "base64_decode P ciph = Some f"
    and "str_len ciph \<le> base64_len (padded_cipher_len (max_plaintext_bytes c'))"
    "length f \<le> padded_cipher_len (max_plaintext_bytes c')"
  shows "cbc_reaches_verify P c' k (env\<lparr>cipher := ciph\<rparr>)"
  using assms by (auto simp: cbc_reaches_verify_def split: option.splits)

lemma reaches_with_signature:
  assumes "cbc_reaches_verify P c k env" "base64_decode P sig = Some s" "str_len sig \<le> MAX_AUXILIARY_BASE64_BYTES"
  shows "cbc_reaches_verify P c k (env\<lparr>signature := sig\<rparr>)"
  using assms by (auto simp: cbc_reaches_verify_def split: option.splits)

lemma exactly_one_verification_passes:
  assumes core: "test_core P L K" and b: "binds_message P LegacyPlaintext legacy_context (replicate 17 0x78)"
  shows "passes (open_runs_exactly_one_verification_on_every_post_unwrap_path aead P L K) (w, calls) (\<lambda>_ _. True)"
proof -
  note b64 = crypto_lawsD(2) [OF test_coreD(1) [OF core]]
  let ?p = "replicate 17 0x78" and ?ps = "pair_of P K LegacyPlaintext LegacyCbc 128"
  let ?small = "pair_of P K LegacyPlaintext LegacyCbc 16"
  have lim: "pair_limits LegacyPlaintext LegacyCbc 128" by (simp add: pair_limits_def mode_ok_def)
  have limits: "padded_cipher_len 128 = 144" "padded_cipher_len 16 = 32" "base64_len 144 = 192" "base64_len 32 = 44"
    "cipher_bound (receiver_config ?small) = 44"
    by (simp_all add: cipher_bound_def padded_cipher_len_eq base64_len_eq usize_MAX_def)
  obtain env w' where seal: "sender_seal P K LegacyPlaintext LegacyCbc 128 ?p legacy_context w = (Inr env, w')"
    and opens: "receiver_open P K LegacyPlaintext LegacyCbc 128 env legacy_context = Some (Inr ?p)"
    by (rule legacy_pair_seals [OF core, of ?p w]) simp_all
  obtain f where f: "cipher env = base64_encode P f" "base64_decode P (cipher env) = Some f" "length f = 32"
    by (rule legacy_cipher [OF core seal]) simp
  obtain t w3 s where s: "sm2_sign_with_id P (skey K SENDER_SIGNING) SENDER_SIGNER_ID t w3 = (Some s, w')"
    "signature env = base64_encode P s"
    by (rule seal_parts [OF core seal]) auto
  have len: "0 < length s" "length s \<le> 256"
    using crypto_lawsD(4) [OF test_coreD(1) [OF core]] s(1) unfolding sm2_sizes_def by blast+
  note reach = opened_reaches [OF opens pair_fields(4)]
  let ?f = "f[15 := f ! 15 XOR 0x0f]"
  have padding: "receiver_open P K LegacyPlaintext LegacyCbc 128 (env\<lparr>cipher := base64_encode P ?f\<rparr>) legacy_context =
      Some (Inl InvalidEnvelope)"
    by (rule pair_tampered [OF core lim seal opens b f(2) set_at_changes]) (use f(3) in simp_all)
  have r1: "cbc_reaches_verify P (receiver_config ?ps) (receiver_keys ?ps) (env\<lparr>cipher := base64_encode P ?f\<rparr>)"
    by (rule reaches_with_cipher [OF reach base64_core [OF core]]) (simp_all add: base64_str_len [OF b64] f(3) limits)
  have small: "receiver_open P K LegacyPlaintext LegacyCbc 16 env legacy_context = Some (Inl InvalidEnvelope)"
    by (rule smaller_limit_refused [OF core lim seal opens]) (simp_all add: limits sealed_len_def)
  have "cbc_reaches_verify P (receiver_config ?small) (receiver_keys ?ps) (env\<lparr>cipher := cipher env\<rparr>)"
    by (rule reaches_with_cipher [OF reach f(2)]) (simp_all add: f(1,3) base64_str_len [OF b64] limits)
  moreover have "receiver_keys ?small = receiver_keys ?ps" by (simp add: pair_of_def)
  ultimately have r2: "cbc_reaches_verify P (receiver_config ?small) (receiver_keys ?small) env" by simp
  have flipped: "receiver_open P K LegacyPlaintext LegacyCbc 128
      (env\<lparr>signature := base64_encode P (flip_last s)\<rparr>) legacy_context = Some (Inl InvalidEnvelope)"
    by (rule pair_flipped [OF core seal opens b]) (simp add: s(2) base64_core [OF core])
  have r3: "cbc_reaches_verify P (receiver_config ?ps) (receiver_keys ?ps) (env\<lparr>signature := base64_encode P (flip_last s)\<rparr>)"
    by (rule reaches_with_signature [OF reach base64_core [OF core] small_encoded [OF b64]])
      (use len in \<open>simp add: flip_last_def\<close>)
  have bad: "base64_decode P (base64_encode P (blit ''not an SM2 ciphertext'')) = Some (blit ''not an SM2 ciphertext'')"
    "\<And>sk. sm2_decrypt P sk (blit ''not an SM2 ciphertext'') = None"
    using sm2_strictD(1) [OF core, of _ "blit ''not an SM2 ciphertext''"]
    by (simp add: base64_core [OF core], force simp: blit_def)
  have unwrap: "receiver_open P K LegacyPlaintext LegacyCbc 128
      (env\<lparr>wrapped_session_key := base64_encode P (blit ''not an SM2 ciphertext'')\<rparr>) legacy_context = Some (Inl InvalidEnvelope)"
    by (rule pair_field_refused [OF core opens]) (simp add: bad(1), simp add: blit_def)
  have r4: "\<not> cbc_reaches_verify P (receiver_config ?ps) (receiver_keys ?ps)
      (env\<lparr>wrapped_session_key := base64_encode P (blit ''not an SM2 ciphertext'')\<rparr>)"
    by (auto simp: cbc_reaches_verify_def bad split: option.split)
  have flip: "flip_final_byte s = Some (flip_last s)" using len by (intro flip_final_byte_eq) auto
  show ?thesis
    by (simp add: open_runs_exactly_one_verification_on_every_post_unwrap_path_def passes_simps
        test_peers_eq [OF test_coreD(4) [OF core]] mode_ok_def passes_sealed_run [OF seal] passes_opened [OF opens]
        f(2,3) s(2) base64_core [OF core] usize_sub_def set_at_def flip
        passes_refused_after [OF padding] passes_refused_after [OF small] passes_refused_after [OF flipped]
        passes_refused_after [OF unwrap] tally_def reach r1 r2 r3 r4 record_first)
qed

lemma signed_cleartext_passes:
  assumes core: "test_core P L K"
    and b: "binds_message P LegacyPlaintext legacy_context (blit ''a legitimately signed plaintext, replayed as cleartext'')"
  shows "passes (a_signed_cleartext_placed_in_cipher_reaches_verify_yet_is_rejected aead P L K) (w, calls) (\<lambda>_ _. True)"
proof -
  note b64 = crypto_lawsD(2) [OF test_coreD(1) [OF core]]
  let ?p = "blit ''a legitimately signed plaintext, replayed as cleartext''"
  let ?ps = "pair_of P K LegacyPlaintext LegacyCbc 128"
  have lim: "pair_limits LegacyPlaintext LegacyCbc 128" by (simp add: pair_limits_def mode_ok_def)
  obtain env w' where seal: "sender_seal P K LegacyPlaintext LegacyCbc 128 ?p legacy_context w = (Inr env, w')"
    and opens: "receiver_open P K LegacyPlaintext LegacyCbc 128 env legacy_context = Some (Inr ?p)"
    by (rule legacy_pair_seals [OF core, of ?p w]) (simp_all add: blit_length)
  obtain f where f: "base64_decode P (cipher env) = Some f" "length f = (length ?p div 16 + 1) * 16"
    by (rule legacy_cipher [OF core seal])
  then have "?p \<noteq> f" by (auto simp: blit_length)
  then have refused: "receiver_open P K LegacyPlaintext LegacyCbc 128 (env\<lparr>cipher := base64_encode P ?p\<rparr>) legacy_context =
      Some (Inl InvalidEnvelope)"
    by (rule pair_tampered [OF core lim seal opens b f(1)]) (simp_all add: f(2) blit_length)
  have "cbc_reaches_verify P (receiver_config ?ps) (receiver_keys ?ps) (env\<lparr>cipher := base64_encode P ?p\<rparr>)"
    by (rule reaches_with_cipher [OF opened_reaches [OF opens pair_fields(4)] base64_core [OF core]])
      (simp_all add: base64_str_len [OF b64] blit_length padded_cipher_len_eq base64_len_eq usize_MAX_def)
  then show ?thesis
    by (simp add: a_signed_cleartext_placed_in_cipher_reaches_verify_yet_is_rejected_def passes_simps Let_def blit_length
        test_peers_eq [OF test_coreD(4) [OF core]] mode_ok_def passes_sealed_run [OF seal] passes_open [OF refused]
        tally_def record_first)
qed

section \<open>The suite\<close>

definition cbc_tests :: "bool \<Rightarrow> ('w, 'sk, 'pk, 'cert) core_test list" where
  "cbc_tests aead = [
     legacy_exact_plaintext_round_trips_in_both_directions_with_distinct_roles aead,
     context_bound_round_trip_rejects_different_or_wrong_context_kinds aead,
     context_bound_round_trip_preserves_exact_unicode_utf8_bytes aead,
     context_bound_domain_separator_is_part_of_the_verified_transcript aead,
     empty_plaintext_round_trips aead,
     plaintext_length_sweep_round_trips_across_block_and_base64_boundaries aead,
     configured_plaintext_boundary_round_trips aead,
     every_seal_uses_a_fresh_random_session_key aead,
     seal_rejects_plaintext_over_the_configured_limit aead,
     oversized_encoded_or_decoded_cipher_is_rejected_before_key_operations aead,
     oversized_wrapped_key_and_signature_inputs_are_bounded aead,
     post_decrypt_oversize_and_unverified_plaintext_are_never_returned aead,
     invalid_base64_in_any_envelope_field_is_indistinguishable aead,
     base64_requires_canonical_trailing_bits_and_standard_padding aead,
     malformed_wrapped_keys_and_wrong_length_unwrapped_keys_are_indistinguishable aead,
     wrong_decryption_key_is_an_invalid_envelope aead,
     cbc_padding_and_cipher_tampering_is_an_invalid_envelope aead,
     truncated_cipher_and_malformed_signature_encoding_are_invalid_envelopes aead,
     signature_tampering_and_wrong_verification_key_are_indistinguishable aead,
     open_runs_exactly_one_verification_on_every_post_unwrap_path aead,
     a_signed_cleartext_placed_in_cipher_reaches_verify_yet_is_rejected aead]"

text \<open>The messages whose envelopes the tests tamper with.\<close>

definition cbc_signed_messages :: "(AuthenticationMode \<times> AuthenticationContext \<times> bytes) list" where
  "cbc_signed_messages = [
     (ContextBound (blit ''example/request/v1''), AuthenticationContext (Bound (blit ''operation=pay&id=17'')),
        blit ''context-bound payload''),
     (ContextBound (blit ''example/request/v1''), AuthenticationContext (Bound (blit ''operation=pay&id=17'')),
        blit ''domain-separated payload''),
     (LegacyPlaintext, legacy_context, replicate 17 0x78),
     (LegacyPlaintext, legacy_context, blit ''truncation and signature encoding''),
     (LegacyPlaintext, legacy_context, blit ''decrypted plaintext must remain unverified''),
     (LegacyPlaintext, legacy_context, blit ''a legitimately signed plaintext, replayed as cleartext'')]"



end
