(* ===== verification/Aead_Tests.thy ===== *)
theory Aead_Tests
  imports Test_Instance
begin

text \<open>
  The unit tests of \<^verbatim>\<open>src/envelope_crypto/aead.rs\<close>, one definition per test function. A GCM test
  and its CCM twin differ in their fixtures and literals only, so each pair is one body with
  two instances. The tests are shown to pass for every implementation of SM2, SM4
  and Base64 with the behaviour that \<open>test_core\<close> names; the two tests of the literal AAD call the cipher
  directly and are shown to pass exactly when it rejects their four altered AADs.
\<close>

unbundle bit_operations_syntax

section \<open>Helpers of the tests\<close>

definition TEST_FRAME_HEADER_BYTES :: usize where
  "TEST_FRAME_HEADER_BYTES = 14"

definition TEST_FRAME_OVERHEAD_BYTES :: usize where
  "TEST_FRAME_OVERHEAD_BYTES = 30"

definition TEST_TAG_BYTES :: usize where
  "TEST_TAG_BYTES = 16"

type_synonym ('sk, 'pk) fixture = "AuthenticationMode \<Rightarrow> usize \<Rightarrow> ('sk, 'pk) Peers option"

text \<open>Indexing and slicing, which panic out of range.\<close>

definition byte_at :: "bytes \<Rightarrow> usize \<Rightarrow> byte option" where
  "byte_at bs i = (if i < length bs then Some (bs ! i) else None)"

definition subslice :: "bytes \<Rightarrow> usize \<Rightarrow> usize \<Rightarrow> bytes option" where
  "subslice bs a b = (if a \<le> b \<and> b \<le> length bs then Some (take (b - a) (drop a bs)) else None)"

definition assert_byte :: "bytes \<Rightarrow> usize \<Rightarrow> byte \<Rightarrow> ('w, unit) test" where
  "assert_byte bs i v = bindW (unwrapT (byte_at bs i)) (\<lambda>b. assertT (b = v))"

definition valid_envelope :: "('w, 'sk, 'pk) crypto \<Rightarrow> ('sk, 'pk) Peers \<Rightarrow> ('w, SecureEnvelope) test" where
  "valid_envelope P ps =
     sealed P (sender_config ps) (sender_keys ps) (blit ''aead negative-matrix payload'') legacy_context"

definition valid_ccm_envelope :: "('w, 'sk, 'pk) crypto \<Rightarrow> ('sk, 'pk) Peers \<Rightarrow> ('w, SecureEnvelope) test" where
  "valid_ccm_envelope P ps =
     sealed P (sender_config ps) (sender_keys ps) (blit ''ccm negative-matrix payload'') legacy_context"

definition with_mutated_frame ::
  "('w, 'sk, 'pk) crypto \<Rightarrow> SecureEnvelope \<Rightarrow> (bytes \<Rightarrow> bytes option) \<Rightarrow> SecureEnvelope option" where
  "with_mutated_frame P valid mutate =
     Option.bind (base64_decode P (cipher valid)) (\<lambda>frame.
     Option.bind (mutate frame) (\<lambda>frame.
     Some (valid\<lparr>cipher := base64_encode P frame\<rparr>)))"

definition literal_aad :: "bytes \<Rightarrow> bytes \<Rightarrow> bytes \<Rightarrow> bytes \<Rightarrow> bytes option" where
  "literal_aad label frame_header domain protocol_context =
     (let aad = [] in
      Option.bind (u64_try_from (length label)) (\<lambda>label_len.
      let aad = (aad @ u64_to_be_bytes label_len) @ label in
      Option.bind (u64_try_from (length frame_header)) (\<lambda>header_len.
      let aad = (aad @ u64_to_be_bytes header_len) @ frame_header in
      Option.bind (u64_try_from (length domain)) (\<lambda>domain_len.
      let aad = (aad @ u64_to_be_bytes domain_len) @ domain in
      Option.bind (u64_try_from (length protocol_context)) (\<lambda>context_len.
      let aad = (aad @ u64_to_be_bytes context_len) @ protocol_context in
      Some aad)))))"

text \<open>The array of mutated envelopes is built first, then the receiver refuses each of them.\<close>

definition assert_all_refused ::
  "('w, 'sk, 'pk) crypto \<Rightarrow> ('sk, 'pk) Peers \<Rightarrow> SecureEnvelope option list \<Rightarrow> ('w, unit) test" where
  "assert_all_refused P ps mutations =
     bindW (unwrapT (those mutations)) (\<lambda>mutations.
     for_eachW (\<lambda>mutated. assert_refused P (receiver_config ps) (receiver_keys ps) mutated legacy_context) mutations)"

section \<open>Round trips\<close>

definition both_directions ::
  "('w, 'sk, 'pk) crypto \<Rightarrow> ('sk, 'pk) fixture \<Rightarrow> byte \<Rightarrow> bytes \<Rightarrow> bytes \<Rightarrow> ('w, unit) test" where
  "both_directions P peers_of algorithm_id request response =
     bindW (unwrapT (peers_of LegacyPlaintext 256)) (\<lambda>ps.
     (let ctx = legacy_context in
      bindW (sealed P (sender_config ps) (sender_keys ps) request ctx) (\<lambda>env.
      bindW (unwrapT (base64_decode P (cipher env))) (\<lambda>frame.
      bindW (assertT (length frame = length request + TEST_FRAME_OVERHEAD_BYTES)) (\<lambda>_.
      bindW (assert_byte frame 0 0x01) (\<lambda>_.
      bindW (assert_byte frame 1 algorithm_id) (\<lambda>_.
      bindW (assert_opens P (receiver_config ps) (receiver_keys ps) env ctx request) (\<lambda>_.
      bindW (sealed P (receiver_config ps) (receiver_keys ps) response ctx) (\<lambda>reply.
      assert_opens P (sender_config ps) (sender_keys ps) reply ctx response)))))))))"

definition aead_round_trips_in_both_directions_with_distinct_roles :: "('w, 'sk, 'pk, 'cert) core_test" where
  "aead_round_trips_in_both_directions_with_distinct_roles P L K =
     both_directions P (aead_peers P L K) 0x01
       (blit ''aead request payload '' @ [0] @ blit '' with binary bytes'')
       (blit ''aead response uses inverse directional roles'')"

definition ccm_round_trips_in_both_directions_with_distinct_roles :: "('w, 'sk, 'pk, 'cert) core_test" where
  "ccm_round_trips_in_both_directions_with_distinct_roles P L K =
     both_directions P (ccm_peers P L K) 0x02
       (blit ''ccm request payload '' @ [0] @ blit '' with binary bytes'')
       (blit ''ccm response uses inverse directional roles'')"

definition bound_round_trip ::
  "('w, 'sk, 'pk) crypto \<Rightarrow> ('sk, 'pk) fixture \<Rightarrow> bytes \<Rightarrow> bytes \<Rightarrow> ('w, unit) test" where
  "bound_round_trip P peers_of domain payload =
     bindW (expectT (AuthenticationMode_context_bound domain)) (\<lambda>mode.
     bindW (unwrapT (peers_of mode 256)) (\<lambda>ps.
     bindW (expectT (AuthenticationContext_context_bound (blit ''operation=pay&id=17''))) (\<lambda>ctx.
     bindW (sealed P (sender_config ps) (sender_keys ps) payload ctx) (\<lambda>env.
     bindW (assert_opens P (receiver_config ps) (receiver_keys ps) env ctx payload) (\<lambda>_.
     bindW (expectT (AuthenticationContext_context_bound (blit ''operation=pay&id=18''))) (\<lambda>different.
     bindW (assert_refused P (receiver_config ps) (receiver_keys ps) env different) (\<lambda>_.
     bindW (assert_refused P (receiver_config ps) (receiver_keys ps) env legacy_context) (\<lambda>_.
     bindW (sealT P (sender_config ps) (sender_keys ps) (blit ''wrong context kind'') legacy_context) (\<lambda>r.
     bindW (expect_errT r) (\<lambda>seal_error.
     assertT (seal_error = AuthenticationContextError)))))))))))"

definition aead_context_bound_round_trip_rejects_wrong_or_mismatched_contexts ::
  "('w, 'sk, 'pk, 'cert) core_test" where
  "aead_context_bound_round_trip_rejects_wrong_or_mismatched_contexts P L K =
     bound_round_trip P (aead_peers P L K) (blit ''example/aead/v1'') (blit ''context-bound aead payload'')"

definition ccm_context_bound_round_trip_rejects_wrong_or_mismatched_contexts ::
  "('w, 'sk, 'pk, 'cert) core_test" where
  "ccm_context_bound_round_trip_rejects_wrong_or_mismatched_contexts P L K =
     bound_round_trip P (ccm_peers P L K) (blit ''example/ccm/v1'') (blit ''context-bound ccm payload'')"

definition boundary_round_trips :: "('w, 'sk, 'pk) crypto \<Rightarrow> ('sk, 'pk) fixture \<Rightarrow> ('w, unit) test" where
  "boundary_round_trips P peers_of =
     bindW (unwrapT (peers_of LegacyPlaintext 64)) (\<lambda>ps.
     for_eachW (\<lambda>plaintext.
       bindW (sealed P (sender_config ps) (sender_keys ps) plaintext legacy_context) (\<lambda>env.
       assert_opens P (receiver_config ps) (receiver_keys ps) env legacy_context plaintext))
       [[], replicate 64 0xa5, unicode_plaintext])"

definition aead_round_trips_empty_boundary_and_unicode_plaintext :: "('w, 'sk, 'pk, 'cert) core_test" where
  "aead_round_trips_empty_boundary_and_unicode_plaintext P L K = boundary_round_trips P (aead_peers P L K)"

definition ccm_round_trips_empty_boundary_and_unicode_plaintext :: "('w, 'sk, 'pk, 'cert) core_test" where
  "ccm_round_trips_empty_boundary_and_unicode_plaintext P L K = boundary_round_trips P (ccm_peers P L K)"

definition LENGTHS :: "usize list" where
  "LENGTHS = [0, 1, 2, 3, 4, 5, 15, 16, 17, 31, 32, 33, 63, 64, 65, 255, 256, 257, 1023, 1024, 1025]"

definition frame_sweep_case ::
  "('w, 'sk, 'pk) crypto \<Rightarrow> ('sk, 'pk) Peers \<Rightarrow> AuthenticationContext \<Rightarrow> usize \<Rightarrow> ('w, unit) test" where
  "frame_sweep_case P ps ctx n =
     (let plaintext = sweep_plaintext n in
      bindW (sealed P (sender_config ps) (sender_keys ps) plaintext ctx) (\<lambda>env.
      bindW (unwrapT (base64_decode P (cipher env))) (\<lambda>framed.
      bindW (assertT (length framed = n + TEST_FRAME_OVERHEAD_BYTES)) (\<lambda>_.
      bindW (opened P (receiver_config ps) (receiver_keys ps) env ctx) (\<lambda>p.
      assertT (p = plaintext))))))"

definition frame_sweep :: "('w, 'sk, 'pk) crypto \<Rightarrow> ('sk, 'pk) fixture \<Rightarrow> bytes \<Rightarrow> ('w, unit) test" where
  "frame_sweep P peers_of domain =
     bindW (expectT (AuthenticationMode_context_bound domain)) (\<lambda>bound_mode.
     bindW (expectT (AuthenticationContext_context_bound (blit ''operation=sweep''))) (\<lambda>bound_context.
     for_eachW (\<lambda>(mode, ctx).
       bindW (unwrapT (peers_of mode 2048)) (\<lambda>ps. for_eachW (frame_sweep_case P ps ctx) LENGTHS))
       [(LegacyPlaintext, legacy_context), (bound_mode, bound_context)]))"

definition aead_plaintext_length_sweep_round_trips_across_frame_and_base64_boundaries ::
  "('w, 'sk, 'pk, 'cert) core_test" where
  "aead_plaintext_length_sweep_round_trips_across_frame_and_base64_boundaries P L K =
     frame_sweep P (aead_peers P L K) (blit ''example/aead-sweep/v1'')"

definition ccm_plaintext_length_sweep_round_trips_across_frame_and_base64_boundaries ::
  "('w, 'sk, 'pk, 'cert) core_test" where
  "ccm_plaintext_length_sweep_round_trips_across_frame_and_base64_boundaries P L K =
     frame_sweep P (ccm_peers P L K) (blit ''example/ccm-sweep/v1'')"

definition fresh_key_and_nonce ::
  "('w, 'sk, 'pk) crypto \<Rightarrow> ('sk, 'pk) raw_keys \<Rightarrow> ('sk, 'pk) fixture \<Rightarrow> ('w, unit) test" where
  "fresh_key_and_nonce P K peers_of =
     bindW (unwrapT (peers_of LegacyPlaintext 128)) (\<lambda>ps.
     (let plaintext = blit ''same payload'' in
      bindW (sealed P (sender_config ps) (sender_keys ps) plaintext legacy_context) (\<lambda>first_envelope.
      bindW (sealed P (sender_config ps) (sender_keys ps) plaintext legacy_context) (\<lambda>second_envelope.
      bindW (unwrapT (base64_decode P (cipher first_envelope))) (\<lambda>first_frame.
      bindW (unwrapT (base64_decode P (cipher second_envelope))) (\<lambda>second_frame.
      bindW (unwrapT (subslice first_frame 2 TEST_FRAME_HEADER_BYTES)) (\<lambda>first_nonce.
      bindW (unwrapT (subslice second_frame 2 TEST_FRAME_HEADER_BYTES)) (\<lambda>second_nonce.
      bindW (assertT (first_nonce \<noteq> second_nonce)) (\<lambda>_.
      bindW (assertT (cipher first_envelope \<noteq> cipher second_envelope)) (\<lambda>_.
      bindW (unwrapT (raw_private_key K RECEIVER_DECRYPTION)) (\<lambda>receiver_private.
      bindW (unwrapT (base64_decode P (wrapped_session_key first_envelope))) (\<lambda>first_wrapped.
      bindW (unwrapT (base64_decode P (wrapped_session_key second_envelope))) (\<lambda>second_wrapped.
      bindW (unwrapT (sm2_decrypt P receiver_private first_wrapped)) (\<lambda>first_key.
      bindW (unwrapT (sm2_decrypt P receiver_private second_wrapped)) (\<lambda>second_key.
      assertT (first_key \<noteq> second_key))))))))))))))))"

definition every_aead_seal_uses_a_fresh_session_key_and_nonce :: "('w, 'sk, 'pk, 'cert) core_test" where
  "every_aead_seal_uses_a_fresh_session_key_and_nonce P L K = fresh_key_and_nonce P K (aead_peers P L K)"

definition every_ccm_seal_uses_a_fresh_session_key_and_nonce :: "('w, 'sk, 'pk, 'cert) core_test" where
  "every_ccm_seal_uses_a_fresh_session_key_and_nonce P L K = fresh_key_and_nonce P K (ccm_peers P L K)"

section \<open>Size limits\<close>

definition over_limit_seal :: "('w, 'sk, 'pk) crypto \<Rightarrow> ('sk, 'pk) fixture \<Rightarrow> ('w, unit) test" where
  "over_limit_seal P peers_of =
     bindW (unwrapT (peers_of LegacyPlaintext 8)) (\<lambda>ps.
     bindW (sealT P (sender_config ps) (sender_keys ps) (blit ''123456789'') legacy_context) (\<lambda>r.
     bindW (expect_errT r) (\<lambda>error. assertT (error = MessageTooLarge 8))))"

definition aead_seal_rejects_plaintext_over_the_configured_limit :: "('w, 'sk, 'pk, 'cert) core_test" where
  "aead_seal_rejects_plaintext_over_the_configured_limit P L K = over_limit_seal P (aead_peers P L K)"

definition ccm_seal_rejects_plaintext_over_the_configured_limit :: "('w, 'sk, 'pk, 'cert) core_test" where
  "ccm_seal_rejects_plaintext_over_the_configured_limit P L K = over_limit_seal P (ccm_peers P L K)"

definition ccm_client_at_the_nonce_ceiling_still_round_trips_a_small_payload :: "('w, 'sk, 'pk, 'cert) core_test" where
  "ccm_client_at_the_nonce_ceiling_still_round_trips_a_small_payload P L K =
     bindW (unwrapT (ccm_peers P L K LegacyPlaintext SM4_CCM_MAX_PLAINTEXT_BYTES)) (\<lambda>ps.
     bindW (assertT (max_plaintext_bytes (sender_config ps) = SM4_CCM_MAX_PLAINTEXT_BYTES)) (\<lambda>_.
     (let plaintext = blit ''under the q=3 ceiling'' in
      bindW (sealed P (sender_config ps) (sender_keys ps) plaintext legacy_context) (\<lambda>env.
      assert_opens P (receiver_config ps) (receiver_keys ps) env legacy_context plaintext))))"

definition ccm_seals_exactly_the_12_byte_nonce_ceiling :: "('w, 'sk, 'pk, 'cert) core_test" where
  "ccm_seals_exactly_the_12_byte_nonce_ceiling P L K =
     bindW (unwrapT (ccm_peers P L K LegacyPlaintext SM4_CCM_MAX_PLAINTEXT_BYTES)) (\<lambda>ps.
     (let plaintext = replicate SM4_CCM_MAX_PLAINTEXT_BYTES 0x5a in
      bindW (sealed P (sender_config ps) (sender_keys ps) plaintext legacy_context) (\<lambda>env.
      assert_opens P (receiver_config ps) (receiver_keys ps) env legacy_context plaintext)))"

definition split_bounds :: "('w, 'sk, 'pk) crypto \<Rightarrow> ('sk, 'pk) fixture \<Rightarrow> ('w, unit) test" where
  "split_bounds P peers_of =
     bindW (unwrapT (peers_of LegacyPlaintext 17)) (\<lambda>ps.
     (let encoded_too_large = \<lparr>cipher = concat (replicate 65 (lit ''!'')), wrapped_session_key = lit ''not Base64'',
            signature = lit ''not Base64''\<rparr> in
      bindW (openT P (receiver_config ps) (receiver_keys ps) encoded_too_large legacy_context) (\<lambda>r.
      bindW (expect_errT r) (\<lambda>encoded_error.
      bindW (assertT (encoded_error = MessageTooLarge 17)) (\<lambda>_.
      bindW (unwrapT (peers_of LegacyPlaintext 18)) (\<lambda>sealing_peers.
      bindW (sealed P (sender_config sealing_peers) (sender_keys sealing_peers) (replicate 18 0x7A) legacy_context) (\<lambda>valid.
      bindW (unwrapT (base64_decode P (cipher valid))) (\<lambda>decoded_frame.
      bindW (assertT (length decoded_frame = 48)) (\<lambda>_.
      bindW (assertT (str_len (cipher valid) = 64)) (\<lambda>_.
      (let decoded_too_large = valid\<lparr>cipher := base64_encode P decoded_frame\<rparr> in
       assert_refused P (receiver_config ps) (receiver_keys ps) decoded_too_large legacy_context)))))))))))"

definition aead_oversized_encoded_and_decoded_ciphers_split_the_public_bounds :: "('w, 'sk, 'pk, 'cert) core_test" where
  "aead_oversized_encoded_and_decoded_ciphers_split_the_public_bounds P L K = split_bounds P (aead_peers P L K)"

definition ccm_oversized_encoded_and_decoded_ciphers_split_the_public_bounds :: "('w, 'sk, 'pk, 'cert) core_test" where
  "ccm_oversized_encoded_and_decoded_ciphers_split_the_public_bounds P L K = split_bounds P (ccm_peers P L K)"

section \<open>Frames\<close>

definition wrong_headers ::
  "('w, 'sk, 'pk) crypto \<Rightarrow> ('sk, 'pk) fixture \<Rightarrow> (('sk, 'pk) Peers \<Rightarrow> ('w, SecureEnvelope) test) \<Rightarrow> byte \<Rightarrow>
    ('w, unit) test" where
  "wrong_headers P peers_of valid_of other_id =
     bindW (unwrapT (peers_of LegacyPlaintext 128)) (\<lambda>ps.
     bindW (valid_of ps) (\<lambda>valid.
     assert_all_refused P ps
       [with_mutated_frame P valid (set_at 0 (\<lambda>b. b XOR 0x01)),
        with_mutated_frame P valid (set_at 0 (\<lambda>_. 0x02)),
        with_mutated_frame P valid (set_at 1 (\<lambda>_. other_id)),
        with_mutated_frame P valid (set_at 1 (\<lambda>_. 0x7f))]))"

definition aead_gcm_rejects_wrong_version_and_non_gcm_algorithm_ids :: "('w, 'sk, 'pk, 'cert) core_test" where
  "aead_gcm_rejects_wrong_version_and_non_gcm_algorithm_ids P L K =
     wrong_headers P (aead_peers P L K) (valid_envelope P) 0x02"

definition ccm_rejects_wrong_version_and_non_ccm_algorithm_ids :: "('w, 'sk, 'pk, 'cert) core_test" where
  "ccm_rejects_wrong_version_and_non_ccm_algorithm_ids P L K =
     wrong_headers P (ccm_peers P L K) (valid_ccm_envelope P) 0x01"

definition short_frames ::
  "('w, 'sk, 'pk) crypto \<Rightarrow> ('sk, 'pk) fixture \<Rightarrow> (('sk, 'pk) Peers \<Rightarrow> ('w, SecureEnvelope) test) \<Rightarrow> byte \<Rightarrow>
    ('w, unit) test" where
  "short_frames P peers_of valid_of algorithm_id =
     bindW (unwrapT (peers_of LegacyPlaintext 128)) (\<lambda>ps.
     bindW (valid_of ps) (\<lambda>valid.
     (let floor_minus_one = (replicate 29 0)[0 := 0x01, 1 := algorithm_id] in
      assert_all_refused P ps
        [Some (valid\<lparr>cipher := base64_encode P floor_minus_one\<rparr>),
         Some (valid\<lparr>cipher := []\<rparr>),
         with_mutated_frame P valid (\<lambda>frame. Some (butlast frame)),
         with_mutated_frame P valid (\<lambda>frame. Some (take TEST_FRAME_HEADER_BYTES frame))])))"

definition aead_short_and_truncated_frames_are_rejected :: "('w, 'sk, 'pk, 'cert) core_test" where
  "aead_short_and_truncated_frames_are_rejected P L K = short_frames P (aead_peers P L K) (valid_envelope P) 0x01"

definition ccm_short_and_truncated_frames_are_rejected :: "('w, 'sk, 'pk, 'cert) core_test" where
  "ccm_short_and_truncated_frames_are_rejected P L K = short_frames P (ccm_peers P L K) (valid_ccm_envelope P) 0x02"

definition tampered_frames ::
  "('w, 'sk, 'pk) crypto \<Rightarrow> ('sk, 'pk) fixture \<Rightarrow> (('sk, 'pk) Peers \<Rightarrow> ('w, SecureEnvelope) test) \<Rightarrow> ('w, unit) test" where
  "tampered_frames P peers_of valid_of =
     bindW (unwrapT (peers_of LegacyPlaintext 128)) (\<lambda>ps.
     bindW (valid_of ps) (\<lambda>valid.
     assert_all_refused P ps
       [with_mutated_frame P valid (set_at 2 (\<lambda>b. b XOR 0x01)),
        with_mutated_frame P valid (set_at TEST_FRAME_HEADER_BYTES (\<lambda>b. b XOR 0x01)),
        with_mutated_frame P valid (\<lambda>frame.
          Option.bind (usize_sub (length frame) TEST_FRAME_OVERHEAD_BYTES) (\<lambda>ciphertext_len.
          let middle = TEST_FRAME_HEADER_BYTES + ciphertext_len div 2 in set_at middle (\<lambda>b. b XOR 0x01) frame)),
        with_mutated_frame P valid (\<lambda>frame.
          Option.bind (usize_sub (length frame) TEST_TAG_BYTES) (\<lambda>tag_start.
          Option.bind (usize_sub tag_start 1) (\<lambda>last_ciphertext. set_at last_ciphertext (\<lambda>b. b XOR 0x01) frame))),
        with_mutated_frame P valid (\<lambda>frame.
          Option.bind (usize_sub (length frame) 1) (\<lambda>last. set_at last (\<lambda>b. b XOR 0x01) frame)),
        with_mutated_frame P valid (\<lambda>frame.
          Option.bind (usize_sub (length frame) 16) (\<lambda>tag_start.
          Some (take tag_start frame @ replicate (length frame - tag_start) 0)))]))"

definition aead_nonce_ciphertext_and_tag_tampering_are_indistinguishable :: "('w, 'sk, 'pk, 'cert) core_test" where
  "aead_nonce_ciphertext_and_tag_tampering_are_indistinguishable P L K =
     tampered_frames P (aead_peers P L K) (valid_envelope P)"

definition ccm_nonce_ciphertext_and_tag_tampering_are_indistinguishable :: "('w, 'sk, 'pk, 'cert) core_test" where
  "ccm_nonce_ciphertext_and_tag_tampering_are_indistinguishable P L K =
     tampered_frames P (ccm_peers P L K) (valid_ccm_envelope P)"

section \<open>Authenticated data\<close>

definition other_domain ::
  "('w, 'sk, 'pk) crypto \<Rightarrow> ('sk, 'pk) fixture \<Rightarrow> AeadAlgorithm \<Rightarrow> bytes \<Rightarrow> ('w, unit) test" where
  "other_domain P peers_of algorithm payload =
     bindW (expectT (AuthenticationMode_context_bound (blit ''example/request/v1''))) (\<lambda>sender_mode.
     bindW (expectT (AuthenticationMode_context_bound (blit ''example/response/v1''))) (\<lambda>receiver_mode.
     bindW (unwrapT (peers_of sender_mode 256)) (\<lambda>ps.
     bindW (unwrapT (aead_config ''receiver'' RECEIVER_SIGNER_ID SENDER_SIGNER_ID receiver_mode 256 algorithm))
       (\<lambda>mismatched_receiver_config.
     bindW (expectT (AuthenticationContext_context_bound (blit ''operation=pay&id=17''))) (\<lambda>ctx.
     bindW (sealed P (sender_config ps) (sender_keys ps) payload ctx) (\<lambda>env.
     assert_refused P mismatched_receiver_config (receiver_keys ps) env ctx))))))"

definition aead_domain_separator_and_context_are_covered_by_the_aad :: "('w, 'sk, 'pk, 'cert) core_test" where
  "aead_domain_separator_and_context_are_covered_by_the_aad P L K =
     other_domain P (aead_peers P L K) Sm4Gcm (blit ''domain-separated aead payload'')"

definition ccm_domain_separator_and_context_are_covered_by_the_aad :: "('w, 'sk, 'pk, 'cert) core_test" where
  "ccm_domain_separator_and_context_are_covered_by_the_aad P L K =
     other_domain P (ccm_peers P L K) Sm4Ccm (blit ''domain-separated ccm payload'')"

text \<open>The four AADs that differ from the expected one in one field each.\<close>

definition different_aads :: "bytes \<Rightarrow> bytes \<Rightarrow> bytes \<Rightarrow> bytes \<Rightarrow> bytes list option" where
  "different_aads label frame_header domain protocol_context =
     Option.bind (set_at 0 (\<lambda>b. b XOR 0x01) frame_header) (\<lambda>different_header.
     those
       [literal_aad (blit ''gmcrypto-envelope-lite/aead-aad/v2'') frame_header domain protocol_context,
        literal_aad label different_header domain protocol_context,
        literal_aad label frame_header (blit ''example/response/v1'') protocol_context,
        literal_aad label frame_header domain (blit ''operation=pay&id=18'')])"

definition literal_aad_test ::
  "('w, 'sk, 'pk) crypto \<Rightarrow> ('sk, 'pk) raw_keys \<Rightarrow> ('sk, 'pk) fixture \<Rightarrow> byte \<Rightarrow>
    (bytes \<Rightarrow> bytes \<Rightarrow> bytes \<Rightarrow> bytes \<Rightarrow> bytes \<Rightarrow> bytes option) \<Rightarrow> bytes \<Rightarrow> ('w, unit) test" where
  "literal_aad_test P K peers_of algorithm_id primitive_decrypt plaintext =
     (let label = blit ''gmcrypto-envelope-lite/aead-aad/v1''; domain = blit ''example/request/v1'';
          protocol_context = blit ''operation=pay&id=17'' in
      bindW (expectT (AuthenticationMode_context_bound domain)) (\<lambda>mode.
      bindW (unwrapT (peers_of mode 256)) (\<lambda>ps.
      bindW (expectT (AuthenticationContext_context_bound protocol_context)) (\<lambda>ctx.
      bindW (sealed P (sender_config ps) (sender_keys ps) plaintext ctx) (\<lambda>env.
      (let untouched_envelope = env in
      bindW (unwrapT (base64_decode P (wrapped_session_key env))) (\<lambda>wrapped.
      bindW (unwrapT (raw_private_key K RECEIVER_DECRYPTION)) (\<lambda>receiver_private.
      bindW (unwrapT (sm2_decrypt P receiver_private wrapped)) (\<lambda>session_key.
      bindW (assertT (length session_key = 16)) (\<lambda>_.
      bindW (unwrapT (base64_decode P (cipher env))) (\<lambda>frame.
      bindW (assertT (length frame = TEST_FRAME_OVERHEAD_BYTES + length plaintext)) (\<lambda>_.
      bindW (unwrapT (subslice frame 0 TEST_FRAME_HEADER_BYTES)) (\<lambda>frame_header.
      bindW (assert_byte frame_header 0 0x01) (\<lambda>_.
      bindW (assert_byte frame_header 1 algorithm_id) (\<lambda>_.
      bindW (unwrapT (usize_sub (length frame) TEST_TAG_BYTES)) (\<lambda>ciphertext_end.
      bindW (unwrapT (subslice frame TEST_FRAME_HEADER_BYTES ciphertext_end)) (\<lambda>ciphertext.
      bindW (unwrapT (subslice frame ciphertext_end (length frame))) (\<lambda>tag.
      bindW (unwrapT (subslice frame_header 2 (length frame_header))) (\<lambda>nonce.
      bindW (unwrapT (literal_aad label frame_header domain protocol_context)) (\<lambda>expected_aad.
      bindW (unwrapT (primitive_decrypt session_key nonce expected_aad ciphertext tag)) (\<lambda>decrypted.
      bindW (assertT (decrypted = plaintext)) (\<lambda>_.
      bindW (unwrapT (different_aads label frame_header domain protocol_context)) (\<lambda>aads.
      bindW (for_eachW (\<lambda>different_aad.
        assertT (primitive_decrypt session_key nonce different_aad ciphertext tag = None)) aads) (\<lambda>_.
      assertT (env = untouched_envelope)))))))))))))))))))))))))"

definition aead_seal_gcm_tag_binds_literal_label_header_domain_and_context :: "('w, 'sk, 'pk, 'cert) core_test" where
  "aead_seal_gcm_tag_binds_literal_label_header_domain_and_context P L K =
     literal_aad_test P K (aead_peers P L K) 0x01 (gcm_decrypt P) (blit ''independently verified GCM AAD'')"

definition ccm_seal_tag_binds_literal_label_header_domain_and_context :: "('w, 'sk, 'pk, 'cert) core_test" where
  "ccm_seal_tag_binds_literal_label_header_domain_and_context P L K =
     literal_aad_test P K (ccm_peers P L K) 0x02
       (\<lambda>session_key nonce aad ciphertext tag. ccm_decrypt P session_key nonce aad (ciphertext @ tag) 16)
       (blit ''independently verified CCM AAD'')"

section \<open>Keys and modes\<close>

definition key_failures ::
  "('w, 'sk, 'pk) crypto \<Rightarrow> ('sk, 'pk, 'cert) key_lib \<Rightarrow> ('sk, 'pk) raw_keys \<Rightarrow> ('sk, 'pk) fixture \<Rightarrow>
    (('sk, 'pk) Peers \<Rightarrow> ('w, SecureEnvelope) test) \<Rightarrow> ('w, unit) test" where
  "key_failures P L K peers_of valid_of =
     bindW (unwrapT (peers_of LegacyPlaintext 128)) (\<lambda>ps.
     bindW (valid_of ps) (\<lambda>valid.
     (let malformed_wrapped = valid\<lparr>wrapped_session_key := base64_encode P (blit ''not SM2 DER'')\<rparr> in
      bindW (wrapped_plaintext_for_receiver P K (blit ''not-16-bytes'')) (\<lambda>wrapped.
      (let wrong_length_wrapped = valid\<lparr>wrapped_session_key := wrapped\<rparr> in
       bindW (unwrapT (base64_decode P (signature valid))) (\<lambda>tampered_signature_bytes.
       bindW (unwrapT (flip_final_byte tampered_signature_bytes)) (\<lambda>tampered_signature_bytes.
       (let tampered_signature = valid\<lparr>signature := base64_encode P tampered_signature_bytes\<rparr>;
            non_canonical = valid\<lparr>cipher := lit ''AA''\<rparr>;
            invalid_base64_wrapped = valid\<lparr>wrapped_session_key := lit ''!!!!''\<rparr>;
            invalid_base64_signature = valid\<lparr>signature := lit ''!!!!''\<rparr> in
        bindW (for_eachW (\<lambda>mutated. assert_refused P (receiver_config ps) (receiver_keys ps) mutated legacy_context)
          [malformed_wrapped, wrong_length_wrapped, tampered_signature, non_canonical, invalid_base64_wrapped,
           invalid_base64_signature]) (\<lambda>_.
        bindW (unwrapT (key_material P L K RECEIVER_SIGNING UNRELATED_KEY SENDER_SIGNING SENDER_DECRYPTION))
          (\<lambda>wrong_decryption.
        bindW (assert_refused P (receiver_config ps) wrong_decryption valid legacy_context) (\<lambda>_.
        bindW (unwrapT (key_material P L K RECEIVER_SIGNING RECEIVER_DECRYPTION UNRELATED_KEY SENDER_DECRYPTION))
          (\<lambda>wrong_verification.
        assert_refused P (receiver_config ps) wrong_verification valid legacy_context))))))))))))"

definition aead_wrapped_key_signature_and_wrong_key_failures_match_cbc_semantics :: "('w, 'sk, 'pk, 'cert) core_test" where
  "aead_wrapped_key_signature_and_wrong_key_failures_match_cbc_semantics P L K =
     key_failures P L K (aead_peers P L K) (valid_envelope P)"

definition ccm_wrapped_key_signature_and_wrong_key_failures_match_cbc_semantics :: "('w, 'sk, 'pk, 'cert) core_test" where
  "ccm_wrapped_key_signature_and_wrong_key_failures_match_cbc_semantics P L K =
     key_failures P L K (ccm_peers P L K) (valid_ccm_envelope P)"

definition reject_each_other ::
  "('w, 'sk, 'pk) crypto \<Rightarrow> ('sk, 'pk) fixture \<Rightarrow> bytes \<Rightarrow> ('sk, 'pk) fixture \<Rightarrow> bytes \<Rightarrow> ('w, unit) test" where
  "reject_each_other P peers_of first_payload peers_of2 second_payload =
     bindW (unwrapT (peers_of LegacyPlaintext 128)) (\<lambda>ps.
     bindW (unwrapT (peers_of2 LegacyPlaintext 128)) (\<lambda>ps2.
     bindW (sealed P (sender_config ps) (sender_keys ps) first_payload legacy_context) (\<lambda>first_envelope.
     bindW (assert_refused P (receiver_config ps2) (receiver_keys ps2) first_envelope legacy_context) (\<lambda>_.
     bindW (sealed P (sender_config ps2) (sender_keys ps2) second_payload legacy_context) (\<lambda>second_envelope.
     assert_refused P (receiver_config ps) (receiver_keys ps) second_envelope legacy_context)))))"

definition aead_and_cbc_clients_reject_each_other_s_envelopes :: "('w, 'sk, 'pk, 'cert) core_test" where
  "aead_and_cbc_clients_reject_each_other_s_envelopes P L K =
     reject_each_other P (test_peers True P L K) (blit ''cbc payload'') (aead_peers P L K) (blit ''aead payload'')"

definition ccm_and_gcm_clients_reject_each_other_s_envelopes :: "('w, 'sk, 'pk, 'cert) core_test" where
  "ccm_and_gcm_clients_reject_each_other_s_envelopes P L K =
     reject_each_other P (aead_peers P L K) (blit ''gcm payload'') (ccm_peers P L K) (blit ''ccm payload'')"

definition ccm_and_cbc_clients_reject_each_other_s_envelopes :: "('w, 'sk, 'pk, 'cert) core_test" where
  "ccm_and_cbc_clients_reject_each_other_s_envelopes P L K =
     reject_each_other P (test_peers True P L K) (blit ''cbc payload'') (ccm_peers P L K) (blit ''ccm payload'')"

section \<open>Fixtures and frames\<close>

definition builds ::
  "('w, 'sk, 'pk) crypto \<Rightarrow> ('sk, 'pk) raw_keys \<Rightarrow> ('sk, 'pk) fixture \<Rightarrow> EnvelopeMode \<Rightarrow> bool" where
  "builds P K peers_of payload \<longleftrightarrow>
     (\<forall>mode n. pair_limits mode payload n \<longrightarrow> peers_of mode n = Some (pair_of P K mode payload n))"

lemma buildsD: "builds P K peers_of payload \<Longrightarrow> pair_limits mode payload n \<Longrightarrow> peers_of mode n = Some (pair_of P K mode payload n)"
  by (simp add: builds_def)

lemma fixtures_build:
  assumes "test_core P L K"
  shows "builds P K (test_peers True P L K) LegacyCbc" "builds P K (aead_peers P L K) (Aead Sm4Gcm)"
    "builds P K (ccm_peers P L K) (Aead Sm4Ccm)"
  using test_peers_eq [OF test_coreD(4) [OF assms]] aead_peers_eq [OF test_coreD(4) [OF assms]]
  by (simp_all add: builds_def pair_limits_def)

lemma valid_envelopes:
  "valid_envelope P = (\<lambda>ps. sealed P (sender_config ps) (sender_keys ps) (blit ''aead negative-matrix payload'') legacy_context)"
  "valid_ccm_envelope P = (\<lambda>ps. sealed P (sender_config ps) (sender_keys ps) (blit ''ccm negative-matrix payload'') legacy_context)"
  by (simp_all add: fun_eq_iff valid_envelope_def valid_ccm_envelope_def)

lemma aead_parts:
  assumes core: "test_core P L K" and mode: "envelope_mode c = Aead alg"
    and seal: "envelope_seal P c k p x w = (Inr env, w')"
  obtains key w1 nonce w2 aad ct tag wrapped w3 t sig where
    "getrandom_fill P 16 w = (Some key, w1)" "getrandom_fill P 12 w1 = (Some nonce, w2)" "length key = 16"
    "length nonce = 12" "length ct = length p" "length tag = 16"
    "aead_aad (authentication_mode c) x ([1, algorithm_byte alg] @ nonce) = Inr aad"
    "aead_decrypt P alg key nonce aad ct tag = Inr p"
    "sm2_encrypt P (remote_encryption k) key w2 = (Some wrapped, w3)"
    "cipher env = base64_encode P (frame_of alg nonce ct tag)" "wrapped_session_key env = base64_encode P wrapped"
    "sm2_sign_with_id P (local_signing k) (local_signer_id c) t w3 = (Some sig, w')"
proof -
  note laws = crypto_lawsD [OF test_coreD(1) [OF core]]
  have "aead_seal P c k p x alg w = (Inr env, w')"
    using seal envelope_seal_within [OF seal] mode by (simp add: envelope_seal_mode)
  then obtain key w1 nonce w2 aad ct tag wrapped w3 t sig where
    *: "getrandom_fill P 16 w = (Some key, w1)" "getrandom_fill P 12 w1 = (Some nonce, w2)"
    "aead_aad (authentication_mode c) x ([1, algorithm_byte alg] @ nonce) = Inr aad"
    "aead_encrypt P alg key nonce aad p = Inr (ct, tag)"
    "sm2_encrypt P (remote_encryption k) key w2 = (Some wrapped, w3)"
    "cipher env = base64_encode P (frame_of alg nonce ct tag)" "wrapped_session_key env = base64_encode P wrapped"
    "sm2_sign_with_id P (local_signing k) (local_signer_id c) t w3 = (Some sig, w')"
    unfolding aead_seal_iff by auto
  have l: "length key = 16" "length nonce = 12" by (rule fill_length [OF laws(1) *(1)], rule fill_length [OF laws(1) *(2)])
  have d: "aead_decrypt P alg key nonce aad ct tag = Inr p" "length ct = length p" "length tag = 16"
    using aead_encrypt_decrypt [OF laws(6,7) *(4)] by simp_all
  show ?thesis by (rule that [OF *(1,2) l d(2,3) *(3) d(1) *(5,6,7,8)])
qed

text \<open>The frame of a sealed envelope.\<close>

lemma sealed_frame:
  assumes core: "test_core P L K" and seal: "sender_seal P K mode (Aead alg) n p x w = (Inr env, w')"
  obtains f where "cipher env = base64_encode P f" "base64_decode P (cipher env) = Some f" "length f = length p + 30"
    "f ! 0 = 1" "f ! Suc 0 = algorithm_byte alg" "f \<noteq> []"
proof -
  obtain nonce ct tag where f: "length nonce = 12" "length ct = length p" "length tag = 16"
    "cipher env = base64_encode P (frame_of alg nonce ct tag)"
    by (rule aead_parts [OF core _ seal]) simp_all
  then show ?thesis
    by (intro that [of "frame_of alg nonce ct tag"]) (simp_all add: base64_core [OF core] frame_of_def)
qed

lemma encoded_fits:
  assumes core: "test_core P L K" and opens: "receiver_open P K mode payload n env x = Some (Inr p)"
    and f: "cipher env = base64_encode P f" "length f' \<le> length f"
  shows "str_len (base64_encode P f') \<le> cipher_bound (receiver_config (pair_of P K mode payload n))"
proof -
  note len = base64_str_len [OF crypto_lawsD(2) [OF test_coreD(1) [OF core]]]
  have "str_len (base64_encode P f') \<le> str_len (cipher env)"
    using f by (simp add: len div_le_mono)
  then show ?thesis using pair_bound [OF opens] by simp
qed

text \<open>Frames with a foreign header, and cipher texts that no payload of the mode has the length of.\<close>

lemma header_refused:
  assumes "envelope_mode c = Aead alg" "base64_decode P (cipher env) = Some f"
    and "f ! 0 \<noteq> 1 \<or> f ! 1 \<noteq> algorithm_byte alg"
  shows "envelope_open P c k env x \<noteq> Some (Inr q)"
  using assms by (auto simp: opens_to_iff opens_to_def aead_accepts_def frame_of_def)

lemma wrong_length_refused:
  assumes core: "test_core P L K" and "length (iv c) = 16" "base64_decode P (cipher env) = Some f"
    and "\<And>m. length f \<noteq> sealed_len (envelope_mode c) m"
  shows "envelope_open P c k env x \<noteq> Some (Inr q)"
proof
  assume "envelope_open P c k env x = Some (Inr q)"
  from open_parts [OF core assms(2) this] obtain b key where "base64_decode P (cipher env) = Some b"
    "length key = 16" "carries P c x key q b" by metis
  with carries_length [OF core assms(2), of key x q b] assms(3) assms(4) [of "length q"] show False by simp
qed

lemma those_all:
  assumes "\<forall>m \<in> set ms. \<exists>e. m = Some e \<and> R e"
  shows "\<exists>es. those ms = Some es \<and> (\<forall>e \<in> set es. R e)"
  using assms
proof (induction ms)
  case (Cons m ms)
  then obtain e es where "m = Some e" "R e" "those ms = Some es" "\<forall>e \<in> set es. R e" by auto
  then show ?case by simp
qed simp

lemma passes_all_refused:
  assumes "\<forall>m \<in> set ms. \<exists>e. m = Some e \<and> receiver_open P K mode payload n e legacy_context = Some (Inl InvalidEnvelope)"
  shows "passes (assert_all_refused P (pair_of P K mode payload n) ms) s (\<lambda>_ _. True)"
proof -
  obtain es where es: "those ms = Some es"
    "\<forall>e \<in> set es. receiver_open P K mode payload n e legacy_context = Some (Inl InvalidEnvelope)"
    using those_all [OF assms] by (elim exE conjE)
  have "passes (for_eachW (\<lambda>mutated. assert_refused P (receiver_config (pair_of P K mode payload n))
      (receiver_keys (pair_of P K mode payload n)) mutated legacy_context) es) s (\<lambda>_ _. True)"
  proof (rule passes_loop)
    fix e s assume "e \<in> set es"
    with es(2) have "receiver_open P K mode payload n e legacy_context = Some (Inl InvalidEnvelope)" by (rule bspec)
    from passes_assert_refused [OF this]
    show "passes (assert_refused P (receiver_config (pair_of P K mode payload n))
      (receiver_keys (pair_of P K mode payload n)) e legacy_context) s (\<lambda>_ _. True)"
      by (cases s) simp
  qed
  then show ?thesis by (simp add: assert_all_refused_def passes_bindW passes_primitives es(1))
qed

lemma with_mutated_frame_eq:
  assumes "base64_decode P (cipher env) = Some f" "g f = Some f'"
  shows "with_mutated_frame P env g = Some (env\<lparr>cipher := base64_encode P f'\<rparr>)"
  using assms by (simp add: with_mutated_frame_def)

section \<open>The round trips pass\<close>

lemma aead_pair_seals:
  assumes core: "test_core P L K" and lim: "pair_limits LegacyPlaintext (Aead alg) n" and "length p \<le> n" "length p < 2 ^ 61"
  obtains env w' where "sender_seal P K LegacyPlaintext (Aead alg) n p legacy_context w = (Inr env, w')"
    "receiver_open P K LegacyPlaintext (Aead alg) n env legacy_context = Some (Inr p)"
  by (rule pair_seals [OF core lim, of legacy_context p w]) (use assms(3,4) that in simp_all)

lemma legacy_limits: "0 < n \<Longrightarrow> n < 2 ^ 24 \<Longrightarrow> pair_limits LegacyPlaintext payload n"
  by (simp add: pair_limits_def mode_ok_def)

lemma both_directions_passes:
  assumes core: "test_core P L K" and peers: "builds P K peers_of (Aead alg)" and id: "algorithm_id = algorithm_byte alg"
    and fits: "length request \<le> 256" "length response \<le> 256"
  shows "passes (both_directions P peers_of algorithm_id request response) (w, calls) (\<lambda>_ _. True)"
proof -
  let ?ps = "pair_of P K LegacyPlaintext (Aead alg) 256"
  have lim: "pair_limits LegacyPlaintext (Aead alg) 256" by (rule legacy_limits) simp_all
  obtain env w' where seal: "sender_seal P K LegacyPlaintext (Aead alg) 256 request legacy_context w = (Inr env, w')"
    and opens: "receiver_open P K LegacyPlaintext (Aead alg) 256 env legacy_context = Some (Inr request)"
    by (rule aead_pair_seals [OF core lim, of request w]) (use fits in simp_all)
  obtain f where f: "base64_decode P (cipher env) = Some f" "length f = length request + 30" "f ! 0 = 1"
    "f ! Suc 0 = algorithm_byte alg" "f \<noteq> []"
    by (rule sealed_frame [OF core seal])
  have "\<exists>env w''. envelope_seal P (receiver_config ?ps) (receiver_keys ?ps) response legacy_context w' = (Inr env, w'')"
    by (rule seal_live [OF core pair_configs_ok(2) [OF lim]]) (use fits in \<open>simp_all add: usize_MAX_def\<close>)
  then obtain env' w'' where seal': "envelope_seal P (receiver_config ?ps) (receiver_keys ?ps) response legacy_context w' = (Inr env', w'')"
    by blast
  have opens': "envelope_open P (sender_config ?ps) (sender_keys ?ps) env' legacy_context = Some (Inr response)"
    by (rule sealed_opens [OF core pair_configs_ok(2) [OF lim] pair_peers(2) _ seal']) (use fits in simp)
  show ?thesis
    by (simp add: both_directions_def passes_simps Let_def buildsD [OF peers lim] passes_sealed_run [OF seal]
        f assert_byte_def byte_at_def TEST_FRAME_OVERHEAD_BYTES_def id passes_assert_opens [OF opens]
        passes_sealed_run [OF seal'] passes_assert_opens [OF opens'])
qed

lemma bound_round_trip_passes:
  assumes core: "test_core P L K" and peers: "builds P K peers_of (Aead alg)"
    and fits: "d \<noteq> []" "length d < 500" "length p \<le> 256"
    and b: "binds_message P (ContextBound d) (AuthenticationContext (Bound (blit ''operation=pay&id=17''))) p"
  shows "passes (bound_round_trip P peers_of d p) (w, calls) (\<lambda>_ _. True)"
proof -
  let ?m = "ContextBound d" and ?x = "AuthenticationContext (Bound (blit ''operation=pay&id=17''))"
  have lim: "pair_limits ?m (Aead alg) 256" using fits(1) by (simp add: pair_limits_def mode_ok_def)
  obtain env w' where seal: "sender_seal P K ?m (Aead alg) 256 p ?x w = (Inr env, w')"
    and opens: "receiver_open P K ?m (Aead alg) 256 env ?x = Some (Inr p)"
    by (rule pair_seals [OF core lim, of ?x p w]) (use fits in \<open>simp_all add: blit_length\<close>)
  have different: "receiver_open P K ?m (Aead alg) 256 env (AuthenticationContext (Bound (blit ''operation=pay&id=18''))) =
      Some (Inl InvalidEnvelope)"
    by (rule pair_wrong_context [OF core seal opens b]) (simp add: blit_def)
  have legacy: "receiver_open P K ?m (Aead alg) 256 env legacy_context = Some (Inl InvalidEnvelope)"
    by (rule refusedI [OF wrong_kind_refused]) (simp_all add: pair_bound [OF opens])
  have kind: "sender_seal P K ?m (Aead alg) 256 (blit ''wrong context kind'') legacy_context w' =
      (Inl AuthenticationContextError, w')" for w'
    using fits(1)
    by (simp add: envelope_seal_def Let_def blit_length aead_seal_def authentication_input_def legacy_context_def
        AuthenticationContext_legacy_def)
  show ?thesis
    using fits(1)
    by (simp add: bound_round_trip_def passes_simps context_bound_eq buildsD [OF peers lim] blit_length
        passes_sealed_run [OF seal] passes_assert_opens [OF opens]
        passes_assert_refused [OF different] passes_assert_refused [OF legacy] passes_seal [OF kind])
qed

lemma boundary_round_trips_pass:
  assumes core: "test_core P L K" and peers: "builds P K peers_of (Aead alg)"
  shows "passes (boundary_round_trips P peers_of) s (\<lambda>_ _. True)"
proof -
  let ?ps = "pair_of P K LegacyPlaintext (Aead alg) 64"
  have lim: "pair_limits LegacyPlaintext (Aead alg) 64" by (rule legacy_limits) simp_all
  have "passes (bindW (sealed P (sender_config ?ps) (sender_keys ?ps) p legacy_context) (\<lambda>env.
      assert_opens P (receiver_config ?ps) (receiver_keys ?ps) env legacy_context p)) s (\<lambda>_ _. True)"
    if len: "length p \<le> 64" for p s
  proof -
    obtain env w' where "sender_seal P K LegacyPlaintext (Aead alg) 64 p legacy_context (fst s) = (Inr env, w')"
      "receiver_open P K LegacyPlaintext (Aead alg) 64 env legacy_context = Some (Inr p)"
      by (rule aead_pair_seals [OF core lim, of p "fst s"]) (use len in simp_all)
    then show ?thesis by (cases s) (simp add: passes_simps passes_sealed_run passes_assert_opens)
  qed
  then have "passes (for_eachW (\<lambda>p. bindW (sealed P (sender_config ?ps) (sender_keys ?ps) p legacy_context) (\<lambda>env.
      assert_opens P (receiver_config ?ps) (receiver_keys ?ps) env legacy_context p))
      [[], replicate 64 0xa5, unicode_plaintext]) s (\<lambda>_ _. True)"
    by (intro passes_loop) (auto simp: unicode_length)
  then show ?thesis
    by (simp only: boundary_round_trips_def passes_bindW passes_primitives buildsD [OF peers lim]) simp
qed

lemma frame_sweep_case_passes:
  assumes core: "test_core P L K" and lim: "pair_limits mode (Aead alg) 2048"
    and ok: "context_matches mode x" "length (mode_domain mode) + length (context_bytes x) < 1000"
    and n: "n \<in> set LENGTHS"
  shows "passes (frame_sweep_case P (pair_of P K mode (Aead alg) 2048) x n) s (\<lambda>_ _. True)"
proof -
  have "list_all (\<lambda>n. n \<le> 2048) LENGTHS" by (simp add: LENGTHS_def)
  then have len: "length (sweep_plaintext n) \<le> 2048" using n by (simp add: sweep_plaintext_def list_all_iff)
  obtain env w' where seal: "sender_seal P K mode (Aead alg) 2048 (sweep_plaintext n) x (fst s) = (Inr env, w')"
    and opens: "receiver_open P K mode (Aead alg) 2048 env x = Some (Inr (sweep_plaintext n))"
    by (rule pair_seals [OF core lim ok(1) len _ ok(2)]) (use len in simp)
  obtain f where "base64_decode P (cipher env) = Some f" "length f = length (sweep_plaintext n) + 30"
    by (rule sealed_frame [OF core seal])
  with seal opens show ?thesis
    by (cases s) (simp add: frame_sweep_case_def Let_def passes_simps passes_sealed_run passes_opened
        TEST_FRAME_OVERHEAD_BYTES_def sweep_plaintext_def)
qed

lemma frame_sweep_passes:
  assumes core: "test_core P L K" and peers: "builds P K peers_of (Aead alg)" and d: "d \<noteq> []" "length d < 500"
  shows "passes (frame_sweep P peers_of d) s (\<lambda>_ _. True)"
proof -
  have "passes (bindW (unwrapT (peers_of mode 2048)) (\<lambda>ps. for_eachW (frame_sweep_case P ps x) LENGTHS)) s (\<lambda>_ _. True)"
    if "pair_limits mode (Aead alg) 2048" "context_matches mode x"
      "length (mode_domain mode) + length (context_bytes x) < 1000" for mode x s
    using passes_loop [OF frame_sweep_case_passes [OF core that]]
    by (simp add: passes_simps buildsD [OF peers that(1)])
  then have "passes (for_eachW (\<lambda>(mode, x).
      bindW (unwrapT (peers_of mode 2048)) (\<lambda>ps. for_eachW (frame_sweep_case P ps x) LENGTHS))
      [(LegacyPlaintext, legacy_context), (ContextBound d, AuthenticationContext (Bound (blit ''operation=sweep'')))])
      s (\<lambda>_ _. True)"
    using d by (intro passes_loop) (auto simp: pair_limits_def mode_ok_def blit_length)
  then show ?thesis
    using d(1)
    by (simp only: frame_sweep_def passes_bindW passes_primitives context_bound_eq blit_length list.simps simp_thms sum.inject
        not_False_eq_True)
qed

section \<open>Fresh keys and nonces\<close>

lemma nonce_draw:
  assumes core: "test_core P L K" and fresh: "fresh_source P age n" and mode: "envelope_mode c = Aead alg"
    and seal: "envelope_seal P c k p x w = (Inr env, w')"
  obtains w1 nonce r where "age w < age w1" "age w1 < age w'" "fst (getrandom_fill P 12 w1) = Some nonce"
    "length nonce = 12" "base64_decode P (cipher env) = Some (1 # algorithm_byte alg # nonce @ r)"
proof -
  note le = ages_primitives [OF fresh]
  have draw: "age v < age (snd (getrandom_fill P m v))" for m v using fresh unfolding fresh_source_def by blast
  obtain key w1 nonce w2 ct tag wrapped w3 t sig where d: "getrandom_fill P 16 w = (Some key, w1)"
    "getrandom_fill P 12 w1 = (Some nonce, w2)" "length nonce = 12"
    "sm2_encrypt P (remote_encryption k) key w2 = (Some wrapped, w3)"
    "cipher env = base64_encode P (frame_of alg nonce ct tag)"
    "sm2_sign_with_id P (local_signing k) (local_signer_id c) t w3 = (Some sig, w')"
    by (rule aead_parts [OF core mode seal])
  have "age w < age w1" using draw [of w 16] d(1) by simp
  moreover have "age w1 < age w2" using draw [of w1 12] d(2) by simp
  then have "age w1 < age w'" using le(2) [of w2 "remote_encryption k" key] le(3) [of w3 "local_signing k" "local_signer_id c" t] d(4,6) by simp
  ultimately show ?thesis
    using d(2,3,5) by (intro that [of w1 nonce "ct @ tag"]) (simp_all add: base64_core [OF core] frame_of_def)
qed

lemma fresh_key_and_nonce_run:
  assumes core: "test_core P L K" and peers: "builds P K peers_of (Aead alg)"
    and seal: "sender_seal P K LegacyPlaintext (Aead alg) 128 (blit ''same payload'') legacy_context w = (Inr env, w1)"
    and seal': "sender_seal P K LegacyPlaintext (Aead alg) 128 (blit ''same payload'') legacy_context w1 = (Inr env', w2)"
    and f: "base64_decode P (cipher env) = Some f" "base64_decode P (cipher env') = Some f'" "14 \<le> length f" "14 \<le> length f'"
    and wr: "wrapped_session_key env = base64_encode P wr" "wrapped_session_key env' = base64_encode P wr'"
  shows "fresh_key_and_nonce P K peers_of (w, calls) =
      bindW (assertT (take 12 (drop 2 f) \<noteq> take 12 (drop 2 f'))) (\<lambda>_.
      bindW (assertT (cipher env \<noteq> cipher env')) (\<lambda>_.
      bindW (unwrapT (sm2_decrypt P (skey K RECEIVER_DECRYPTION) wr)) (\<lambda>k1.
      bindW (unwrapT (sm2_decrypt P (skey K RECEIVER_DECRYPTION) wr')) (\<lambda>k2. assertT (k1 \<noteq> k2))))) (w2, calls)"
proof -
  have lim: "pair_limits LegacyPlaintext (Aead alg) 128" by (rule legacy_limits) simp_all
  have key: "raw_private_key K RECEIVER_DECRYPTION = Some (skey K RECEIVER_DECRYPTION)"
    by (rule raw_key [OF test_coreD(4) [OF core]]) (simp add: test_scalars)
  show ?thesis
    by (simp add: fresh_key_and_nonce_def buildsD [OF peers lim] Let_def pure_steps TEST_FRAME_HEADER_BYTES_def subslice_def f
        bindW_step(1) [where m = "sealed _ _ _ _ _", OF sealed_run [OF seal]]
        bindW_step(1) [where m = "sealed _ _ _ _ _", OF sealed_run [OF seal']] key wr base64_core [OF core])
qed

lemma fresh_key_and_nonce_world:
  assumes core: "test_core P L K" and peers: "builds P K peers_of (Aead alg)"
    and seal: "sender_seal P K LegacyPlaintext (Aead alg) 128 (blit ''same payload'') legacy_context w = (Inr env, w1)"
    and seal': "sender_seal P K LegacyPlaintext (Aead alg) 128 (blit ''same payload'') legacy_context w1 = (Inr env', w2)"
  shows "snd (fresh_key_and_nonce P K peers_of (w, calls)) = (w2, calls)"
proof -
  obtain f where f: "base64_decode P (cipher env) = Some f" "length f = length (blit ''same payload'') + 30"
    by (rule sealed_frame [OF core seal])
  obtain f' where f': "base64_decode P (cipher env') = Some f'" "length f' = length (blit ''same payload'') + 30"
    by (rule sealed_frame [OF core seal'])
  obtain wr where wr: "wrapped_session_key env = base64_encode P wr" by (rule seal_parts [OF core seal]) simp
  obtain wr' where wr': "wrapped_session_key env' = base64_encode P wr'" by (rule seal_parts [OF core seal']) simp
  have "14 \<le> length f" "14 \<le> length f'" using f(2) f'(2) by simp_all
  note run = fresh_key_and_nonce_run [OF core peers seal seal' f(1) f'(1) this wr wr']
  show ?thesis
    unfolding run
    by (cases "sm2_decrypt P (skey K RECEIVER_DECRYPTION) wr"; cases "sm2_decrypt P (skey K RECEIVER_DECRYPTION) wr'")
      (simp_all add: pure_steps unwrapT_def)
qed

lemma fresh_key_and_nonce_passes:
  assumes core: "test_core P L K" and peers: "builds P K peers_of (Aead alg)" and fresh: "fresh_source P age n"
    and bound: "age (fst (snd (fresh_key_and_nonce P K peers_of (w, calls)))) \<le> n"
  shows "passes (fresh_key_and_nonce P K peers_of) (w, calls) (\<lambda>_ _. True)"
proof -
  let ?p = "blit ''same payload''" and ?ps = "pair_of P K LegacyPlaintext (Aead alg) 128"
  have lim: "pair_limits LegacyPlaintext (Aead alg) 128" by (rule legacy_limits) simp_all
  have len: "length ?p \<le> 128" "length ?p < 2 ^ 61" by (simp_all add: blit_length)
  obtain env w1 where seal: "sender_seal P K LegacyPlaintext (Aead alg) 128 ?p legacy_context w = (Inr env, w1)"
    by (rule aead_pair_seals [OF core lim len])
  obtain env' w2 where seal': "sender_seal P K LegacyPlaintext (Aead alg) 128 ?p legacy_context w1 = (Inr env', w2)"
    by (rule aead_pair_seals [OF core lim len])
  have age: "age w2 \<le> n" using bound by (simp add: fresh_key_and_nonce_world [OF core peers seal seal'])
  have mode: "envelope_mode (sender_config ?ps) = Aead alg" by simp
  obtain v nonce r where 1: "age v < age w1" "fst (getrandom_fill P 12 v) = Some nonce" "length nonce = 12"
    "base64_decode P (cipher env) = Some (1 # algorithm_byte alg # nonce @ r)"
    by (rule nonce_draw [OF core fresh mode seal])
  obtain v' nonce' r' where 2: "age w1 < age v'" "age v' < age w2" "fst (getrandom_fill P 12 v') = Some nonce'"
    "length nonce' = 12" "base64_decode P (cipher env') = Some (1 # algorithm_byte alg # nonce' @ r')"
    by (rule nonce_draw [OF core fresh mode seal'])
  have "nonce \<noteq> nonce'" using fresh_draws [OF fresh _ _ _ 1(2) 2(3)] 1(1) 2(1,2) age by simp
  have "cipher env \<noteq> cipher env'" using 1(3,4) 2(4,5) \<open>nonce \<noteq> nonce'\<close> by auto
  have enc: "remote_encryption (sender_keys ?ps) = sm2_public_key P (skey K RECEIVER_DECRYPTION)" by simp
  obtain k1 k2 wr1 wr2 where k: "k1 \<noteq> k2" "wrapped_session_key env = base64_encode P wr1"
    "wrapped_session_key env' = base64_encode P wr2" "sm2_decrypt P (skey K RECEIVER_DECRYPTION) wr1 = Some k1"
    "sm2_decrypt P (skey K RECEIVER_DECRYPTION) wr2 = Some k2"
    by (rule second_seal_is_fresh [OF core fresh seal seal' age enc])
  have "14 \<le> length (1 # algorithm_byte alg # nonce @ r)" "14 \<le> length (1 # algorithm_byte alg # nonce' @ r')"
    using 1(3) 2(4) by simp_all
  note run = fresh_key_and_nonce_run [OF core peers seal seal' 1(4) 2(5) this k(2,3)]
  show ?thesis
    using \<open>nonce \<noteq> nonce'\<close> \<open>cipher env \<noteq> cipher env'\<close> 1(3) 2(4) k(1,4,5)
    by (simp add: passes_def run pure_steps assertT_def unwrapT_def assert_that_def)
qed

section \<open>The limits hold\<close>

lemma over_limit_seal_passes:
  assumes peers: "builds P K peers_of (Aead alg)"
  shows "passes (over_limit_seal P peers_of) (w, calls) (\<lambda>_ _. True)"
proof -
  have lim: "pair_limits LegacyPlaintext (Aead alg) 8" by (rule legacy_limits) simp_all
  have "sender_seal P K LegacyPlaintext (Aead alg) 8 (blit ''123456789'') legacy_context w = (Inl (MessageTooLarge 8), w)"
    by (simp add: envelope_seal_def Let_def blit_length)
  from passes_seal [OF this] show ?thesis
    by (simp add: over_limit_seal_def passes_simps buildsD [OF peers lim])
qed

lemma ceiling_passes:
  assumes core: "test_core P L K"
  shows "passes (ccm_client_at_the_nonce_ceiling_still_round_trips_a_small_payload P L K) (w, calls) (\<lambda>_ _. True)"
    "passes (ccm_seals_exactly_the_12_byte_nonce_ceiling P L K) (w, calls) (\<lambda>_ _. True)"
proof -
  let ?n = SM4_CCM_MAX_PLAINTEXT_BYTES
  have lim: "pair_limits LegacyPlaintext (Aead Sm4Ccm) ?n"
    by (rule legacy_limits) (simp_all add: SM4_CCM_MAX_PLAINTEXT_BYTES_def)
  note ps = buildsD [OF fixtures_build(3) [OF core] lim]
  have small: "?n < 2 ^ 61" "21 \<le> ?n" by (simp_all add: SM4_CCM_MAX_PLAINTEXT_BYTES_def)
  have len: "length (blit ''under the q=3 ceiling'') \<le> ?n" "length (blit ''under the q=3 ceiling'') < 2 ^ 61"
    using small by (simp_all add: blit_length)
  obtain env w' where "sender_seal P K LegacyPlaintext (Aead Sm4Ccm) ?n (blit ''under the q=3 ceiling'') legacy_context w = (Inr env, w')"
    "receiver_open P K LegacyPlaintext (Aead Sm4Ccm) ?n env legacy_context = Some (Inr (blit ''under the q=3 ceiling''))"
    by (rule aead_pair_seals [OF core lim len])
  then show "passes (ccm_client_at_the_nonce_ceiling_still_round_trips_a_small_payload P L K) (w, calls) (\<lambda>_ _. True)"
    by (simp add: ccm_client_at_the_nonce_ceiling_still_round_trips_a_small_payload_def passes_simps ps Let_def
        passes_sealed_run passes_assert_opens)
  have len: "length (replicate ?n (0x5a :: byte)) \<le> ?n" "length (replicate ?n (0x5a :: byte)) < 2 ^ 61"
    using small by simp_all
  obtain env w' where "sender_seal P K LegacyPlaintext (Aead Sm4Ccm) ?n (replicate ?n 0x5a) legacy_context w = (Inr env, w')"
    "receiver_open P K LegacyPlaintext (Aead Sm4Ccm) ?n env legacy_context = Some (Inr (replicate ?n 0x5a))"
    by (rule aead_pair_seals [OF core lim len])
  then show "passes (ccm_seals_exactly_the_12_byte_nonce_ceiling P L K) (w, calls) (\<lambda>_ _. True)"
    by (simp add: ccm_seals_exactly_the_12_byte_nonce_ceiling_def passes_simps ps Let_def passes_sealed_run passes_assert_opens)
qed

lemma frame_bounds:
  "cipher_bound (receiver_config (pair_of P K mode (Aead alg) 17)) = 64"
  "cipher_bound (receiver_config (pair_of P K mode (Aead alg) 128)) = 212"
  by (simp_all add: cipher_bound_def base64_len_eq saturating_add_def usize_MAX_def)

lemma split_bounds_passes:
  assumes core: "test_core P L K" and peers: "builds P K peers_of (Aead alg)"
  shows "passes (split_bounds P peers_of) (w, calls) (\<lambda>_ _. True)"
proof -
  let ?e = "\<lparr>cipher = concat (replicate 65 (lit ''!'')), wrapped_session_key = lit ''not Base64'', signature = lit ''not Base64''\<rparr>"
  let ?p = "replicate 18 (0x7A :: byte)"
  have lims: "pair_limits LegacyPlaintext (Aead alg) 17" "pair_limits LegacyPlaintext (Aead alg) 18"
    by (simp_all add: legacy_limits)
  have "concat (replicate 65 (lit ''!'')) = replicate 65 33" by (simp add: lit_def)
  moreover have "str_len (replicate 65 33) = 65" by (simp add: str_len_ascii list_all_iff)
  ultimately have encoded: "receiver_open P K LegacyPlaintext (Aead alg) 17 ?e legacy_context = Some (Inl (MessageTooLarge 17))"
    using over_bound_refused [of "receiver_config (pair_of P K LegacyPlaintext (Aead alg) 17)" ?e P]
    by (simp only: frame_bounds pair_fields SecureEnvelope.simps)
  have len: "length ?p \<le> 18" "length ?p < 2 ^ 61" by simp_all
  obtain env w' where seal: "sender_seal P K LegacyPlaintext (Aead alg) 18 ?p legacy_context w = (Inr env, w')"
    and opens: "receiver_open P K LegacyPlaintext (Aead alg) 18 env legacy_context = Some (Inr ?p)"
    by (rule aead_pair_seals [OF core lims(2) len])
  obtain f where f: "cipher env = base64_encode P f" "base64_decode P (cipher env) = Some f" "length f = length ?p + 30"
    by (rule sealed_frame [OF core seal])
  have small: "receiver_open P K LegacyPlaintext (Aead alg) 17 env legacy_context = Some (Inl InvalidEnvelope)"
    by (rule smaller_limit_refused [OF core lims(2) seal opens]) (simp_all add: frame_bounds sealed_len_def)
  have "str_len (cipher env) = 64"
    using f(1,3) base64_str_len [OF crypto_lawsD(2) [OF test_coreD(1) [OF core]], of f] by simp
  moreover have "env\<lparr>cipher := base64_encode P f\<rparr> = env" using f(1) by simp
  ultimately show ?thesis
    using f(2,3)
    by (simp add: split_bounds_def passes_simps Let_def buildsD [OF peers lims(1)] buildsD [OF peers lims(2)]
        passes_open [OF encoded, simplified] passes_sealed_run [OF seal] passes_assert_refused [OF small])
qed

section \<open>Altered frames are refused\<close>

lemma wrong_headers_passes:
  assumes core: "test_core P L K" and peers: "builds P K peers_of (Aead alg)" and len: "length p \<le> 128" "length p < 2 ^ 61"
    and valid: "valid_of = (\<lambda>ps. sealed P (sender_config ps) (sender_keys ps) p legacy_context)"
    and id: "other_id \<noteq> algorithm_byte alg"
  shows "passes (wrong_headers P peers_of valid_of other_id) (w, calls) (\<lambda>_ _. True)"
proof -
  have lim: "pair_limits LegacyPlaintext (Aead alg) 128" by (rule legacy_limits) simp_all
  obtain env w' where seal: "sender_seal P K LegacyPlaintext (Aead alg) 128 p legacy_context w = (Inr env, w')"
    and opens: "receiver_open P K LegacyPlaintext (Aead alg) 128 env legacy_context = Some (Inr p)"
    by (rule aead_pair_seals [OF core lim len])
  obtain f where f: "cipher env = base64_encode P f" "base64_decode P (cipher env) = Some f" "length f = length p + 30"
    "f ! 0 = 1" "f ! Suc 0 = algorithm_byte alg" "f \<noteq> []"
    by (rule sealed_frame [OF core seal])
  have refused: "receiver_open P K LegacyPlaintext (Aead alg) 128 (env\<lparr>cipher := base64_encode P f'\<rparr>) legacy_context =
      Some (Inl InvalidEnvelope)" if "length f' \<le> length f" "f' ! 0 \<noteq> 1 \<or> f' ! 1 \<noteq> algorithm_byte alg" for f'
    by (rule refusedI [OF header_refused])
      (use that encoded_fits [OF core opens f(1)] in \<open>simp_all add: base64_core [OF core]\<close>)
  have "algorithm_byte alg \<noteq> 0x7f" by (cases alg) (simp_all add: ALGORITHM_SM4_GCM_def ALGORITHM_SM4_CCM_def)
  have mutated: "\<exists>e. with_mutated_frame P env (set_at i g) = Some e \<and>
      receiver_open P K LegacyPlaintext (Aead alg) 128 e legacy_context = Some (Inl InvalidEnvelope)"
    if "i = 0 \<and> g 1 \<noteq> 1 \<or> i = 1 \<and> g (algorithm_byte alg) \<noteq> algorithm_byte alg" for i g
  proof -
    have i: "i < length f" using that f(3) by auto
    have "with_mutated_frame P env (set_at i g) = Some (env\<lparr>cipher := base64_encode P (f[i := g (f ! i)])\<rparr>)"
      using f(2) set_at_eq [OF i] by (rule with_mutated_frame_eq)
    moreover have "f[i := g (f ! i)] ! i \<noteq> (if i = 0 then 1 else algorithm_byte alg)" using i that f(4,5) by auto
    then have "receiver_open P K LegacyPlaintext (Aead alg) 128 (env\<lparr>cipher := base64_encode P (f[i := g (f ! i)])\<rparr>)
        legacy_context = Some (Inl InvalidEnvelope)"
      using that by (intro refused) (simp, metis zero_neq_one)
    ultimately show ?thesis by blast
  qed
  have "passes (assert_all_refused P (pair_of P K LegacyPlaintext (Aead alg) 128)
      [with_mutated_frame P env (set_at 0 (\<lambda>b. b XOR 0x01)), with_mutated_frame P env (set_at 0 (\<lambda>_. 0x02)),
       with_mutated_frame P env (set_at 1 (\<lambda>_. other_id)), with_mutated_frame P env (set_at 1 (\<lambda>_. 0x7f))])
      (w', calls) (\<lambda>_ _. True)"
    using id \<open>algorithm_byte alg \<noteq> 0x7f\<close> [symmetric]
    by (intro passes_all_refused) (simp only: list.set ball_simps simp_thms, intro conjI mutated, simp_all)
  then show ?thesis
    by (simp add: wrong_headers_def passes_bindW passes_primitives buildsD [OF peers lim] valid passes_sealed_run [OF seal])
qed

lemma short_frames_passes:
  assumes core: "test_core P L K" and peers: "builds P K peers_of (Aead alg)" and len: "length p \<le> 128" "length p < 2 ^ 61"
    and valid: "valid_of = (\<lambda>ps. sealed P (sender_config ps) (sender_keys ps) p legacy_context)"
    and b: "binds_message P LegacyPlaintext legacy_context p"
  shows "passes (short_frames P peers_of valid_of algorithm_id) (w, calls) (\<lambda>_ _. True)"
proof -
  have lim: "pair_limits LegacyPlaintext (Aead alg) 128" by (rule legacy_limits) simp_all
  obtain env w' where seal: "sender_seal P K LegacyPlaintext (Aead alg) 128 p legacy_context w = (Inr env, w')"
    and opens: "receiver_open P K LegacyPlaintext (Aead alg) 128 env legacy_context = Some (Inr p)"
    by (rule aead_pair_seals [OF core lim len])
  obtain f where f: "cipher env = base64_encode P f" "base64_decode P (cipher env) = Some f" "length f = length p + 30"
    "f \<noteq> []"
    by (rule sealed_frame [OF core seal])
  have iv: "length (iv (receiver_config (pair_of P K LegacyPlaintext (Aead alg) 128))) = 16"
    using pair_configs_ok(2) [OF lim, of P K] by (simp add: config_ok_def)
  have short: "receiver_open P K LegacyPlaintext (Aead alg) 128 (env\<lparr>cipher := ciph\<rparr>) legacy_context =
      Some (Inl InvalidEnvelope)" if "base64_decode P ciph = Some f'" "length f' < 30" "str_len ciph \<le> 212" for ciph f'
    by (rule refusedI [OF wrong_length_refused [OF core iv]]) (use that in \<open>auto simp: sealed_len_def frame_bounds\<close>)
  have small: "receiver_open P K LegacyPlaintext (Aead alg) 128 (env\<lparr>cipher := base64_encode P f'\<rparr>) legacy_context =
      Some (Inl InvalidEnvelope)" if "length f' < 30" for f'
    by (rule short [of _ f'])
      (use that encoded_fits [OF core opens f(1), of f'] f(3) in \<open>simp_all add: base64_core [OF core] frame_bounds\<close>)
  have empty: "receiver_open P K LegacyPlaintext (Aead alg) 128 (env\<lparr>cipher := []\<rparr>) legacy_context = Some (Inl InvalidEnvelope)"
    by (rule short [of _ "[]"]) (simp_all add: test_coreD(8) [OF core] str_len_ascii)
  have "butlast f \<noteq> f" using f(4) length_butlast [of f] by (metis One_nat_def diff_less length_greater_0_conv less_irrefl zero_less_one)
  then have popped: "receiver_open P K LegacyPlaintext (Aead alg) 128 (env\<lparr>cipher := base64_encode P (butlast f)\<rparr>) legacy_context =
      Some (Inl InvalidEnvelope)"
    by (rule pair_tampered [OF core lim seal opens b f(2)]) (use f(4) in simp_all)
  have "passes (assert_all_refused P (pair_of P K LegacyPlaintext (Aead alg) 128)
      [Some (env\<lparr>cipher := base64_encode P ((replicate 29 0)[0 := 0x01, 1 := algorithm_id])\<rparr>), Some (env\<lparr>cipher := []\<rparr>),
       with_mutated_frame P env (\<lambda>frame. Some (butlast frame)),
       with_mutated_frame P env (\<lambda>frame. Some (take TEST_FRAME_HEADER_BYTES frame))]) (w', calls) (\<lambda>_ _. True)"
    by (rule passes_all_refused)
      (simp add: with_mutated_frame_def f(2) small empty popped TEST_FRAME_HEADER_BYTES_def)
  then show ?thesis
    by (simp add: short_frames_def passes_bindW passes_primitives buildsD [OF peers lim] valid passes_sealed_run [OF seal] Let_def)
qed

text \<open>A valid tag that happens to be zero would survive being overwritten with zeros.\<close>

definition nonzero_tag ::
  "('w, 'sk, 'pk) crypto \<Rightarrow> ('sk, 'pk) raw_keys \<Rightarrow> AeadAlgorithm \<Rightarrow> bytes \<Rightarrow> 'w \<Rightarrow> bool" where
  "nonzero_tag P K alg p w \<longleftrightarrow>
     (\<forall>env w' f. sender_seal P K LegacyPlaintext (Aead alg) 128 p legacy_context w = (Inr env, w') \<longrightarrow>
        base64_decode P (cipher env) = Some f \<longrightarrow> drop (length f - 16) f \<noteq> replicate 16 0)"

lemma tampered_frames_passes:
  assumes core: "test_core P L K" and peers: "builds P K peers_of (Aead alg)" and len: "length p \<le> 128" "length p < 2 ^ 61"
    and valid: "valid_of = (\<lambda>ps. sealed P (sender_config ps) (sender_keys ps) p legacy_context)"
    and b: "binds_message P LegacyPlaintext legacy_context p" and tag: "nonzero_tag P K alg p w" and p: "2 \<le> length p"
  shows "passes (tampered_frames P peers_of valid_of) (w, calls) (\<lambda>_ _. True)"
proof -
  have lim: "pair_limits LegacyPlaintext (Aead alg) 128" by (rule legacy_limits) simp_all
  obtain env w' where seal: "sender_seal P K LegacyPlaintext (Aead alg) 128 p legacy_context w = (Inr env, w')"
    and opens: "receiver_open P K LegacyPlaintext (Aead alg) 128 env legacy_context = Some (Inr p)"
    by (rule aead_pair_seals [OF core lim len])
  obtain f where f: "base64_decode P (cipher env) = Some f" "length f = length p + 30"
    by (rule sealed_frame [OF core seal])
  have tampered: "receiver_open P K LegacyPlaintext (Aead alg) 128 (env\<lparr>cipher := base64_encode P f'\<rparr>) legacy_context =
      Some (Inl InvalidEnvelope)" if "f' \<noteq> f" "length f' = length f" "take 14 f' = take 14 f \<or> drop 14 f' = drop 14 f" for f'
    by (rule pair_tampered [OF core lim seal opens b f(1) that(1)]) (use that in simp_all)
  have flipped: "receiver_open P K LegacyPlaintext (Aead alg) 128
      (env\<lparr>cipher := base64_encode P (f[i := f ! i XOR 1])\<rparr>) legacy_context = Some (Inl InvalidEnvelope)"
    if "i < length f" "2 \<le> i" for i
  proof -
    have "take 14 (f[i := f ! i XOR 1]) = take 14 f \<or> drop 14 (f[i := f ! i XOR 1]) = drop 14 f"
      by (cases "i < 14") simp_all
    then show ?thesis using that set_at_changes [of i f 1] by (intro tampered) simp_all
  qed
  let ?z = "take (length f - 16) f @ replicate 16 0"
  have "drop (length f - 16) f \<noteq> replicate 16 0" using tag seal f(1) unfolding nonzero_tag_def by blast
  then have "?z \<noteq> f" by (metis append_eq_conv_conj append_take_drop_id length_take min.cobounded1 min.absorb2 diff_le_self same_append_eq)
  then have zeroed: "receiver_open P K LegacyPlaintext (Aead alg) 128 (env\<lparr>cipher := base64_encode P ?z\<rparr>) legacy_context =
      Some (Inl InvalidEnvelope)"
    by (rule tampered) (use f(2) in simp_all)
  have "passes (assert_all_refused P (pair_of P K LegacyPlaintext (Aead alg) 128)
       [with_mutated_frame P env (set_at 2 (\<lambda>b. b XOR 0x01)),
        with_mutated_frame P env (set_at TEST_FRAME_HEADER_BYTES (\<lambda>b. b XOR 0x01)),
        with_mutated_frame P env (\<lambda>frame.
          Option.bind (usize_sub (length frame) TEST_FRAME_OVERHEAD_BYTES) (\<lambda>ciphertext_len.
          let middle = TEST_FRAME_HEADER_BYTES + ciphertext_len div 2 in set_at middle (\<lambda>b. b XOR 0x01) frame)),
        with_mutated_frame P env (\<lambda>frame.
          Option.bind (usize_sub (length frame) TEST_TAG_BYTES) (\<lambda>tag_start.
          Option.bind (usize_sub tag_start 1) (\<lambda>last_ciphertext. set_at last_ciphertext (\<lambda>b. b XOR 0x01) frame))),
        with_mutated_frame P env (\<lambda>frame.
          Option.bind (usize_sub (length frame) 1) (\<lambda>last. set_at last (\<lambda>b. b XOR 0x01) frame)),
        with_mutated_frame P env (\<lambda>frame.
          Option.bind (usize_sub (length frame) 16) (\<lambda>tag_start.
          Some (take tag_start frame @ replicate (length frame - tag_start) 0)))]) (w', calls) (\<lambda>_ _. True)"
    using p zeroed f(2)
    by (intro passes_all_refused)
      (simp add: with_mutated_frame_def f(1) set_at_def usize_sub_def Let_def flipped TEST_FRAME_HEADER_BYTES_def
        TEST_FRAME_OVERHEAD_BYTES_def TEST_TAG_BYTES_def)
  then show ?thesis
    by (simp add: tampered_frames_def passes_bindW passes_primitives buildsD [OF peers lim] valid passes_sealed_run [OF seal])
qed

section \<open>Domains, keys and modes are told apart\<close>

lemma other_domain_passes:
  assumes core: "test_core P L K" and peers: "builds P K peers_of (Aead alg)" and len: "length p \<le> 256"
    and b: "binds_message P (ContextBound (blit ''example/request/v1''))
      (AuthenticationContext (Bound (blit ''operation=pay&id=17''))) p"
  shows "passes (other_domain P peers_of alg p) (w, calls) (\<lambda>_ _. True)"
proof -
  let ?m = "ContextBound (blit ''example/request/v1'')" and ?x = "AuthenticationContext (Bound (blit ''operation=pay&id=17''))"
  have lim: "pair_limits ?m (Aead alg) 256" by (simp add: pair_limits_def mode_ok_def blit_length)
  obtain env w' where seal: "sender_seal P K ?m (Aead alg) 256 p ?x w = (Inr env, w')"
    and opens: "receiver_open P K ?m (Aead alg) 256 env ?x = Some (Inr p)"
    by (rule pair_seals [OF core lim, of ?x p w]) (use len in \<open>simp_all add: blit_length\<close>)
  have "blit ''example/response/v1'' \<noteq> blit ''example/request/v1''" by (simp add: blit_def)
  note refused = pair_wrong_domain [OF core seal opens b this]
  show ?thesis
    by (simp add: other_domain_def passes_simps context_bound_eq buildsD [OF peers lim] blit_length mode_ok_def
        passes_sealed_run [OF seal] aead_config_eq test_signer_ids passes_assert_refused [OF refused])
qed

lemma key_failures_passes:
  assumes core: "test_core P L K" and peers: "builds P K peers_of (Aead alg)" and len: "length p \<le> 128" "length p < 2 ^ 61"
    and valid: "valid_of = (\<lambda>ps. sealed P (sender_config ps) (sender_keys ps) p legacy_context)"
    and b: "binds_message P LegacyPlaintext legacy_context p"
  shows "passes (key_failures P L K peers_of valid_of) (w, calls) (\<lambda>_ _. True)"
proof -
  note none = undecodable_fields [OF core]
  have lim: "pair_limits LegacyPlaintext (Aead alg) 128" by (rule legacy_limits) simp_all
  obtain env w' where seal: "sender_seal P K LegacyPlaintext (Aead alg) 128 p legacy_context w = (Inr env, w')"
    and opens: "receiver_open P K LegacyPlaintext (Aead alg) 128 env legacy_context = Some (Inr p)"
    by (rule aead_pair_seals [OF core lim len])
  have malformed: "receiver_open P K LegacyPlaintext (Aead alg) 128
      (env\<lparr>wrapped_session_key := base64_encode P (blit ''not SM2 DER'')\<rparr>) legacy_context = Some (Inl InvalidEnvelope)"
    by (rule pair_field_refused [OF core opens]) (simp add: base64_core [OF core] blit_def)
  obtain c w'' where c: "\<forall>calls. wrapped_plaintext_for_receiver P K (blit ''not-16-bytes'') (w', calls) =
      (Inr (base64_encode P c), (w'', calls))"
    "sm2_decrypt P (skey K RECEIVER_DECRYPTION) c = Some (blit ''not-16-bytes'')"
    by (rule wrapped_for_receiver [OF core, of "blit ''not-16-bytes''" w'])
  have wrong: "receiver_open P K LegacyPlaintext (Aead alg) 128 (env\<lparr>wrapped_session_key := base64_encode P c\<rparr>) legacy_context =
      Some (Inl InvalidEnvelope)"
    by (rule pair_wrong_length [OF core opens c(2)]) (simp add: blit_length)
  obtain s where s: "base64_decode P (signature env) = Some s" "flip_final_byte s = Some (flip_last s)"
    by (rule sealed_signature [OF core seal])
  have canonical: "receiver_open P K LegacyPlaintext (Aead alg) 128 (env\<lparr>cipher := lit ''AA''\<rparr>) legacy_context =
      Some (Inl InvalidEnvelope)"
    by (rule refusedI [OF undecodable_refused]) (simp_all add: none frame_bounds)
  have fields: "receiver_open P K LegacyPlaintext (Aead alg) 128 (env\<lparr>wrapped_session_key := lit ''!!!!''\<rparr>) legacy_context =
      Some (Inl InvalidEnvelope)"
    "receiver_open P K LegacyPlaintext (Aead alg) 128 (env\<lparr>signature := lit ''!!!!''\<rparr>) legacy_context =
      Some (Inl InvalidEnvelope)"
    by (rule pair_field_refused [OF core opens], simp add: none, rule pair_signature_refused [OF core opens], simp add: none)
  note refused = malformed wrong pair_flipped [OF core seal opens b s(1)] canonical fields
    pair_wrong_keys(1) [OF core seal opens] pair_wrong_keys(2) [OF core seal opens b]
  note refused = refused [THEN passes_assert_refused]
  show ?thesis
    by (simp add: key_failures_def passes_simps Let_def buildsD [OF peers lim] valid passes_sealed_run [OF seal]
        passes_run [where m = "wrapped_plaintext_for_receiver _ _ _", OF c(1) [rule_format]] s wrong_keys_eq [OF core] refused)
qed

lemma reject_each_other_passes:
  assumes core: "test_core P L K" and peers: "builds P K peers_of A" "builds P K peers_of2 B"
    and len: "length p \<le> 128" "length q \<le> 128"
    and refused: "\<And>env w w'. sender_seal P K LegacyPlaintext A 128 p legacy_context w = (Inr env, w') \<Longrightarrow>
        receiver_open P K LegacyPlaintext B 128 env legacy_context = Some (Inl InvalidEnvelope)"
      "\<And>env w w'. sender_seal P K LegacyPlaintext B 128 q legacy_context w = (Inr env, w') \<Longrightarrow>
        receiver_open P K LegacyPlaintext A 128 env legacy_context = Some (Inl InvalidEnvelope)"
  shows "passes (reject_each_other P peers_of p peers_of2 q) (w, calls) (\<lambda>_ _. True)"
proof -
  have lim: "pair_limits LegacyPlaintext payload 128" for payload by (rule legacy_limits) simp_all
  obtain env w1 where 1: "sender_seal P K LegacyPlaintext A 128 p legacy_context w = (Inr env, w1)"
    by (rule pair_seals [OF core lim, of legacy_context p A w]) (use len in simp_all)
  obtain env' w2 where 2: "sender_seal P K LegacyPlaintext B 128 q legacy_context w1 = (Inr env', w2)"
    by (rule pair_seals [OF core lim, of legacy_context q B w1]) (use len in simp_all)
  show ?thesis
    by (simp add: reject_each_other_def passes_simps buildsD [OF peers(1) lim] buildsD [OF peers(2) lim]
        passes_sealed_run [OF 1] passes_sealed_run [OF 2] passes_assert_refused [OF refused(1) [OF 1]]
        passes_assert_refused [OF refused(2) [OF 2]])
qed

text \<open>A cipher text of one mode is refused in another: by its length, or by its algorithm.\<close>

lemma foreign_length_refused:
  assumes core: "test_core P L K" and seal: "sender_seal P K LegacyPlaintext A 128 p legacy_context w = (Inr env, w')"
    and len: "length p < 16" and m: "\<And>m. sealed_len A (length p) \<noteq> sealed_len B m"
  shows "receiver_open P K LegacyPlaintext B 128 env legacy_context = Some (Inl InvalidEnvelope)"
proof -
  have lim: "pair_limits LegacyPlaintext payload 128" for payload by (rule legacy_limits) simp_all
  have iv: "length (iv (sender_config (pair_of P K LegacyPlaintext A 128))) = 16"
    "length (iv (receiver_config (pair_of P K LegacyPlaintext B 128))) = 16"
    using pair_configs_ok [OF lim, of P K] by (simp_all add: config_ok_def)
  obtain key f where f: "length key = 16"
    "carries P (sender_config (pair_of P K LegacyPlaintext A 128)) legacy_context key p f" "cipher env = base64_encode P f"
    by (rule seal_parts [OF core seal]) auto
  have l: "length f = sealed_len A (length p)" using carries_length [OF core iv(1) f(1,2)] by simp
  have "sealed_len A (length p) \<le> 46" using len by (cases A) (simp_all add: sealed_len_def)
  then have "4 * ((length f + 2) div 3) \<le> 4 * (48 div 3)" unfolding l by (intro mult_le_mono2 div_le_mono) simp
  then have bound: "str_len (cipher env) \<le> 64"
    using base64_str_len [OF crypto_lawsD(2) [OF test_coreD(1) [OF core]], of f] f(3) by simp
  have "64 \<le> cipher_bound (receiver_config (pair_of P K LegacyPlaintext B 128))"
    by (cases B) (simp_all add: frame_bounds cipher_bound_def base64_len_eq padded_cipher_len_eq saturating_add_def usize_MAX_def)
  with bound have "str_len (cipher env) \<le> cipher_bound (receiver_config (pair_of P K LegacyPlaintext B 128))" by simp
  then show ?thesis
    by (intro refusedI [OF wrong_length_refused [OF core iv(2), where f = f]])
      (use l m in \<open>simp_all add: f(3) base64_core [OF core]\<close>)
qed

lemma foreign_algorithm_refused:
  assumes core: "test_core P L K" and seal: "sender_seal P K LegacyPlaintext (Aead a) 128 p legacy_context w = (Inr env, w')"
    and opens: "receiver_open P K LegacyPlaintext (Aead a) 128 env legacy_context = Some (Inr p)" and "a \<noteq> b"
  shows "receiver_open P K LegacyPlaintext (Aead b) 128 env legacy_context = Some (Inl InvalidEnvelope)"
proof -
  obtain f where f: "base64_decode P (cipher env) = Some f" "f ! Suc 0 = algorithm_byte a"
    by (rule sealed_frame [OF core seal])
  have "algorithm_byte a \<noteq> algorithm_byte b"
    using assms(4) by (cases a; cases b) (simp_all add: ALGORITHM_SM4_GCM_def ALGORITHM_SM4_CCM_def)
  with f(2) have "f ! 0 \<noteq> 1 \<or> f ! 1 \<noteq> algorithm_byte b" by simp
  with f(1) show ?thesis
    using pair_bound [OF opens] by (intro refusedI [OF header_refused]) (simp_all add: frame_bounds)
qed

section \<open>The literal AAD\<close>

lemma literal_aad_eq: "literal_aad l h d c = lp_fields [l, h, d, c]"
  by (auto simp: literal_aad_def lp_fields_def u64_try_from_def Let_def)

lemma passes_asserts: "passes (for_eachW (\<lambda>a. assertT (R a)) xs) s Q \<longleftrightarrow> (\<forall>a \<in> set xs. R a) \<and> Q () s"
  by (induction xs arbitrary: s) (auto simp: passes_bindW passes_primitives passes_for_eachW simp del: for_eachW.simps)

text \<open>
  What the crate contributes to the two tests always holds: the session key, the frame and the four-field AAD
  are as the test computes them. What remains is whether the cipher rejects the altered AADs.
\<close>

lemma literal_aad_test_iff:
  assumes core: "test_core P L K" and peers: "builds P K peers_of (Aead alg)" and id: "algorithm_id = algorithm_byte alg"
    and len: "length p \<le> 256" and dec: "\<And>k n a c t. aead_decrypt P alg k n a c t = ok_or InvalidEnvelope (dec k n a c t)"
    and seal: "sender_seal P K (ContextBound (blit ''example/request/v1'')) (Aead alg) 256 p
      (AuthenticationContext (Bound (blit ''operation=pay&id=17''))) w = (Inr env, w')"
    and frame: "base64_decode P (cipher env) = Some (frame_of alg nonce ct tag)" "length nonce = 12" "length tag = 16"
    and key: "base64_decode P (wrapped_session_key env) = Some wrapped"
      "sm2_decrypt P (skey K RECEIVER_DECRYPTION) wrapped = Some key"
    and aads: "different_aads (blit ''gmcrypto-envelope-lite/aead-aad/v1'') ([1, algorithm_byte alg] @ nonce)
      (blit ''example/request/v1'') (blit ''operation=pay&id=17'') = Some aads"
  shows "passes (literal_aad_test P K peers_of algorithm_id dec p) (w, calls) (\<lambda>_ _. True) \<longleftrightarrow>
    (\<forall>a \<in> set aads. dec key nonce a ct tag = None)"
proof -
  let ?m = "ContextBound (blit ''example/request/v1'')" and ?x = "AuthenticationContext (Bound (blit ''operation=pay&id=17''))"
  have lim: "pair_limits ?m (Aead alg) 256" by (simp add: pair_limits_def mode_ok_def blit_length)
  have mode: "envelope_mode (sender_config (pair_of P K ?m (Aead alg) 256)) = Aead alg" by simp
  obtain key' nonce' w2 aad ct' tag' wrapped' w3 where s: "length key' = 16" "length nonce' = 12" "length ct' = length p"
    "length tag' = 16"
    "aead_aad (authentication_mode (sender_config (pair_of P K ?m (Aead alg) 256))) ?x ([1, algorithm_byte alg] @ nonce') = Inr aad"
    "aead_decrypt P alg key' nonce' aad ct' tag' = Inr p"
    "sm2_encrypt P (remote_encryption (sender_keys (pair_of P K ?m (Aead alg) 256))) key' w2 = (Some wrapped', w3)"
    "cipher env = base64_encode P (frame_of alg nonce' ct' tag')" "wrapped_session_key env = base64_encode P wrapped'"
    by (rule aead_parts [OF core mode seal])
  have "frame_of alg nonce' ct' tag' = frame_of alg nonce ct tag" using s(8) frame(1) base64_core [OF core] by simp
  then have same: "nonce' = nonce" "ct' = ct" "tag' = tag" using frame_of_inject s(2,4) frame(2,3) by metis+
  have "wrapped' = wrapped" using s(9) key(1) base64_core [OF core] by simp
  moreover have "sm2_decrypt P (skey K RECEIVER_DECRYPTION) wrapped' = Some key'"
    using s(7) [unfolded pair_fields] crypto_lawsD(3) [OF test_coreD(1) [OF core]] unfolding sm2_laws_def by blast
  ultimately have "key' = key" using key(2) by simp
  have "dec key nonce aad ct tag = Some p"
    using s(6) \<open>key' = key\<close> same by (simp add: dec ok_or_def split: option.splits)
  moreover have "lp_fields [blit ''gmcrypto-envelope-lite/aead-aad/v1'', 1 # algorithm_byte alg # nonce,
      blit ''example/request/v1'', blit ''operation=pay&id=17''] = Some aad"
    using aead_aadD [OF s(5)] same by (simp add: AEAD_AAD_LABEL_def)
  moreover have "length key = 16" "length ct = length p" using s(1,3) \<open>key' = key\<close> same by simp_all
  moreover have "drop (14 + length p) (1 # algorithm_byte alg # nonce @ ct @ tag) = tag"
    using append_eq_conv_conj [of "1 # algorithm_byte alg # nonce @ ct" tag "1 # algorithm_byte alg # nonce @ ct @ tag"] frame(2) \<open>length ct = length p\<close> by simp
  moreover have k: "raw_private_key K RECEIVER_DECRYPTION = Some (skey K RECEIVER_DECRYPTION)"
    by (rule raw_key [OF test_coreD(4) [OF core]]) (simp add: test_scalars)
  ultimately show ?thesis
    using frame key(2) aads
    by (simp add: literal_aad_test_def Let_def passes_bindW passes_primitives passes_asserts context_bound_eq blit_length
        buildsD [OF peers lim] passes_sealed_run [OF seal] key(1) frame_of_def assert_byte_def byte_at_def id subslice_def
        usize_sub_def TEST_FRAME_OVERHEAD_BYTES_def TEST_FRAME_HEADER_BYTES_def TEST_TAG_BYTES_def literal_aad_eq)
qed

section \<open>The suite\<close>

definition aead_tests :: "('w, 'sk, 'pk, 'cert) core_test list" where
  "aead_tests = [
     aead_round_trips_in_both_directions_with_distinct_roles,
     aead_context_bound_round_trip_rejects_wrong_or_mismatched_contexts,
     aead_round_trips_empty_boundary_and_unicode_plaintext,
     aead_plaintext_length_sweep_round_trips_across_frame_and_base64_boundaries,
     every_aead_seal_uses_a_fresh_session_key_and_nonce,
     aead_seal_rejects_plaintext_over_the_configured_limit,
     aead_gcm_rejects_wrong_version_and_non_gcm_algorithm_ids,
     aead_short_and_truncated_frames_are_rejected,
     aead_nonce_ciphertext_and_tag_tampering_are_indistinguishable,
     aead_domain_separator_and_context_are_covered_by_the_aad,
     aead_oversized_encoded_and_decoded_ciphers_split_the_public_bounds,
     aead_wrapped_key_signature_and_wrong_key_failures_match_cbc_semantics,
     aead_and_cbc_clients_reject_each_other_s_envelopes]"

definition ccm_tests :: "('w, 'sk, 'pk, 'cert) core_test list" where
  "ccm_tests = [
     ccm_round_trips_in_both_directions_with_distinct_roles,
     ccm_context_bound_round_trip_rejects_wrong_or_mismatched_contexts,
     ccm_round_trips_empty_boundary_and_unicode_plaintext,
     ccm_plaintext_length_sweep_round_trips_across_frame_and_base64_boundaries,
     every_ccm_seal_uses_a_fresh_session_key_and_nonce,
     ccm_seal_rejects_plaintext_over_the_configured_limit,
     ccm_client_at_the_nonce_ceiling_still_round_trips_a_small_payload,
     ccm_seals_exactly_the_12_byte_nonce_ceiling,
     ccm_rejects_wrong_version_and_non_ccm_algorithm_ids,
     ccm_short_and_truncated_frames_are_rejected,
     ccm_nonce_ciphertext_and_tag_tampering_are_indistinguishable,
     ccm_domain_separator_and_context_are_covered_by_the_aad,
     ccm_oversized_encoded_and_decoded_ciphers_split_the_public_bounds,
     ccm_wrapped_key_signature_and_wrong_key_failures_match_cbc_semantics,
     ccm_and_gcm_clients_reject_each_other_s_envelopes,
     ccm_and_cbc_clients_reject_each_other_s_envelopes]"

text \<open>The messages whose envelopes the tests tamper with, for each algorithm.\<close>

fun aead_signed_messages :: "AeadAlgorithm \<Rightarrow> (AuthenticationMode \<times> AuthenticationContext \<times> bytes) list" where
  "aead_signed_messages Sm4Gcm = [
     (ContextBound (blit ''example/aead/v1''), AuthenticationContext (Bound (blit ''operation=pay&id=17'')),
        blit ''context-bound aead payload''),
     (ContextBound (blit ''example/request/v1''), AuthenticationContext (Bound (blit ''operation=pay&id=17'')),
        blit ''domain-separated aead payload''),
     (LegacyPlaintext, legacy_context, blit ''aead negative-matrix payload'')]"
| "aead_signed_messages Sm4Ccm = [
     (ContextBound (blit ''example/ccm/v1''), AuthenticationContext (Bound (blit ''operation=pay&id=17'')),
        blit ''context-bound ccm payload''),
     (ContextBound (blit ''example/request/v1''), AuthenticationContext (Bound (blit ''operation=pay&id=17'')),
        blit ''domain-separated ccm payload''),
     (LegacyPlaintext, legacy_context, blit ''ccm negative-matrix payload'')]"

lemma cross_mode_passes:
  assumes core: "test_core P L K"
  shows "passes (aead_and_cbc_clients_reject_each_other_s_envelopes P L K) (w, calls) (\<lambda>_ _. True)"
    "passes (ccm_and_cbc_clients_reject_each_other_s_envelopes P L K) (w, calls) (\<lambda>_ _. True)"
    "passes (ccm_and_gcm_clients_reject_each_other_s_envelopes P L K) (w, calls) (\<lambda>_ _. True)"
proof -
  note fx = fixtures_build [OF core]
  have cbc: "receiver_open P K LegacyPlaintext (Aead alg) 128 env legacy_context = Some (Inl InvalidEnvelope)"
    if "sender_seal P K LegacyPlaintext LegacyCbc 128 (blit ''cbc payload'') legacy_context w = (Inr env, w')" for alg env w w'
    by (rule foreign_length_refused [OF core that]) (simp_all add: blit_length sealed_len_def)
  have aead: "receiver_open P K LegacyPlaintext LegacyCbc 128 env legacy_context = Some (Inl InvalidEnvelope)"
    if seal: "sender_seal P K LegacyPlaintext (Aead alg) 128 p legacy_context w = (Inr env, w')"
      and len: "length p < 16" "(length p + 30) mod 16 \<noteq> 0" for alg p env w w'
  proof (rule foreign_length_refused [OF core seal len(1)])
    fix m
    have "length p + 30 \<noteq> (m div 16 + 1) * 16" using len(2) by (metis mod_mult_self2_is_0)
    then show "sealed_len (Aead alg) (length p) \<noteq> sealed_len LegacyCbc m" by (simp add: sealed_len_def)
  qed
  have pair: "receiver_open P K LegacyPlaintext (Aead b) 128 env legacy_context = Some (Inl InvalidEnvelope)"
    if seal: "sender_seal P K LegacyPlaintext (Aead a) 128 p legacy_context w = (Inr env, w')"
      and "length p \<le> 128" "a \<noteq> b" for a b p env w w'
    using foreign_algorithm_refused [OF core seal pair_opens [OF core legacy_limits _ seal] that(3)] that(2) by simp
  have len: "length (blit ''aead payload'') = 12" "length (blit ''ccm payload'') = 11" by (simp_all add: blit_length)
  have lens: "length (blit ''aead payload'') < 16" "(length (blit ''aead payload'') + 30) mod 16 \<noteq> 0"
    "length (blit ''ccm payload'') < 16" "(length (blit ''ccm payload'') + 30) mod 16 \<noteq> 0"
    unfolding len by simp_all
  have le: "length (blit ''gcm payload'') \<le> 128" "length (blit ''ccm payload'') \<le> 128" by (simp_all add: blit_length)
  have ne: "Sm4Gcm \<noteq> Sm4Ccm" "Sm4Ccm \<noteq> Sm4Gcm" by simp_all
  show "passes (aead_and_cbc_clients_reject_each_other_s_envelopes P L K) (w, calls) (\<lambda>_ _. True)"
    unfolding aead_and_cbc_clients_reject_each_other_s_envelopes_def
    by (rule reject_each_other_passes [OF core fx(1,2) _ _ cbc aead [OF _ lens(1,2)]]) (simp_all add: blit_length)
  show "passes (ccm_and_cbc_clients_reject_each_other_s_envelopes P L K) (w, calls) (\<lambda>_ _. True)"
    unfolding ccm_and_cbc_clients_reject_each_other_s_envelopes_def
    by (rule reject_each_other_passes [OF core fx(1,3) _ _ cbc aead [OF _ lens(3,4)]]) (simp_all add: blit_length)
  show "passes (ccm_and_gcm_clients_reject_each_other_s_envelopes P L K) (w, calls) (\<lambda>_ _. True)"
    unfolding ccm_and_gcm_clients_reject_each_other_s_envelopes_def
    by (rule reject_each_other_passes [OF core fx(2,3) _ _ pair [OF _ le(1) ne(1)] pair [OF _ le(2) ne(2)]]) (simp_all add: le)
qed

lemmas gcm_test_defs =
  aead_round_trips_in_both_directions_with_distinct_roles_def
  aead_context_bound_round_trip_rejects_wrong_or_mismatched_contexts_def
  aead_round_trips_empty_boundary_and_unicode_plaintext_def
  aead_plaintext_length_sweep_round_trips_across_frame_and_base64_boundaries_def
  every_aead_seal_uses_a_fresh_session_key_and_nonce_def
  aead_seal_rejects_plaintext_over_the_configured_limit_def
  aead_gcm_rejects_wrong_version_and_non_gcm_algorithm_ids_def
  aead_short_and_truncated_frames_are_rejected_def
  aead_nonce_ciphertext_and_tag_tampering_are_indistinguishable_def
  aead_domain_separator_and_context_are_covered_by_the_aad_def
  aead_oversized_encoded_and_decoded_ciphers_split_the_public_bounds_def
  aead_wrapped_key_signature_and_wrong_key_failures_match_cbc_semantics_def

lemma gcm_tests_pass:
  assumes core: "test_core P L K" and fresh: "fresh_source P age n"
    and binds: "list_all (\<lambda>(mode, x, p). binds_message P mode x p) (aead_signed_messages Sm4Gcm)"
    and tag: "nonzero_tag P K Sm4Gcm (blit ''aead negative-matrix payload'') w"
    and bound: "age (fst (snd (fresh_key_and_nonce P K (aead_peers P L K) (w, calls)))) \<le> n"
  shows "list_all (\<lambda>t. passes (t P L K) (w, calls) (\<lambda>_ _. True)) aead_tests"
proof -
  note fx = fixtures_build(2) [OF core] and valid = valid_envelopes(1)
  note bodies = both_directions_passes [OF core fx] bound_round_trip_passes [OF core fx] boundary_round_trips_pass [OF core fx]
    frame_sweep_passes [OF core fx] fresh_key_and_nonce_passes [OF core fx fresh bound] over_limit_seal_passes [OF fx]
    wrong_headers_passes [OF core fx _ _ valid] short_frames_passes [OF core fx _ _ valid]
    tampered_frames_passes [OF core fx _ _ valid] other_domain_passes [OF core fx] split_bounds_passes [OF core fx]
    key_failures_passes [OF core fx _ _ valid]
  show ?thesis
    unfolding aead_tests_def list.pred_inject
    by (intro conjI list.pred_inject(1) cross_mode_passes(1) [OF core]; unfold gcm_test_defs; rule bodies;
        insert binds tag; simp add: blit_length ALGORITHM_SM4_GCM_def ALGORITHM_SM4_CCM_def)
qed

lemmas ccm_test_defs =
  ccm_round_trips_in_both_directions_with_distinct_roles_def
  ccm_context_bound_round_trip_rejects_wrong_or_mismatched_contexts_def
  ccm_round_trips_empty_boundary_and_unicode_plaintext_def
  ccm_plaintext_length_sweep_round_trips_across_frame_and_base64_boundaries_def
  every_ccm_seal_uses_a_fresh_session_key_and_nonce_def
  ccm_seal_rejects_plaintext_over_the_configured_limit_def
  ccm_rejects_wrong_version_and_non_ccm_algorithm_ids_def
  ccm_short_and_truncated_frames_are_rejected_def
  ccm_nonce_ciphertext_and_tag_tampering_are_indistinguishable_def
  ccm_domain_separator_and_context_are_covered_by_the_aad_def
  ccm_oversized_encoded_and_decoded_ciphers_split_the_public_bounds_def
  ccm_wrapped_key_signature_and_wrong_key_failures_match_cbc_semantics_def

lemma ccm_tests_pass:
  assumes core: "test_core P L K" and fresh: "fresh_source P age n"
    and binds: "list_all (\<lambda>(mode, x, p). binds_message P mode x p) (aead_signed_messages Sm4Ccm)"
    and tag: "nonzero_tag P K Sm4Ccm (blit ''ccm negative-matrix payload'') w"
    and bound: "age (fst (snd (fresh_key_and_nonce P K (ccm_peers P L K) (w, calls)))) \<le> n"
  shows "list_all (\<lambda>t. passes (t P L K) (w, calls) (\<lambda>_ _. True)) ccm_tests"
proof -
  note fx = fixtures_build(3) [OF core] and valid = valid_envelopes(2)
  note bodies = both_directions_passes [OF core fx] bound_round_trip_passes [OF core fx] boundary_round_trips_pass [OF core fx]
    frame_sweep_passes [OF core fx] fresh_key_and_nonce_passes [OF core fx fresh bound] over_limit_seal_passes [OF fx]
    wrong_headers_passes [OF core fx _ _ valid] short_frames_passes [OF core fx _ _ valid]
    tampered_frames_passes [OF core fx _ _ valid] other_domain_passes [OF core fx] split_bounds_passes [OF core fx]
    key_failures_passes [OF core fx _ _ valid]
  show ?thesis
    unfolding ccm_tests_def list.pred_inject
    by (intro conjI list.pred_inject(1) ceiling_passes [OF core] cross_mode_passes(2,3) [OF core]; unfold ccm_test_defs; rule bodies;
        insert binds tag; simp add: blit_length ALGORITHM_SM4_GCM_def ALGORITHM_SM4_CCM_def)
qed


lemma tested_nonzero_tag: "nonzero_tag (tested_core T) tested_raw alg p 0"
  unfolding nonzero_tag_def
proof (intro allI impI)
  fix env w' f
  assume seal: "sender_seal (tested_core T) tested_raw LegacyPlaintext (Aead alg) 128 p legacy_context 0 = (Inr env, w')"
    and f: "base64_decode (tested_core T) (cipher env) = Some f"
  note core = tested_ok [of T]
  have mode: "envelope_mode (sender_config (pair_of (tested_core T) tested_raw LegacyPlaintext (Aead alg) 128)) = Aead alg"
    by simp
  obtain key w1 nonce w2 aad ct tag where s: "getrandom_fill (tested_core T) 16 0 = (Some key, w1)"
    "getrandom_fill (tested_core T) 12 w1 = (Some nonce, w2)" "length nonce = 12" "length tag = 16"
    "aead_decrypt (tested_core T) alg key nonce aad ct tag = Inr p"
    "cipher env = base64_encode (tested_core T) (frame_of alg nonce ct tag)"
    by (rule aead_parts [OF core mode seal])
  have "tag = nonce_tag nonce aad"
    using s(4,5) by (cases alg) (simp_all add: aead_decrypt_def tested_core_def TAG_BYTES_def ok_or_def split: option.splits if_splits)
  moreover have "nonce \<noteq> replicate 12 0"
    using s(1,2) by (auto simp: tested_core_def plain_crypto_def counting_os_def)
  moreover have "take 12 (replicate 16 (0 :: byte)) = replicate 12 0" by simp
  ultimately have "tag \<noteq> replicate 16 0"
    using s(3) append_eq_conv_conj [of nonce "replicate 4 (checksum aad)" "replicate 16 0"] by (auto simp: nonce_tag_def)
  moreover have "f = frame_of alg nonce ct tag" using f s(6) base64_core [OF core] by simp
  then have "drop (length f - 16) f = tag" using s(4) by (simp add: frame_of_def)
  ultimately show "drop (length f - 16) f \<noteq> replicate 16 0" by simp
qed

lemma tested_fresh_run:
  assumes "builds (tested_core T) tested_raw peers_of (Aead alg)"
  shows "fst (snd (fresh_key_and_nonce (tested_core T) tested_raw peers_of (0, calls))) \<le> 255"
proof -
  let ?p = "blit ''same payload''"
  note core = tested_ok [of T]
  have lim: "pair_limits LegacyPlaintext (Aead alg) 128" by (rule legacy_limits) simp_all
  have len: "length ?p \<le> 128" "length ?p < 2 ^ 61" by (simp_all add: blit_length)
  obtain env w1 where seal: "sender_seal (tested_core T) tested_raw LegacyPlaintext (Aead alg) 128 ?p legacy_context 0 = (Inr env, w1)"
    by (rule aead_pair_seals [OF core lim len])
  obtain env' w2 where seal': "sender_seal (tested_core T) tested_raw LegacyPlaintext (Aead alg) 128 ?p legacy_context w1 = (Inr env', w2)"
    by (rule aead_pair_seals [OF core lim len])
  show ?thesis
    using tested_seal_world [OF seal] tested_seal_world [OF seal']
    by (simp add: fresh_key_and_nonce_world [OF core assms seal seal'])
qed


end
