(* ===== verification/Spec2Isabelle.thy ===== *)
theory Spec2Isabelle
  imports Redaction Network Example_Programs Fuzz_Targets Cbc_Tests Aead_Tests
begin

text \<open>
  A verification of \<^verbatim>\<open>gmcrypto-envelope-lite\<close>, a Rust crate that seals application bytes into
  hybrid SM2/SM4 envelopes and maps them to the headers and body of a protocol message.

  \<^bold>\<open>The program.\<close> A client (\<^verbatim>\<open>src/client.rs\<close>) holds a validated configuration
  (\<^verbatim>\<open>src/client_config.rs\<close>), keys in four directional roles (\<^verbatim>\<open>src/keys.rs\<close>) and a protocol
  adapter (\<^verbatim>\<open>src/adapter.rs\<close>). To build a request it asks the adapter for the authentication
  context, seals the plaintext (\<^verbatim>\<open>src/envelope_crypto\<close>: fresh SM4 session key, payload
  encryption, key wrapped with SM2, SM2 signature over the transcript of \<^verbatim>\<open>src/auth.rs\<close>), lets the
  adapter place the three encoded parts, and appends the headers of the caller
  (\<^verbatim>\<open>src/message.rs\<close>, \<^verbatim>\<open>src/header.rs\<close>). To open a response it lets the adapter parse it, compares
  the claimed signing certificate with the configured one, and opens the envelope. The
  fluent builder of \<^verbatim>\<open>src/request.rs\<close> and the JSON variants wrap these operations.

  \<^bold>\<open>Conventions.\<close> A struct is a record, an enum a datatype with the source's constructors, and
  a method \<^verbatim>\<open>T::f\<close> is the definition \<open>T_f\<close>. Fallible code returns a sum whose left side is the
  error. Code that uses the operating system threads a world state and returns it with its
  result. Code that can panic returns an option of a result, and \<open>None\<close> is the panic. \<^verbatim>\<open>usize\<close> is a
  natural number with the overflow of a 64-bit target written out; serialised integers are
  words. Strings are lists of Unicode scalar values with their UTF-8 encoding defined.
  Every definition that models code terminates without fuel.

  \<^bold>\<open>Parameters.\<close> SM2, SM4, Base64, the random generator and the clock are the fields of the
  record \<open>crypto\<close> of \<^verbatim>\<open>Primitives\<close>; key containers and the file system are those of \<open>key_lib\<close> in
  \<^verbatim>\<open>Keys\<close>; JSON encoding is a record of \<^verbatim>\<open>Client\<close>. Where a theorem needs their behaviour it names
  it: \<open>crypto_laws\<close> (decoding inverts encoding, decryption inverts encryption, a made signature
  verifies, lengths), \<open>available\<close> and \<open>signs\<close> (the primitives do not fail). Unforgeability is
  stated per theorem, as a premise on which transcripts the peer's key verifies.
  \<^verbatim>\<open>Concrete\<close> gives an instance that satisfies all the laws, and the concrete runs use it.

  \<^bold>\<open>Theories.\<close>
  \<^item> \<^verbatim>\<open>Prelude\<close>, \<^verbatim>\<open>Rust_Str\<close>, \<^verbatim>\<open>Rust_Fmt\<close>: results, effects, arithmetic, big-endian encoding, strings,
    UTF-8, number formatting. The interface \<open>prefix_free\<close> holds what all length-prefixed formats
    share: a concatenation of encoded fields determines the fields.
  \<^item> \<^verbatim>\<open>Errors\<close> (\<^verbatim>\<open>src/error.rs\<close>): the error enums and their printed text.
  \<^item> \<^verbatim>\<open>Header\<close> (\<^verbatim>\<open>src/header.rs\<close>): names, values and ordered collections without duplicates. The
    interface \<open>header_store\<close> states lookup, insertion and revalidation; construction from pairs
    and checked appending are characterised on every branch.
  \<^item> \<^verbatim>\<open>Auth\<close> (\<^verbatim>\<open>src/auth.rs\<close>): modes, contexts, the signed transcript and the additional
    authenticated data, with their layout and what each encoding determines.
  \<^item> \<^verbatim>\<open>Timestamp\<close>, \<^verbatim>\<open>Message\<close> (\<^verbatim>\<open>src/message.rs\<close>): the calendar arithmetic against a calendar that
    advances day by day; metadata, request contexts and builders, request and response parts.
  \<^item> \<^verbatim>\<open>Config\<close> (\<^verbatim>\<open>src/client_config.rs\<close>): the builder as an ordered table of conditions, and the
    invariant \<open>config_ok\<close> of what it builds.
  \<^item> \<^verbatim>\<open>Keys\<close> (\<^verbatim>\<open>src/keys.rs\<close>): loaders with their error categories and the rules for roles.
  \<^item> \<^verbatim>\<open>Adapter\<close> (\<^verbatim>\<open>src/adapter.rs\<close>): header schemas, their invariant \<open>schema_ok\<close>, exact requests and
    exact parsing, context encodings. The interface \<open>pinned_adapter\<close> is what the client relies
    on; the schema adapter and the example adapter are its instances.
  \<^item> \<^verbatim>\<open>Envelope_Base\<close>, \<^verbatim>\<open>Cbc\<close>, \<^verbatim>\<open>Aead\<close>, \<^verbatim>\<open>Envelope\<close> (\<^verbatim>\<open>src/envelope_crypto/mod.rs\<close>, \<^verbatim>\<open>cbc.rs\<close>, \<^verbatim>\<open>aead.rs\<close>): sealing
    and opening in both payload modes, with the declarative form of every acceptance and the
    interface \<open>envelope_opener\<close> (opening returns, acceptance implies a verified transcript,
    refusals are uniform), of which each mode and the dispatch are instances.
  \<^item> \<^verbatim>\<open>Exchange\<close>: two endpoints. What one seals the other opens; agreement on message and
    context; uniform refusals; one verification per CBC envelope; liveness and length bounds.
  \<^item> \<^verbatim>\<open>Client\<close> (\<^verbatim>\<open>src/client.rs\<close>, \<^verbatim>\<open>src/request.rs\<close>): the client and the builder. End-to-end round trips
    of requests and responses through the headers, responses bound to request identifiers,
    no reflection of requests, JSON, and two configurations that are accepted but unusable.
  \<^item> \<^verbatim>\<open>Network\<close>: two clients and an attacker as a step relation over every interleaving of
    sealing, requests and deliveries. What is accepted was sealed by the peer for the same
    context, and no session key is used twice.
  \<^item> \<^verbatim>\<open>Redaction\<close>: every hand-written diagnostic text, which depends on the shape of the data only.
  \<^item> \<^verbatim>\<open>Examples\<close>, \<^verbatim>\<open>Example_Programs\<close> (\<^verbatim>\<open>examples/build_request.rs\<close>, \<^verbatim>\<open>examples/open_response.rs\<close>): the
    example adapter and client, two requests that share one context, and the two programs
    from the command line to the printed lines.
  \<^item> \<^verbatim>\<open>Fuzz_Input\<close>, \<^verbatim>\<open>Fuzz_Contract\<close>, \<^verbatim>\<open>Fuzz_Targets\<close> (\<^verbatim>\<open>fuzz/fuzz_targets\<close>): how the harness reads its
    input, its fixed schemas and clients, and the assertions of the six targets, shown for
    every input. In the context target the mismatch scenario assumes that a signature over
    one transcript does not verify over the other; the input is shorter than 2^63 bytes, as
    every Rust slice is.

  \<^item> \<^verbatim>\<open>Test_Support\<close>, \<^verbatim>\<open>Cbc_Tests\<close>, \<^verbatim>\<open>Aead_Tests\<close> (the \<^verbatim>\<open>test_support\<close> and \<^verbatim>\<open>tests\<close> modules of \<^verbatim>\<open>src/envelope_crypto\<close>):
    the unit tests of the envelopes as programs over the model. They pass over every implementation of the
    cryptographic crates that meets the laws \<open>test_core\<close>, so a failing run of the suite is a fault of a dependency or of the code,
    never of the test's expectations. \<^verbatim>\<open>Test_Instance\<close> is an implementation that satisfies these laws. That signatures bind is
    assumed for the transcripts the tests tamper with only: no signature of bounded length binds every transcript.

  \<^bold>\<open>Not modelled.\<close> \<^verbatim>\<open>src/lib.rs\<close> only declares modules and re-exports. Erasure of key material
  from memory and running time have no counterpart in a functional model; what
  is shown instead is that refusals do not differ in value. One test of \<^verbatim>\<open>aead.rs\<close> calls the CCM
  cipher of \<^verbatim>\<open>gmcrypto_core\<close> and nothing of the crate. The integration tests and the release scripts
  are no part of the library. In the fuzz harness the derivation and container round trip of
  the fixed key pair belong to \<^verbatim>\<open>gmcrypto_core\<close>, so the pair is a parameter, and a lazily
  initialised static is its value.
\<close>

end
